theory Spec2Isabelle
  imports Complex_Main
begin

section \<open>The text editor component of \<^verbatim>\<open>src/text-editor-component.js\<close>\<close>

text \<open>
  A shallow embedding of \<^verbatim>\<open>TextEditorComponent\<close> and \<^verbatim>\<open>LineComponent\<close>.
  JavaScript numbers that hold pixel quantities are idealised as \<^typ>\<open>real\<close> (no rounding,
  no NaN, no infinities); screen rows are \<^typ>\<open>int\<close>, columns are \<^typ>\<open>nat\<close>.
  Where the source would produce NaN or an infinity (a zero line height), the theorems
  below carry the hypothesis that excludes it.
\<close>

subsection \<open>JavaScript arithmetic\<close>

text \<open>
  The remainder operator \<^verbatim>\<open>a % b\<close> on integers truncates towards zero: the result has the
  sign of the dividend. (\<^verbatim>\<open>a % 0\<close> is NaN in JavaScript; no call below has a zero divisor.)
\<close>

definition js_rem :: "int \<Rightarrow> int \<Rightarrow> int" where
  "js_rem a b = sgn a * (\<bar>a\<bar> mod \<bar>b\<bar>)"

subsection \<open>Data model\<close>

text \<open>
  \<^verbatim>\<open>this.measurements\<close>, filled by \<^verbatim>\<open>performInitialMeasurements\<close>. The scroll width is
  \<^verbatim>\<open>undefined\<close> (\<open>None\<close>) until the longest line has been measured. The widths of the
  double-width, half-width and Korean reference characters, which nothing in the
  component reads, are left out.
\<close>

record measurements =
  scrollTop :: real
  scrollLeft :: real
  scrollerHeight :: real
  scrollerWidth :: real
  lineHeight :: real
  baseCharacterWidth :: real
  scrollWidth :: "real option"
  lineNumberGutterWidth :: real

text \<open>
  The part of the component that the viewport and tile computations read:
  \<^verbatim>\<open>this.props.rowsPerTile\<close> (a row count, \<^verbatim>\<open>undefined\<close> when the property is not given) and
  \<^verbatim>\<open>this.getModel().getApproximateScreenLineCount()\<close>. The measurements object is passed
  to each function explicitly: the source reads \<^verbatim>\<open>this.measurements\<close>, and a call while it is
  still \<^verbatim>\<open>null\<close> throws, which is modelled where the functions are called.
\<close>

record viewport =
  props_rowsPerTile :: "nat option"
  approximateScreenLineCount :: int

definition DEFAULT_ROWS_PER_TILE :: int where
  "DEFAULT_ROWS_PER_TILE = 6"

text \<open>\<^verbatim>\<open>this.props.rowsPerTile || DEFAULT_ROWS_PER_TILE\<close>: both \<^verbatim>\<open>undefined\<close> and 0 are falsy.\<close>

definition getRowsPerTile :: "'a viewport_scheme \<Rightarrow> int" where
  "getRowsPerTile c =
     (case props_rowsPerTile c of
        None \<Rightarrow> DEFAULT_ROWS_PER_TILE
      | Some n \<Rightarrow> if n = 0 then DEFAULT_ROWS_PER_TILE else int n)"

definition getTileStartRow :: "'a viewport_scheme \<Rightarrow> int \<Rightarrow> int" where
  "getTileStartRow c row = row - js_rem row (getRowsPerTile c)"

definition getFirstVisibleRow :: "'m measurements_scheme \<Rightarrow> int" where
  "getFirstVisibleRow m = \<lfloor>scrollTop m / lineHeight m\<rfloor>"

definition getLastVisibleRow :: "'a viewport_scheme \<Rightarrow> 'm measurements_scheme \<Rightarrow> int" where
  "getLastVisibleRow c m =
     min (approximateScreenLineCount c - 1)
         (getFirstVisibleRow m + \<lceil>scrollerHeight m / lineHeight m\<rceil>)"

definition getVisibleTileCount :: "'a viewport_scheme \<Rightarrow> 'm measurements_scheme \<Rightarrow> int" where
  "getVisibleTileCount c m =
     (getLastVisibleRow c m - getFirstVisibleRow m) div getRowsPerTile c + 2"

definition getFirstTileStartRow :: "'a viewport_scheme \<Rightarrow> 'm measurements_scheme \<Rightarrow> int" where
  "getFirstTileStartRow c m = getTileStartRow c (getFirstVisibleRow m)"

definition getLastTileStartRow :: "'a viewport_scheme \<Rightarrow> 'm measurements_scheme \<Rightarrow> int" where
  "getLastTileStartRow c m =
     getFirstTileStartRow c m + (getVisibleTileCount c m - 1) * getRowsPerTile c"

definition getRenderedStartRow :: "'a viewport_scheme \<Rightarrow> 'm measurements_scheme \<Rightarrow> int" where
  "getRenderedStartRow c m = getFirstTileStartRow c m"

definition getRenderedEndRow :: "'a viewport_scheme \<Rightarrow> 'm measurements_scheme \<Rightarrow> int" where
  "getRenderedEndRow c m =
     getFirstTileStartRow c m + getVisibleTileCount c m * getRowsPerTile c"

text \<open>
  The tile loop shared by \<^verbatim>\<open>renderLineNumberGutter\<close> and \<^verbatim>\<open>renderLineTiles\<close>:
  \<^verbatim>\<open>for (let t = firstTileStartRow; t <= lastTileStartRow; t += this.getRowsPerTile())\<close>.
  It yields the start rows in the order the loop visits them.
\<close>

function tileStartRows :: "'a viewport_scheme \<Rightarrow> int \<Rightarrow> int \<Rightarrow> int list" where
  "tileStartRows c tileStartRow lastTileStartRow =
     (if tileStartRow \<le> lastTileStartRow
      then tileStartRow # tileStartRows c (tileStartRow + getRowsPerTile c) lastTileStartRow
      else [])"
  by pat_completeness auto
termination
  by (relation "measure (\<lambda>(c, t, l). nat (l - t + 1))")
     (auto simp: getRowsPerTile_def DEFAULT_ROWS_PER_TILE_def split: option.splits)

declare tileStartRows.simps [simp del]

definition renderedTileStartRows :: "'a viewport_scheme \<Rightarrow> 'm measurements_scheme \<Rightarrow> int list" where
  "renderedTileStartRows c m =
     tileStartRows c (getFirstTileStartRow c m) (getLastTileStartRow c m)"

subsection \<open>Screen lines, nodes and the rendering surface\<close>

text \<open>The exceptions a JavaScript run of the component can end in.\<close>

datatype error = TypeError | RangeError | IndexSizeError | ReferenceError

text \<open>
  A screen line of the display layer: its identity, its text and its tag codes. Screen
  lines are immutable, so comparing two of them by \<^verbatim>\<open>===\<close> is comparing these values.
\<close>

record screen_line =
  line_id :: nat
  lineText :: string
  tagCodes :: "int list"

text \<open>
  The display layer of the model, an external collaborator: the screen lines by row
  (row 0 first), the classification of tag codes and the fold character.
\<close>

record display_layer =
  screenLines :: "screen_line list"
  isCloseTagCode :: "int \<Rightarrow> bool"
  isOpenTagCode :: "int \<Rightarrow> bool"
  tagForCode :: "int \<Rightarrow> string"
  foldCharacter :: string

text \<open>\<^verbatim>\<open>xs[i]\<close> on a JavaScript array: \<^verbatim>\<open>undefined\<close> outside the array.\<close>

definition js_index :: "'a list \<Rightarrow> int \<Rightarrow> 'a option" where
  "js_index xs i = (if 0 \<le> i \<and> i < int (length xs) then Some (xs ! nat i) else None)"

text \<open>\<^verbatim>\<open>displayLayer.getScreenLine(row)\<close> and \<^verbatim>\<open>model.screenLineForScreenRow(row)\<close>.\<close>

definition getScreenLine :: "display_layer \<Rightarrow> int \<Rightarrow> screen_line option" where
  "getScreenLine dl row = js_index (screenLines dl) row"

text \<open>
  \<^verbatim>\<open>displayLayer.getScreenLines(startRow, endRow)\<close>: the screen lines of the rows from
  \<open>startRow\<close> up to, not including, \<open>endRow\<close> that exist, the line of \<open>startRow\<close> at index 0.
\<close>

definition getScreenLines :: "display_layer \<Rightarrow> int \<Rightarrow> int \<Rightarrow> screen_line list" where
  "getScreenLines dl startRow endRow =
     take (nat (endRow - max startRow 0)) (drop (nat startRow) (screenLines dl))"

text \<open>\<^verbatim>\<open>model.lineLengthForScreenRow(row)\<close>.\<close>

definition lineLengthForScreenRow :: "display_layer \<Rightarrow> int \<Rightarrow> nat" where
  "lineLengthForScreenRow dl row =
     (case getScreenLine dl row of None \<Rightarrow> 0 | Some l \<Rightarrow> length (lineText l))"

text \<open>
  A text node created by a line component. It is identified by the screen line it was
  created for and its position among that line's text nodes.
\<close>

record text_node =
  owner_line :: nat
  node_index :: nat
  textContent :: string

text \<open>
  The element tree of a rendered line: elements with a tag name, a class name and
  children, and text nodes.
\<close>

datatype dom = Element string string "dom list" | Text text_node

text \<open>
  The rendering surface, an external collaborator: what the layout queries of the
  source return. \<open>rangeLeft n s e\<close> and \<open>rangeRight n s e\<close> are the left and right edge of
  the bounding rectangle of the range from offset \<open>s\<close> to offset \<open>e\<close> of text node \<open>n\<close>;
  \<open>clientLeft\<close> is the left edge of an element, \<open>firstChildOffsetWidth\<close> the
  \<^verbatim>\<open>offsetWidth\<close> of its first child.
\<close>

record surface =
  rangeLeft :: "text_node \<Rightarrow> nat \<Rightarrow> nat \<Rightarrow> real"
  rangeRight :: "text_node \<Rightarrow> nat \<Rightarrow> nat \<Rightarrow> real"
  clientLeft :: "dom \<Rightarrow> real"
  firstChildOffsetWidth :: "dom \<Rightarrow> real"
  scroller_offsetHeight :: real
  scroller_offsetWidth :: real
  scroller_scrollTop :: real
  scroller_scrollLeft :: real
  characterMeasurementLine_height :: real
  normalWidthCharacterSpan_width :: real
  lineNumberGutter_offsetWidth :: real

text \<open>
  A cursor marker of the selections marker layer: its identity and the screen positions
  (row, column) of its head and tail.
\<close>

record marker =
  marker_id :: nat
  headScreenPosition :: "int \<times> nat"
  tailScreenPosition :: "int \<times> nat"

text \<open>
  An entry of \<^verbatim>\<open>this.cursorsToRender\<close>. A horizontal position read from the cache is
  \<^verbatim>\<open>undefined\<close> when the column was never measured, and a width computed from it is NaN;
  both are \<open>None\<close> here.
\<close>

record cursor =
  screenPosition :: "int \<times> nat"
  columnWidth :: nat
  pixelTop :: real
  pixelLeft :: "real option"
  pixelWidth :: "real option"

text \<open>A layout query issued to the rendering surface.\<close>

datatype query =
    RangeQuery text_node nat nat
  | ClientRectQuery dom

text \<open>
  What a run of the component does that is visible from outside, in the order it happens:
  calls to the external collaborators and the steps of an update.
\<close>

datatype event =
    ResolveNextUpdatePromise nat
  | MeasureEditorDimensions
  | MeasureScrollPosition
  | PopulateSpatialIndexIfNeeded int
  | GetApproximateLongestScreenRow
  | ClearPositionsToMeasure
  | EtchUpdateSync
  | MeasureLongestLineWidth
  | QueryCursorsToRender
  | MeasureHorizontalPositions "query list"
  | PositionCursorsToRender
  | MeasureCharacterDimensions
  | MeasureGutterDimensions
  | SetVisible bool
  | UpdateDocument
  | NotifyAwaiter nat

text \<open>
  The virtual nodes \<^verbatim>\<open>renderLineTiles\<close> produces: a tile with its key, height, vertical
  translation and line components, or a line component on its own. \<open>Hole\<close> is a slot of
  \<^verbatim>\<open>new Array(n)\<close> that was never assigned.
\<close>

datatype vnode =
    Hole
  | TileNode (tile_key: int) (tile_height: real) (tile_translateY: real)
      (tile_lines: "screen_line list")
  | LineNode screen_line

text \<open>
  What a commit of the virtual-tree library does to a line component: it constructs it
  (\<^verbatim>\<open>new LineComponent(props)\<close>) or destroys it (\<^verbatim>\<open>destroy()\<close>). The \<^verbatim>\<open>update\<close> of a line
  component that is kept does nothing.
\<close>

datatype lifecycle = Construct screen_line | Destroy screen_line

subsection \<open>The component\<close>

text \<open>
  The fields of \<^verbatim>\<open>TextEditorComponent\<close>, after the part the tile computations read.
  \<open>None\<close> stands for \<^verbatim>\<open>null\<close> and \<^verbatim>\<open>undefined\<close>.

  The model (\<^verbatim>\<open>this.props.model\<close>) is an external collaborator, represented by what the
  component asks it for: its display layer, the markers of its selections marker layer, the
  marker of its last cursor, and its approximate longest screen row. That row is the longest
  one among the rows the spatial index of the display layer covers, so it is a function of
  the number of indexed screen rows, \<open>indexedScreenRows\<close>, which
  \<^verbatim>\<open>populateSpatialIndexIfNeeded\<close> raises.

  The last fields are the surroundings of the component: the rendering surface; the
  virtual-tree library, by the children of the \<^verbatim>\<open>lines\<close> node it rendered last and by its
  diff, \<open>etchPatch old new\<close>, the line components a commit constructs and destroys, in
  this order, when the children change from \<open>old\<close> to \<open>new\<close>; the number of callbacks
  waiting in the scheduler of that library; the number of promises created so far; the
  resolved promises whose reactions have not run yet; and the trace of events.
\<close>

record component = viewport +
  displayLayer :: display_layer
  selectionsMarkerLayer :: "marker list"
  lastCursorMarker :: nat
  approximateLongestScreenRow :: "int \<Rightarrow> int"
  indexedScreenRows :: int
  updateScheduled :: bool
  updatedSynchronously :: bool
  measurements :: "measurements option"
  staleMeasurements :: "bool option"
  visible :: bool
  focused :: bool
  horizontalPositionsToMeasure :: "(int \<times> nat list) list"
  horizontalPixelPositionsByScreenLineId :: "nat \<rightharpoonup> (nat \<rightharpoonup> real)"
  lineNodesByScreenLineId :: "nat \<rightharpoonup> dom"
  textNodesByScreenLineId :: "nat \<rightharpoonup> text_node list"
  cursorsToRender :: "cursor list"
  inputScreenPosition :: "(int \<times> nat) option"
  nextUpdatePromise :: "nat option"
  previousLongestLine :: "screen_line option"
  longestLineToMeasure :: "screen_line option"
  surface :: surface
  renderedChildren :: "vnode list"
  etchPatch :: "vnode list \<Rightarrow> vnode list \<Rightarrow> lifecycle list"
  scheduledCallbacks :: nat
  promisesCreated :: nat
  pendingReactions :: "nat list"
  events :: "event list"

definition emit :: "event \<Rightarrow> component \<Rightarrow> component" where
  "emit e c = c\<lparr>events := events c @ [e]\<rparr>"

subsection \<open>The longest screen line\<close>

text \<open>
  The two calls to the model. \<^verbatim>\<open>displayLayer.populateSpatialIndexIfNeeded(Infinity, endRow)\<close>
  extends the spatial index so that it covers the screen rows before \<open>endRow\<close>;
  \<^verbatim>\<open>model.getApproximateLongestScreenRow()\<close> answers from the rows the index covers at the
  time of the call. Both calls are recorded in the trace.
\<close>

definition populateSpatialIndexIfNeeded :: "int \<Rightarrow> component \<Rightarrow> component" where
  "populateSpatialIndexIfNeeded endScreenRow c =
     emit (PopulateSpatialIndexIfNeeded endScreenRow)
       (c\<lparr>indexedScreenRows := max (indexedScreenRows c) endScreenRow\<rparr>)"

definition getApproximateLongestScreenRow :: "component \<Rightarrow> int \<times> component" where
  "getApproximateLongestScreenRow c =
     (approximateLongestScreenRow c (indexedScreenRows c), emit GetApproximateLongestScreenRow c)"

text \<open>
  \<^verbatim>\<open>getLongestScreenLine\<close>. The constant the source names \<^verbatim>\<open>renderedEndRow\<close> is the row
  bound it passes to \<^verbatim>\<open>populateSpatialIndexIfNeeded\<close>.
\<close>

definition longestLine_renderedEndRow :: "'a viewport_scheme \<Rightarrow> 'm measurements_scheme \<Rightarrow> int" where
  "longestLine_renderedEndRow c m =
     getTileStartRow c (getLastVisibleRow c m) + getRowsPerTile c"

definition getLongestScreenLine ::
  "component \<Rightarrow> measurements \<Rightarrow> screen_line option \<times> component" where
  "getLongestScreenLine c m =
     (let renderedEndRow = longestLine_renderedEndRow c m;
          c1 = populateSpatialIndexIfNeeded renderedEndRow c;
          (longestRow, c2) = getApproximateLongestScreenRow c1
      in (getScreenLine (displayLayer c2) longestRow, c2))"

subsection \<open>Rendering the line tiles\<close>

text \<open>
  \<^verbatim>\<open>xs[i] = v\<close> on a JavaScript array: an index beyond the end extends the array with
  holes; a negative index sets a property and leaves the elements alone.
\<close>

definition js_array_set :: "vnode list \<Rightarrow> int \<Rightarrow> vnode \<Rightarrow> vnode list" where
  "js_array_set xs i v =
     (if i < 0 then xs
      else if nat i < length xs then xs[nat i := v]
      else xs @ replicate (nat i - length xs) Hole @ [v])"

definition topPixelPositionForRow :: "'m measurements_scheme \<Rightarrow> int \<Rightarrow> real" where
  "topPixelPositionForRow m row = real_of_int row * lineHeight m"

text \<open>
  The slot of a tile, \<^verbatim>\<open>(tileStartRow / this.getRowsPerTile()) % visibleTileCount\<close>. A tile
  start row is a multiple of the rows per tile, so the division is exact.
\<close>

definition tileIndex :: "'a viewport_scheme \<Rightarrow> 'm measurements_scheme \<Rightarrow> int \<Rightarrow> int" where
  "tileIndex c m tileStartRow =
     js_rem (tileStartRow div getRowsPerTile c) (getVisibleTileCount c m)"

text \<open>
  The inner loop of \<^verbatim>\<open>renderLineTiles\<close> over the rows of one tile, \<open>i\<close> being
  \<^verbatim>\<open>row - firstTileStartRow\<close> and \<open>n\<close> the number of rows left. It stops at the first row
  without a screen line, and forgets the longest line to measure once it has rendered it.
\<close>

fun tileLines ::
  "screen_line list \<Rightarrow> int \<Rightarrow> nat \<Rightarrow> screen_line option
     \<Rightarrow> screen_line list \<times> screen_line option" where
  "tileLines sls i 0 longest = ([], longest)"
| "tileLines sls i (Suc n) longest =
     (case js_index sls i of
        None \<Rightarrow> ([], longest)
      | Some screenLine \<Rightarrow>
          (let longest' = (if Some screenLine = longest then None else longest);
               (lineNodes, longest'') = tileLines sls (i + 1) n longest'
           in (screenLine # lineNodes, longest'')))"

text \<open>The outer loop, over the tile start rows in the order the loop visits them.\<close>

fun renderTiles ::
  "'a viewport_scheme \<Rightarrow> measurements \<Rightarrow> screen_line list \<Rightarrow> int list \<Rightarrow> vnode list
     \<Rightarrow> screen_line option \<Rightarrow> vnode list \<times> screen_line option" where
  "renderTiles c m sls [] tileNodes longest = (tileNodes, longest)"
| "renderTiles c m sls (tileStartRow # rest) tileNodes longest =
     (let (lineNodes, longest') =
            tileLines sls (tileStartRow - getFirstTileStartRow c m)
              (nat (getRowsPerTile c)) longest;
          tileHeight = real_of_int (getRowsPerTile c) * lineHeight m;
          i = tileIndex c m tileStartRow
      in renderTiles c m sls rest
           (js_array_set tileNodes i
              (TileNode i tileHeight (topPixelPositionForRow m tileStartRow) lineNodes))
           longest')"

text \<open>
  \<^verbatim>\<open>renderLineTiles\<close>: the children of the \<^verbatim>\<open>lines\<close> node and the component, whose longest
  line to measure is consumed. \<^verbatim>\<open>new Array(n)\<close> throws for a negative \<open>n\<close>.
\<close>

definition renderLineTiles :: "component \<Rightarrow> error + (vnode list \<times> component)" where
  "renderLineTiles c =
     (case measurements c of
        None \<Rightarrow> Inr ([], c)
      | Some m \<Rightarrow>
          (let firstTileStartRow = getFirstTileStartRow c m;
               visibleTileCount = getVisibleTileCount c m;
               lastTileStartRow = getLastTileStartRow c m;
               sls = getScreenLines (displayLayer c) firstTileStartRow
                       (lastTileStartRow + getRowsPerTile c)
           in if visibleTileCount < 0 then Inl RangeError
              else
                (let (tileNodes, longest) =
                       renderTiles c m sls (tileStartRows c firstTileStartRow lastTileStartRow)
                         (replicate (nat visibleTileCount) Hole) (longestLineToMeasure c)
                 in case longest of
                      None \<Rightarrow> Inr (tileNodes, c\<lparr>longestLineToMeasure := None\<rparr>)
                    | Some l \<Rightarrow>
                        Inr (tileNodes @ [LineNode l], c\<lparr>longestLineToMeasure := None\<rparr>))))"

subsection \<open>Line components\<close>

text \<open>\<^verbatim>\<open>s.substr(start, length)\<close> and \<^verbatim>\<open>s.endsWith(t)\<close> on JavaScript strings.\<close>

definition js_substr :: "string \<Rightarrow> int \<Rightarrow> int \<Rightarrow> string" where
  "js_substr s start len =
     (let n = int (length s);
          st = (if start < 0 then max (n + start) 0 else min start n);
          l = min (max len 0) (n - st)
      in take (nat l) (drop (nat st) s))"

definition endsWith :: "string \<Rightarrow> string \<Rightarrow> bool" where
  "endsWith s t \<longleftrightarrow> length t \<le> length s \<and> drop (length s - length t) s = t"

text \<open>
  \<^verbatim>\<open>classNameForScopeName\<close>: \<^verbatim>\<open>scopeName.replace(/\.+/g, ' ')\<close>, every run of dots becomes
  one space. (The source caches the result per scope name.)
\<close>

fun replaceDotRuns :: "bool \<Rightarrow> string \<Rightarrow> string" where
  "replaceDotRuns inRun [] = []"
| "replaceDotRuns inRun (x # xs) =
     (if x = CHR ''.'' then
        (if inRun then replaceDotRuns True xs else CHR '' '' # replaceDotRuns True xs)
      else x # replaceDotRuns False xs)"

definition classNameForScopeName :: "string \<Rightarrow> string" where
  "classNameForScopeName scopeName = replaceDotRuns False scopeName"

text \<open>
  An element that is still being filled: its tag name, its class name and the children
  appended so far. While a line is built, the open elements form a stack, \<^verbatim>\<open>openScopeNode\<close>
  on top and the element of the line at the bottom.
\<close>

type_synonym open_element = "string \<times> string \<times> dom list"

definition appendChild :: "dom \<Rightarrow> open_element list \<Rightarrow> open_element list" where
  "appendChild child stack =
     (case stack of
        [] \<Rightarrow> []
      | (tag, cls, children) # below \<Rightarrow> (tag, cls, children @ [child]) # below)"

text \<open>Closing the top element makes it a finished child of the one below.\<close>

fun closeElements :: "open_element list \<Rightarrow> dom option" where
  "closeElements [] = None"
| "closeElements [(tag, cls, children)] = Some (Element tag cls children)"
| "closeElements ((tag, cls, children) # (tag', cls', children') # below) =
     closeElements ((tag', cls', children' @ [Element tag cls children]) # below)"

text \<open>
  The state of the loop over the tag codes: \<^verbatim>\<open>startIndex\<close>, the stack of open elements,
  whether \<^verbatim>\<open>openScopeNode\<close> has become \<^verbatim>\<open>null\<close> (the parent of the line's element, which
  is not attached yet), and the text nodes created so far.
\<close>

record line_build =
  startIndex :: int
  openElements :: "open_element list"
  openScopeNodeIsNull :: bool
  textNodes :: "text_node list"

text \<open>
  One iteration of the loop. Using \<^verbatim>\<open>openScopeNode\<close> when it is \<^verbatim>\<open>null\<close> throws a
  \<^verbatim>\<open>TypeError\<close>.
\<close>

definition tagCodeStep ::
  "display_layer \<Rightarrow> screen_line \<Rightarrow> int \<Rightarrow> line_build \<Rightarrow> error + line_build" where
  "tagCodeStep dl screenLine tagCode b =
     (if tagCode \<noteq> 0 then
        if isCloseTagCode dl tagCode then
          if openScopeNodeIsNull b then Inl TypeError
          else
            (case openElements b of
               (tag, cls, children) # below # rest \<Rightarrow>
                 Inr (b\<lparr>openElements :=
                          appendChild (Element tag cls children) (below # rest)\<rparr>)
             | _ \<Rightarrow> Inr (b\<lparr>openScopeNodeIsNull := True\<rparr>))
        else if isOpenTagCode dl tagCode then
          if openScopeNodeIsNull b then Inl TypeError
          else
            (let scope = tagForCode dl tagCode
             in Inr (b\<lparr>openElements :=
                         (''span'', classNameForScopeName scope, []) # openElements b\<rparr>))
        else
          (let textNode =
                 \<lparr>owner_line = line_id screenLine, node_index = length (textNodes b),
                  textContent = js_substr (lineText screenLine) (startIndex b) tagCode\<rparr>
           in if openScopeNodeIsNull b then Inl TypeError
              else Inr (b\<lparr>startIndex := startIndex b + tagCode,
                           openElements := appendChild (Text textNode) (openElements b),
                           textNodes := textNodes b @ [textNode]\<rparr>))
      else Inr b)"

fun tagCodeLoop ::
  "display_layer \<Rightarrow> screen_line \<Rightarrow> int list \<Rightarrow> line_build \<Rightarrow> error + line_build" where
  "tagCodeLoop dl screenLine [] b = Inr b"
| "tagCodeLoop dl screenLine (tagCode # rest) b =
     (case tagCodeStep dl screenLine tagCode b of
        Inl e \<Rightarrow> Inl e
      | Inr b' \<Rightarrow> tagCodeLoop dl screenLine rest b')"


text \<open>
  \<^verbatim>\<open>this.element.appendChild(textNode); textNodes.push(textNode)\<close>, as done for the space
  of a line without text.
\<close>

definition appendToElement ::
  "screen_line \<Rightarrow> string \<Rightarrow> dom \<times> text_node list \<Rightarrow> dom \<times> text_node list" where
  "appendToElement screenLine text et =
     (let textNode =
            \<lparr>owner_line = line_id screenLine, node_index = length (snd et),
             textContent = text\<rparr>
      in (case fst et of
            Element tag cls children \<Rightarrow> Element tag cls (children @ [Text textNode])
          | Text t \<Rightarrow> Text t,
          snd et @ [textNode]))"

text \<open>
  The constructor of \<^verbatim>\<open>LineComponent\<close>: it registers the element and the text nodes of
  the line under the identity of the screen line. The element of the line is the bottom
  of the stack of open elements; what is still open when the loop ends is already a
  descendant of it.

  For a line whose text ends with the fold character the source goes on with
  \<^verbatim>\<open>document.createTextNode(ZERO_WIDTH_NBSP)\<close>. The module declares no \<^verbatim>\<open>ZERO_WIDTH_NBSP\<close>
  (its constants are \<^verbatim>\<open>DEFAULT_ROWS_PER_TILE\<close>, the four characters to measure and
  \<^verbatim>\<open>NBSP_CHARACTER\<close>), so evaluating the identifier throws a \<^verbatim>\<open>ReferenceError\<close> and the
  constructor does not return.
\<close>

definition LineComponent :: "screen_line \<Rightarrow> component \<Rightarrow> error + component" where
  "LineComponent screenLine c =
     (case tagCodeLoop (displayLayer c) screenLine (tagCodes screenLine)
             \<lparr>startIndex = 0, openElements = [(''span'', [], []), (''div'', ''line'', [])],
              openScopeNodeIsNull = False, textNodes = []\<rparr> of
        Inl e \<Rightarrow> Inl e
      | Inr b \<Rightarrow>
          (case closeElements (openElements b) of
             None \<Rightarrow> Inl TypeError
           | Some element \<Rightarrow>
               (let et = (element, textNodes b);
                    et1 = (if startIndex b = 0 then appendToElement screenLine '' '' et else et)
                in if endsWith (lineText screenLine) (foldCharacter (displayLayer c))
                   then Inl ReferenceError
                   else
                     Inr (c\<lparr>lineNodesByScreenLineId :=
                              (lineNodesByScreenLineId c)(line_id screenLine \<mapsto> fst et1),
                            textNodesByScreenLineId :=
                              (textNodesByScreenLineId c)(line_id screenLine \<mapsto> snd et1)\<rparr>))))"

text \<open>\<^verbatim>\<open>LineComponent.destroy\<close>.\<close>

definition LineComponent_destroy :: "screen_line \<Rightarrow> component \<Rightarrow> component" where
  "LineComponent_destroy screenLine c =
     c\<lparr>lineNodesByScreenLineId := (lineNodesByScreenLineId c)(line_id screenLine := None),
       textNodesByScreenLineId := (textNodesByScreenLineId c)(line_id screenLine := None)\<rparr>"

subsection \<open>Horizontal measurement\<close>

text \<open>
  \<^verbatim>\<open>requestHorizontalMeasurement\<close> on the pending requests, a JavaScript \<^verbatim>\<open>Map\<close> from rows to
  arrays of columns, kept in insertion order.
\<close>

fun requestColumn :: "(int \<times> nat list) list \<Rightarrow> int \<Rightarrow> nat \<Rightarrow> (int \<times> nat list) list" where
  "requestColumn [] row column = [(row, [column])]"
| "requestColumn ((r, columns) # rest) row column =
     (if r = row then (r, columns @ [column]) # rest
      else (r, columns) # requestColumn rest row column)"

definition requestHorizontalMeasurement :: "int \<Rightarrow> nat \<Rightarrow> component \<Rightarrow> component" where
  "requestHorizontalMeasurement row column c =
     c\<lparr>horizontalPositionsToMeasure :=
         requestColumn (horizontalPositionsToMeasure c) row column\<rparr>"

text \<open>
  The local state of \<^verbatim>\<open>measureHorizontalPositionsOnLine\<close>: \<^verbatim>\<open>lineNodeClientLeft\<close> (\<open>-1\<close> until
  it is read from the surface), the positions of the line, and the layout queries issued.
\<close>

record line_measurement =
  lineNodeClientLeft :: real
  positions :: "nat \<rightharpoonup> real"
  queries :: "query list"

text \<open>
  The two nested loops of \<^verbatim>\<open>measureHorizontalPositionsOnLine\<close>. The text nodes from
  \<^verbatim>\<open>textNodesIndex\<close> on and the columns from \<^verbatim>\<open>columnsIndex\<close> on are the list arguments;
  \<open>start\<close> is \<^verbatim>\<open>textNodeStartColumn\<close>. Once the text nodes are used up the inner loop is
  not entered any more, so the remaining columns are skipped. A range whose end offset
  is negative or beyond the text makes the surface throw; reading the rectangle of a
  missing line node throws a \<^verbatim>\<open>TypeError\<close>.
\<close>

fun measureLoop ::
  "surface \<Rightarrow> dom option \<Rightarrow> text_node list \<Rightarrow> nat \<Rightarrow> nat list \<Rightarrow> line_measurement
     \<Rightarrow> error + line_measurement" where
  "measureLoop sf lineNode [] start columns st = Inr st"
| "measureLoop sf lineNode (textNode # rest) start [] st = Inr st"
| "measureLoop sf lineNode (textNode # rest) start (nextColumnToMeasure # columns) st =
     (if nextColumnToMeasure = 0 then
        measureLoop sf lineNode (textNode # rest) start columns
          (st\<lparr>positions := (positions st)(0 \<mapsto> 0)\<rparr>)
      else if positions st nextColumnToMeasure \<noteq> None then
        measureLoop sf lineNode (textNode # rest) start columns st
      else
        (let textNodeEndColumn = start + length (textContent textNode)
         in if nextColumnToMeasure \<le> textNodeEndColumn then
              if nextColumnToMeasure < start
                 \<or> (nextColumnToMeasure = start \<and> length (textContent textNode) < 1)
              then Inl IndexSizeError
              else
                (let endOffset =
                       (if nextColumnToMeasure = start then 1 else nextColumnToMeasure - start);
                     clientPixelPosition =
                       (if nextColumnToMeasure = start then rangeLeft sf textNode 0 1
                        else rangeRight sf textNode 0 endOffset);
                     st1 = st\<lparr>queries := queries st @ [RangeQuery textNode 0 endOffset]\<rparr>
                 in if lineNodeClientLeft st1 = - 1 then
                      (case lineNode of
                         None \<Rightarrow> Inl TypeError
                       | Some node \<Rightarrow>
                           measureLoop sf lineNode (textNode # rest) start columns
                             (st1\<lparr>lineNodeClientLeft := clientLeft sf node,
                                  queries := queries st1 @ [ClientRectQuery node],
                                  positions := (positions st1)(nextColumnToMeasure \<mapsto>
                                     clientPixelPosition - clientLeft sf node)\<rparr>))
                    else
                      measureLoop sf lineNode (textNode # rest) start columns
                        (st1\<lparr>positions := (positions st1)(nextColumnToMeasure \<mapsto>
                                 clientPixelPosition - lineNodeClientLeft st1)\<rparr>))
            else measureLoop sf lineNode rest textNodeEndColumn
                   (nextColumnToMeasure # columns) st))"

definition measureHorizontalPositionsOnLine ::
  "surface \<Rightarrow> dom option \<Rightarrow> text_node list \<Rightarrow> nat list \<Rightarrow> (nat \<rightharpoonup> real)
     \<Rightarrow> error + line_measurement" where
  "measureHorizontalPositionsOnLine sf lineNode lineTextNodes columnsToMeasure ps =
     measureLoop sf lineNode lineTextNodes 0 columnsToMeasure
       \<lparr>lineNodeClientLeft = - 1, positions = ps, queries = []\<rparr>"

text \<open>
  \<^verbatim>\<open>measureHorizontalPositions\<close>, one row of the pending requests after the other. The
  columns of a row are sorted in place. A row without screen line, or a screen line
  without registered text nodes, makes the run throw a \<^verbatim>\<open>TypeError\<close> (a pending row has
  at least one column, the one it was created for, so the loop reads the text nodes). The
  result is the component and the layout queries issued.
\<close>

fun measureRows ::
  "(int \<times> nat list) list \<Rightarrow> component \<Rightarrow> error + (component \<times> query list)" where
  "measureRows [] c = Inr (c, [])"
| "measureRows ((row, columnsToMeasure) # rest) c =
     (case getScreenLine (displayLayer c) row of
        None \<Rightarrow> Inl TypeError
      | Some screenLine \<Rightarrow>
          (case textNodesByScreenLineId c (line_id screenLine) of
             None \<Rightarrow> Inl TypeError
           | Some lineTextNodes \<Rightarrow>
               (let lineNode = lineNodesByScreenLineId c (line_id screenLine);
                    positionsForLine =
                      (case horizontalPixelPositionsByScreenLineId c (line_id screenLine) of
                         None \<Rightarrow> Map.empty
                       | Some ps \<Rightarrow> ps)
                in case measureHorizontalPositionsOnLine (surface c) lineNode lineTextNodes
                          (sort columnsToMeasure) positionsForLine of
                     Inl e \<Rightarrow> Inl e
                   | Inr st \<Rightarrow>
                       (case measureRows rest
                               (c\<lparr>horizontalPixelPositionsByScreenLineId :=
                                     (horizontalPixelPositionsByScreenLineId c)
                                       (line_id screenLine \<mapsto> positions st)\<rparr>) of
                          Inl e \<Rightarrow> Inl e
                        | Inr (c', qs) \<Rightarrow> Inr (c', queries st @ qs)))))"

definition measureHorizontalPositions :: "component \<Rightarrow> error + component" where
  "measureHorizontalPositions c =
     (case measureRows (horizontalPositionsToMeasure c) c of
        Inl e \<Rightarrow> Inl e
      | Inr (c', qs) \<Rightarrow>
          Inr (emit (MeasureHorizontalPositions qs)
                 (c'\<lparr>horizontalPositionsToMeasure :=
                       map (\<lambda>(row, columns). (row, sort columns))
                         (horizontalPositionsToMeasure c')\<rparr>)))"

definition pixelTopForScreenRow :: "'m measurements_scheme \<Rightarrow> int \<Rightarrow> real" where
  "pixelTopForScreenRow m row = real_of_int row * lineHeight m"

text \<open>
  \<^verbatim>\<open>pixelLeftForScreenRowAndColumn\<close>: a read of the cache, \<open>None\<close> when the column has no
  entry. It throws when the row has no screen line or the line has no positions.
\<close>

definition pixelLeftForScreenRowAndColumn ::
  "component \<Rightarrow> int \<Rightarrow> nat \<Rightarrow> error + real option" where
  "pixelLeftForScreenRowAndColumn c row column =
     (if column = 0 then Inr (Some 0)
      else
        (case getScreenLine (displayLayer c) row of
           None \<Rightarrow> Inl TypeError
         | Some screenLine \<Rightarrow>
             (case horizontalPixelPositionsByScreenLineId c (line_id screenLine) of
                None \<Rightarrow> Inl TypeError
              | Some ps \<Rightarrow> Inr (ps column))))"

subsection \<open>Cursors\<close>

text \<open>
  \<^verbatim>\<open>selectionsMarkerLayer.findMarkers({intersectsScreenRowRange: [startRow, endRow]})\<close>, a
  call to the model: the markers whose rows, from the smaller to the larger of head row
  and tail row, meet the rows from \<open>startRow\<close> to \<open>endRow\<close>.
\<close>

definition intersectsScreenRowRange :: "int \<Rightarrow> int \<Rightarrow> marker \<Rightarrow> bool" where
  "intersectsScreenRowRange startRow endRow mk \<longleftrightarrow>
     min (fst (headScreenPosition mk)) (fst (tailScreenPosition mk)) \<le> endRow
     \<and> startRow \<le> max (fst (headScreenPosition mk)) (fst (tailScreenPosition mk))"

definition findMarkers :: "marker list \<Rightarrow> int \<Rightarrow> int \<Rightarrow> marker list" where
  "findMarkers markers startRow endRow =
     filter (intersectsScreenRowRange startRow endRow) markers"

text \<open>The body of the loop of \<^verbatim>\<open>queryCursorsToRender\<close> for one cursor marker.\<close>

definition queryCursor :: "marker \<Rightarrow> component \<Rightarrow> component" where
  "queryCursor cursorMarker c =
     (let (row, column) = headScreenPosition cursorMarker;
          c1 = requestHorizontalMeasurement row column c;
          wide = (column < lineLengthForScreenRow (displayLayer c1) row);
          c2 = (if wide then requestHorizontalMeasurement row (column + 1) c1 else c1);
          c3 = c2\<lparr>cursorsToRender := cursorsToRender c2 @
                 [\<lparr>screenPosition = (row, column), columnWidth = (if wide then 1 else 0),
                   pixelTop = 0, pixelLeft = Some 0, pixelWidth = Some 0\<rparr>]\<rparr>
      in if marker_id cursorMarker = lastCursorMarker c3
         then c3\<lparr>inputScreenPosition := Some (row, column)\<rparr> else c3)"

text \<open>
  \<^verbatim>\<open>queryCursorsToRender\<close>. The array of cursors is cut to the number of markers found and
  every entry is assigned, so it is built anew. Reading the rendered rows while nothing
  has been measured throws.
\<close>

definition queryCursorsToRender :: "component \<Rightarrow> error + component" where
  "queryCursorsToRender c =
     (case measurements c of
        None \<Rightarrow> Inl TypeError
      | Some m \<Rightarrow>
          (let cursorMarkers =
                 findMarkers (selectionsMarkerLayer c) (getRenderedStartRow c m)
                   (getRenderedEndRow c m - 1)
           in Inr (emit QueryCursorsToRender
                     (fold queryCursor cursorMarkers
                        (c\<lparr>cursorsToRender := [], inputScreenPosition := None\<rparr>)))))"

text \<open>\<^verbatim>\<open>pixelRight - pixelLeft\<close>: NaN when one of them is \<^verbatim>\<open>undefined\<close>.\<close>

definition js_minus :: "real option \<Rightarrow> real option \<Rightarrow> real option" where
  "js_minus a b = (case (a, b) of (Some x, Some y) \<Rightarrow> Some (x - y) | _ \<Rightarrow> None)"

text \<open>The body of the loop of \<^verbatim>\<open>positionCursorsToRender\<close> for one cursor.\<close>

definition positionCursor :: "component \<Rightarrow> measurements \<Rightarrow> cursor \<Rightarrow> error + cursor" where
  "positionCursor c m cursorToRender =
     (let (row, column) = screenPosition cursorToRender;
          top = pixelTopForScreenRow m row
      in case pixelLeftForScreenRowAndColumn c row column of
           Inl e \<Rightarrow> Inl e
         | Inr left \<Rightarrow>
             (case (if columnWidth cursorToRender = 0 then Inr left
                    else pixelLeftForScreenRowAndColumn c row (column + 1)) of
                Inl e \<Rightarrow> Inl e
              | Inr right \<Rightarrow>
                  Inr (cursorToRender\<lparr>pixelTop := top, pixelLeft := left,
                         pixelWidth := js_minus right left\<rparr>)))"

fun positionCursors :: "component \<Rightarrow> measurements \<Rightarrow> cursor list \<Rightarrow> error + cursor list" where
  "positionCursors c m [] = Inr []"
| "positionCursors c m (cursorToRender # rest) =
     (case positionCursor c m cursorToRender of
        Inl e \<Rightarrow> Inl e
      | Inr positioned \<Rightarrow>
          (case positionCursors c m rest of
             Inl e \<Rightarrow> Inl e
           | Inr others \<Rightarrow> Inr (positioned # others)))"

definition positionCursorsToRender :: "component \<Rightarrow> error + component" where
  "positionCursorsToRender c =
     (case measurements c of
        None \<Rightarrow> Inl TypeError
      | Some m \<Rightarrow>
          (case positionCursors c m (cursorsToRender c) of
             Inl e \<Rightarrow> Inl e
           | Inr cursors \<Rightarrow> Inr (emit PositionCursorsToRender (c\<lparr>cursorsToRender := cursors\<rparr>))))"

subsection \<open>The offset of a column, as the specification words it\<close>

text \<open>
  The run that contains the column is located by walking the text runs of the line with a
  cumulative column counter; a column at the start of a run reads the leading edge of the
  run, a column inside or at the end of a run reads the trailing edge of the range from
  the start of the run to the column.
\<close>

fun offsetInRuns :: "surface \<Rightarrow> text_node list \<Rightarrow> nat \<Rightarrow> nat \<Rightarrow> real option" where
  "offsetInRuns sf [] start column = None"
| "offsetInRuns sf (run # rest) start column =
     (if column \<le> start + length (textContent run)
      then Some (if column = start then rangeLeft sf run 0 1
                 else rangeRight sf run 0 (column - start))
      else offsetInRuns sf rest (start + length (textContent run)) column)"

text \<open>
  The offset of a column of a row in a state of the component: 0 for column 0; the cached
  position when the line has one for the column; otherwise the position the surface gives
  for the rendered line, relative to the left edge of the line.
\<close>

definition measuredOffset :: "component \<Rightarrow> nat \<Rightarrow> nat \<Rightarrow> real option" where
  "measuredOffset c lineId column =
     (case (lineNodesByScreenLineId c lineId, textNodesByScreenLineId c lineId) of
        (Some node, Some runs) \<Rightarrow>
          map_option (\<lambda>x. x - clientLeft (surface c) node)
            (offsetInRuns (surface c) runs 0 column)
      | _ \<Rightarrow> None)"

definition cachedPosition :: "component \<Rightarrow> nat \<Rightarrow> nat \<Rightarrow> real option" where
  "cachedPosition c lineId column =
     (case horizontalPixelPositionsByScreenLineId c lineId of
        None \<Rightarrow> None
      | Some ps \<Rightarrow> ps column)"


subsection \<open>Measuring the editor\<close>

text \<open>
  \<^verbatim>\<open>measureEditorDimensions\<close>: whether a dimension changed, and the component. Like every
  function that reads a field of \<^verbatim>\<open>this.measurements\<close>, it throws while nothing has been
  measured.
\<close>

definition measureEditorDimensions :: "component \<Rightarrow> error + (bool \<times> component)" where
  "measureEditorDimensions c =
     (case measurements c of
        None \<Rightarrow> Inl TypeError
      | Some m \<Rightarrow>
          (let h = scroller_offsetHeight (surface c);
               w = scroller_offsetWidth (surface c);
               m1 = (if h \<noteq> scrollerHeight m then m\<lparr>scrollerHeight := h\<rparr> else m);
               m2 = (if w \<noteq> scrollerWidth m then m1\<lparr>scrollerWidth := w\<rparr> else m1)
           in Inr (h \<noteq> scrollerHeight m \<or> w \<noteq> scrollerWidth m,
                   emit MeasureEditorDimensions (c\<lparr>measurements := Some m2\<rparr>))))"

definition measureScrollPosition :: "component \<Rightarrow> error + component" where
  "measureScrollPosition c =
     (case measurements c of
        None \<Rightarrow> Inl TypeError
      | Some m \<Rightarrow>
          Inr (emit MeasureScrollPosition
                 (c\<lparr>measurements :=
                       Some (m\<lparr>scrollTop := scroller_scrollTop (surface c),
                               scrollLeft := scroller_scrollLeft (surface c)\<rparr>)\<rparr>)))"

text \<open>
  \<^verbatim>\<open>performInitialMeasurements\<close>: a fresh measurements object is filled by
  \<^verbatim>\<open>measureEditorDimensions\<close>, \<^verbatim>\<open>measureScrollPosition\<close>, \<^verbatim>\<open>measureCharacterDimensions\<close> and
  \<^verbatim>\<open>measureGutterDimensions\<close>, in this order; \<^verbatim>\<open>staleMeasurements\<close> becomes an object
  whose \<^verbatim>\<open>editorDimensions\<close> is not set, which reads as false.
\<close>

definition performInitialMeasurements :: "component \<Rightarrow> component" where
  "performInitialMeasurements c =
     (let sf = surface c
      in (c\<lparr>measurements :=
               Some \<lparr>scrollTop = scroller_scrollTop sf, scrollLeft = scroller_scrollLeft sf,
                     scrollerHeight = scroller_offsetHeight sf,
                     scrollerWidth = scroller_offsetWidth sf,
                     lineHeight = characterMeasurementLine_height sf,
                     baseCharacterWidth = normalWidthCharacterSpan_width sf,
                     scrollWidth = None,
                     lineNumberGutterWidth = lineNumberGutter_offsetWidth sf\<rparr>,
             staleMeasurements := Some False,
             events := events c @ [MeasureEditorDimensions, MeasureScrollPosition,
                                   MeasureCharacterDimensions, MeasureGutterDimensions]\<rparr>))"

text \<open>
  \<^verbatim>\<open>measureLongestLineWidth\<close>: it throws when there is no longest line or its line node
  is not registered.
\<close>

definition measureLongestLineWidth :: "screen_line option \<Rightarrow> component \<Rightarrow> error + component" where
  "measureLongestLineWidth longestLine c =
     (case longestLine of
        None \<Rightarrow> Inl TypeError
      | Some screenLine \<Rightarrow>
          (case lineNodesByScreenLineId c (line_id screenLine) of
             None \<Rightarrow> Inl TypeError
           | Some node \<Rightarrow>
               (case measurements c of
                  None \<Rightarrow> Inl TypeError
                | Some m \<Rightarrow>
                    Inr (emit MeasureLongestLineWidth
                           (c\<lparr>measurements :=
                                 Some (m\<lparr>scrollWidth :=
                                          Some (firstChildOffsetWidth (surface c) node)\<rparr>)\<rparr>)))))"

subsection \<open>Rendering and committing\<close>

text \<open>
  \<^verbatim>\<open>renderInput\<close>: the top and left of the hidden input. The left is NaN (\<open>None\<close>) when the
  position read from the cache is \<^verbatim>\<open>undefined\<close>; the read throws when the line has no
  positions.
\<close>

definition renderInput :: "component \<Rightarrow> measurements \<Rightarrow> error + (real \<times> real option)" where
  "renderInput c m =
     (case (focused c, inputScreenPosition c) of
        (True, Some (row, column)) \<Rightarrow>
          (let maxTop = scrollTop m + scrollerHeight m - lineHeight m;
               maxLeft = scrollLeft m + scrollerWidth m
           in case pixelLeftForScreenRowAndColumn c row column of
                Inl e \<Rightarrow> Inl e
              | Inr left \<Rightarrow>
                  Inr (max (scrollTop m) (min maxTop (pixelTopForScreenRow m row)),
                       map_option (\<lambda>l. max (scrollLeft m) (min maxLeft l)) left))
      | _ \<Rightarrow> Inr (scrollTop m, Some (scrollLeft m)))"

text \<open>
  The commit of the virtual-tree library runs the constructors and \<^verbatim>\<open>destroy\<close> methods of
  the line components one after the other; a constructor that throws ends it.
\<close>

fun applyLifecycle :: "lifecycle list \<Rightarrow> component \<Rightarrow> error + component" where
  "applyLifecycle [] c = Inr c"
| "applyLifecycle (Construct l # rest) c =
     (case LineComponent l c of Inl e \<Rightarrow> Inl e | Inr c' \<Rightarrow> applyLifecycle rest c')"
| "applyLifecycle (Destroy l # rest) c = applyLifecycle rest (LineComponent_destroy l c)"

text \<open>
  \<^verbatim>\<open>etch.updateSync(this)\<close>, a call to the virtual-tree library: it renders the component
  and commits the result to the surface. Of \<^verbatim>\<open>render\<close>, the parts that touch the state of
  the component are modelled, \<^verbatim>\<open>renderInput\<close> (inside \<^verbatim>\<open>renderCursorsAndInput\<close>), which can
  throw, and \<^verbatim>\<open>renderLineTiles\<close>, both only once something has been measured. Which line
  components the commit constructs and destroys, and in which order, is decided by the
  diff of the library, which is not part of the source file: it is the parameter
  \<open>etchPatch\<close> of the model.
\<close>

definition etch_updateSync :: "component \<Rightarrow> error + component" where
  "etch_updateSync c =
     (case measurements c of
        None \<Rightarrow> Inr (emit EtchUpdateSync c)
      | Some m \<Rightarrow>
          (case renderInput c m of
             Inl e \<Rightarrow> Inl e
           | Inr input \<Rightarrow>
               (case renderLineTiles c of
                  Inl e \<Rightarrow> Inl e
                | Inr (tileNodes, c1) \<Rightarrow>
                    (case applyLifecycle (etchPatch c1 (renderedChildren c1) tileNodes) c1 of
                       Inl e \<Rightarrow> Inl e
                     | Inr c2 \<Rightarrow>
                         Inr (emit EtchUpdateSync (c2\<lparr>renderedChildren := tileNodes\<rparr>))))))"

subsection \<open>The update cycle\<close>

text \<open>
  \<^verbatim>\<open>updateSync\<close>. Resolving the promise of the next update queues its reactions; they run
  when the running task has returned (see \<open>task\<close> below).
\<close>

definition resolveNextUpdatePromise :: "component \<Rightarrow> component" where
  "resolveNextUpdatePromise c =
     (case nextUpdatePromise c of
        None \<Rightarrow> c
      | Some p \<Rightarrow>
          (emit (ResolveNextUpdatePromise p) c)
            \<lparr>nextUpdatePromise := None, pendingReactions := pendingReactions c @ [p]\<rparr>)"

definition updateSync :: "component \<Rightarrow> error + component" where
  "updateSync c =
     (let c0 = resolveNextUpdatePromise (c\<lparr>updateScheduled := False\<rparr>)
      in case staleMeasurements c0 of
           None \<Rightarrow> Inl TypeError
         | Some stale \<Rightarrow>
             (case (if stale then map_sum id snd (measureEditorDimensions c0) else Inr c0) of
                Inl e \<Rightarrow> Inl e
              | Inr c1 \<Rightarrow>
                  (case measurements c1 of
                     None \<Rightarrow> Inl TypeError
                   | Some m \<Rightarrow>
                       (let (longestLine, c2) = getLongestScreenLine c1 m;
                            measureLongestLine = (longestLine \<noteq> previousLongestLine c2);
                            c3 = (if measureLongestLine
                                  then c2\<lparr>longestLineToMeasure := longestLine,
                                         previousLongestLine := longestLine\<rparr>
                                  else c2);
                            c4 = emit ClearPositionsToMeasure
                                   (c3\<lparr>horizontalPositionsToMeasure := []\<rparr>)
                        in case etch_updateSync c4 of
                             Inl e \<Rightarrow> Inl e
                           | Inr c5 \<Rightarrow>
                               (case (if measureLongestLine
                                      then measureLongestLineWidth longestLine c5 else Inr c5) of
                                  Inl e \<Rightarrow> Inl e
                                | Inr c6 \<Rightarrow>
                                    (case queryCursorsToRender c6 of
                                       Inl e \<Rightarrow> Inl e
                                     | Inr c7 \<Rightarrow>
                                         (case measureHorizontalPositions c7 of
                                            Inl e \<Rightarrow> Inl e
                                          | Inr c8 \<Rightarrow>
                                              (case positionCursorsToRender c8 of
                                                 Inl e \<Rightarrow> Inl e
                                               | Inr c9 \<Rightarrow> etch_updateSync c9))))))))"

subsection \<open>Scheduling and events\<close>

text \<open>
  \<^verbatim>\<open>scheduleUpdate\<close>: in synchronous mode the update runs at once; otherwise one callback
  is registered with the scheduler of the virtual-tree library, unless one is waiting.
\<close>

definition scheduleUpdate :: "component \<Rightarrow> error + component" where
  "scheduleUpdate c =
     (if updatedSynchronously c then updateSync c
      else if \<not> updateScheduled c then
        Inr (emit UpdateDocument
               (c\<lparr>updateScheduled := True, scheduledCallbacks := scheduledCallbacks c + 1\<rparr>))
      else Inr c)"

text \<open>
  The scheduler runs a registered callback: \<^verbatim>\<open>if (this.updateScheduled) this.updateSync()\<close>.
\<close>

definition runScheduledCallback :: "component \<Rightarrow> error + component" where
  "runScheduledCallback c =
     (if scheduledCallbacks c = 0 then Inr c
      else
        (let c1 = c\<lparr>scheduledCallbacks := scheduledCallbacks c - 1\<rparr>
         in if updateScheduled c1 then updateSync c1 else Inr c1))"

definition didShow :: "component \<Rightarrow> error + component" where
  "didShow c =
     (if \<not> visible c then
        (let c1 = emit (SetVisible True) (c\<lparr>visible := True\<rparr>);
             c2 = (if measurements c1 = None then performInitialMeasurements c1 else c1)
         in updateSync c2)
      else Inr c)"

definition didHide :: "component \<Rightarrow> component" where
  "didHide c =
     (if visible c then emit (SetVisible False) (c\<lparr>visible := False\<rparr>) else c)"

definition didScroll :: "component \<Rightarrow> error + component" where
  "didScroll c =
     (case measureScrollPosition c of Inl e \<Rightarrow> Inl e | Inr c1 \<Rightarrow> updateSync c1)"

definition didResize :: "component \<Rightarrow> error + component" where
  "didResize c =
     (case measureEditorDimensions c of
        Inl e \<Rightarrow> Inl e
      | Inr (changed, c1) \<Rightarrow> if changed then scheduleUpdate c1 else Inr c1)"

definition didFocusHiddenInput :: "component \<Rightarrow> error + component" where
  "didFocusHiddenInput c =
     (if \<not> focused c then scheduleUpdate (c\<lparr>focused := True\<rparr>) else Inr c)"

text \<open>
  \<^verbatim>\<open>didBlurHiddenInput\<close>; the argument tells whether the focus went to the element of the
  editor (\<^verbatim>\<open>event.relatedTarget === this.element\<close>).
\<close>

definition didBlurHiddenInput :: "bool \<Rightarrow> component \<Rightarrow> error + component" where
  "didBlurHiddenInput toElement c =
     (if \<not> toElement then scheduleUpdate (c\<lparr>focused := False\<rparr>) else Inr c)"




subsection \<open>Construction\<close>

text \<open>
  The constructor, from the properties it is given (the model is given by what the
  component asks it for), the rendering surface and the diff of the virtual-tree library.
  Fields the constructor does not assign are \<^verbatim>\<open>undefined\<close>, which reads as \<open>None\<close> or
  \<open>False\<close>. Its first render happens before anything is measured, so it renders no line.
\<close>

definition new_component ::
  "nat option \<Rightarrow> int \<Rightarrow> display_layer \<Rightarrow> marker list \<Rightarrow> nat \<Rightarrow> (int \<Rightarrow> int) \<Rightarrow> surface
     \<Rightarrow> (vnode list \<Rightarrow> vnode list \<Rightarrow> lifecycle list) \<Rightarrow> component" where
  "new_component rowsPerTile lineCount dl markers lastCursor longestRow sf patch =
     \<lparr>props_rowsPerTile = rowsPerTile,
      approximateScreenLineCount = lineCount,
      displayLayer = dl,
      selectionsMarkerLayer = markers,
      lastCursorMarker = lastCursor,
      approximateLongestScreenRow = longestRow,
      indexedScreenRows = 0,
      updateScheduled = False,
      updatedSynchronously = False,
      measurements = None,
      staleMeasurements = None,
      visible = False,
      focused = False,
      horizontalPositionsToMeasure = [],
      horizontalPixelPositionsByScreenLineId = Map.empty,
      lineNodesByScreenLineId = Map.empty,
      textNodesByScreenLineId = Map.empty,
      cursorsToRender = [],
      inputScreenPosition = None,
      nextUpdatePromise = None,
      previousLongestLine = None,
      longestLineToMeasure = None,
      surface = sf,
      renderedChildren = [],
      etchPatch = patch,
      scheduledCallbacks = 0,
      promisesCreated = 0,
      pendingReactions = [],
      events = [EtchUpdateSync]\<rparr>"

subsection \<open>A keyed diff\<close>

text \<open>
  The diff the examples run with, that of a library which matches the children of a node
  by their keys. It visits the new children of the \<^verbatim>\<open>lines\<close> node in their order. A tile
  whose key an old tile has is patched: among its lines, keyed by the identity of the
  screen line, the new ones are constructed and then the ones that are gone are
  destroyed. A tile or a line without an old counterpart is constructed. At the end the
  old children whose key no new child has are removed and their line components
  destroyed.
\<close>

fun tileLinesByKey :: "vnode list \<Rightarrow> int \<Rightarrow> screen_line list option" where
  "tileLinesByKey [] k = None"
| "tileLinesByKey (TileNode k' h y ls # rest) k =
     (if k' = k then Some ls else tileLinesByKey rest k)"
| "tileLinesByKey (Hole # rest) k = tileLinesByKey rest k"
| "tileLinesByKey (LineNode l # rest) k = tileLinesByKey rest k"

fun hasLineNode :: "vnode list \<Rightarrow> nat \<Rightarrow> bool" where
  "hasLineNode [] i = False"
| "hasLineNode (LineNode l # rest) i = (line_id l = i \<or> hasLineNode rest i)"
| "hasLineNode (Hole # rest) i = hasLineNode rest i"
| "hasLineNode (TileNode k h y ls # rest) i = hasLineNode rest i"

definition patchLines :: "screen_line list \<Rightarrow> screen_line list \<Rightarrow> lifecycle list" where
  "patchLines old new =
     map Construct (filter (\<lambda>l. line_id l \<notin> line_id ` set old) new)
     @ map Destroy (filter (\<lambda>l. line_id l \<notin> line_id ` set new) old)"

fun patchChild :: "vnode list \<Rightarrow> vnode \<Rightarrow> lifecycle list" where
  "patchChild old Hole = []"
| "patchChild old (TileNode k h y ls) =
     (case tileLinesByKey old k of
        None \<Rightarrow> map Construct ls
      | Some oldLines \<Rightarrow> patchLines oldLines ls)"
| "patchChild old (LineNode l) = (if hasLineNode old (line_id l) then [] else [Construct l])"

fun removeChild :: "vnode list \<Rightarrow> vnode \<Rightarrow> lifecycle list" where
  "removeChild new Hole = []"
| "removeChild new (TileNode k h y ls) =
     (case tileLinesByKey new k of None \<Rightarrow> map Destroy ls | Some newLines \<Rightarrow> [])"
| "removeChild new (LineNode l) = (if hasLineNode new (line_id l) then [] else [Destroy l])"

definition keyedPatch :: "vnode list \<Rightarrow> vnode list \<Rightarrow> lifecycle list" where
  "keyedPatch old new = concat (map (patchChild old) new) @ concat (map (removeChild new) old)"

subsection \<open>Concrete states used in the examples\<close>

text \<open>Line height 10, a scroller 100 pixels high (ten rows), scrolled by \<open>y\<close> pixels.\<close>

definition measurements_at :: "real \<Rightarrow> measurements" where
  "measurements_at y =
     \<lparr>scrollTop = y, scrollLeft = 0, scrollerHeight = 100, scrollerWidth = 300,
      lineHeight = 10, baseCharacterWidth = 8, scrollWidth = Some 300,
      lineNumberGutterWidth = 20\<rparr>"

text \<open>A document of \<open>n\<close> screen lines with the default number of rows per tile.\<close>

definition document_of :: "int \<Rightarrow> viewport" where
  "document_of n = \<lparr>props_rowsPerTile = None, approximateScreenLineCount = n\<rparr>"

text \<open>
  A display layer whose \<open>n\<close> lines each hold the six characters \<open>abcdef\<close> in two text
  runs of three; tag codes below zero are scope tags, odd ones opening, even ones closing.
\<close>

definition plain_line :: "nat \<Rightarrow> screen_line" where
  "plain_line i = \<lparr>line_id = i, lineText = ''abcdef'', tagCodes = [3, 3]\<rparr>"

definition plain_layer :: "nat \<Rightarrow> display_layer" where
  "plain_layer n =
     \<lparr>screenLines = map plain_line [0..<n],
      isCloseTagCode = (\<lambda>t. t < 0 \<and> even t),
      isOpenTagCode = (\<lambda>t. t < 0 \<and> odd t),
      tagForCode = (\<lambda>t. ''syntax.scope''),
      foldCharacter = ''~''\<rparr>"

text \<open>
  A surface on which every character is 8 pixels wide and every line starts 50 pixels
  from the left edge of the window; it fits lines whose text runs hold three characters.
\<close>

definition fixed_pitch_surface :: surface where
  "fixed_pitch_surface =
     \<lparr>rangeLeft = (\<lambda>n s e. 50 + 8 * real (3 * node_index n + s)),
      rangeRight = (\<lambda>n s e. 50 + 8 * real (3 * node_index n + e)),
      clientLeft = (\<lambda>d. 50),
      firstChildOffsetWidth = (\<lambda>d. 48),
      scroller_offsetHeight = 100,
      scroller_offsetWidth = 300,
      scroller_scrollTop = 0,
      scroller_scrollLeft = 0,
      characterMeasurementLine_height = 10,
      normalWidthCharacterSpan_width = 8,
      lineNumberGutter_offsetWidth = 20\<rparr>"

text \<open>
  A freshly constructed component on a document of \<open>n\<close> such lines, without cursors; the
  model takes row 0 for the longest.
\<close>

definition plain_component :: "nat \<Rightarrow> component" where
  "plain_component n =
     new_component None (int n) (plain_layer n) [] 0 (\<lambda>indexed. 0) fixed_pitch_surface
       keyedPatch"

text \<open>
  The component on a document of 100 lines whose model takes the last row its index covers
  for the longest.
\<close>

definition last_indexed_component :: component where
  "last_indexed_component =
     (plain_component 100)\<lparr>approximateLongestScreenRow := (\<lambda>indexed. indexed - 1)\<rparr>"

text \<open>The same component once it has been measured and scrolled by \<open>y\<close> pixels.\<close>

definition scrolled_component :: "nat \<Rightarrow> real \<Rightarrow> component" where
  "scrolled_component n y =
     (plain_component n)\<lparr>measurements := Some (measurements_at y), staleMeasurements := Some False\<rparr>"

subsection \<open>Notions used to state the properties of the measurement\<close>



text \<open>
  The branch of the loop that measures column \<open>c\<close> in the current text node, as a
  function of its own: the state after the range query.
\<close>

definition measureHere ::
  "surface \<Rightarrow> dom option \<Rightarrow> text_node \<Rightarrow> nat \<Rightarrow> nat \<Rightarrow> line_measurement
     \<Rightarrow> error + line_measurement" where
  "measureHere sf lineNode textNode start c st =
     (if c < start \<or> (c = start \<and> length (textContent textNode) < 1) then Inl IndexSizeError
      else
        (let endOffset = (if c = start then 1 else c - start);
             clientPixelPosition =
               (if c = start then rangeLeft sf textNode 0 1
                else rangeRight sf textNode 0 endOffset)
         in if lineNodeClientLeft st = - 1 then
              (case lineNode of
                 None \<Rightarrow> Inl TypeError
               | Some node \<Rightarrow>
                   Inr (st\<lparr>lineNodeClientLeft := clientLeft sf node,
                           queries := queries st @
                             [RangeQuery textNode 0 endOffset, ClientRectQuery node],
                           positions := (positions st)(c \<mapsto>
                              clientPixelPosition - clientLeft sf node)\<rparr>))
            else
              Inr (st\<lparr>queries := queries st @ [RangeQuery textNode 0 endOffset],
                      positions := (positions st)(c \<mapsto>
                         clientPixelPosition - lineNodeClientLeft st)\<rparr>)))"

text \<open>Two lists of pending requests ask for the same columns of the same rows.\<close>

definition sameRequests :: "(int \<times> nat list) list \<Rightarrow> (int \<times> nat list) list \<Rightarrow> bool" where
  "sameRequests xs ys \<longleftrightarrow> list_all2 (\<lambda>a b. fst a = fst b \<and> set (snd a) = set (snd b)) xs ys"

text \<open>
  The invariant of the cache that column 0, when a line has an entry for it, is at
  offset 0. It holds for a new component, whose cache is empty.
\<close>

definition columnZeroAtZero :: "component \<Rightarrow> bool" where
  "columnZeroAtZero c \<longleftrightarrow>
     (\<forall>lineId. cachedPosition c lineId 0 = None \<or> cachedPosition c lineId 0 = Some 0)"

text \<open>
  Every pending request is for a row whose line is still rendered (its text nodes are
  registered) and for a column that is 0 or already in the cache of that line.
\<close>

definition requestsCached :: "component \<Rightarrow> bool" where
  "requestsCached c \<longleftrightarrow>
     (\<forall>rc\<in>set (horizontalPositionsToMeasure c).
        \<exists>sl tns. getScreenLine (displayLayer c) (fst rc) = Some sl
          \<and> textNodesByScreenLineId c (line_id sl) = Some tns
          \<and> (\<forall>col\<in>set (snd rc). col = 0 \<or> cachedPosition c (line_id sl) col \<noteq> None))"

text \<open>
  The range query that measures a column of a line, found by walking the text runs like
  the measurement does: the range from the start of the run that contains the column to
  the column.
\<close>

fun rangeQueryFor :: "text_node list \<Rightarrow> nat \<Rightarrow> nat \<Rightarrow> query option" where
  "rangeQueryFor [] start column = None"
| "rangeQueryFor (run # rest) start column =
     (if column \<le> start + length (textContent run)
      then Some (RangeQuery run 0 (if column = start then 1 else column - start))
      else rangeQueryFor rest (start + length (textContent run)) column)"

text \<open>
  Every request of a list is for a row whose line is still rendered and for a column that
  is 0 or already in the cache of that line.
\<close>

definition rowsCached :: "component \<Rightarrow> (int \<times> nat list) list \<Rightarrow> bool" where
  "rowsCached c rows \<longleftrightarrow>
     (\<forall>rc\<in>set rows.
        \<exists>sl tns. getScreenLine (displayLayer c) (fst rc) = Some sl
          \<and> textNodesByScreenLineId c (line_id sl) = Some tns
          \<and> (\<forall>col\<in>set (snd rc). col = 0 \<or> cachedPosition c (line_id sl) col \<noteq> None))"

text \<open>
  What a measurement pass leaves behind: the exception it ended in, or the cache and the
  trace, which holds the layout queries of the pass.
\<close>

definition measured :: "error + component \<Rightarrow> error + ((nat \<rightharpoonup> (nat \<rightharpoonup> real)) \<times> event list)" where
  "measured r = map_sum id (\<lambda>d. (horizontalPixelPositionsByScreenLineId d, events d)) r"

text \<open>
  A component that has rendered line 0, holds the position 24 for its column 3 from an
  earlier pass, and has pending requests for the columns 3 and 0 of row 0.
\<close>

definition rendered_component :: component where
  "rendered_component =
     (scrolled_component 30 0)
       \<lparr>horizontalPositionsToMeasure := [(0, [3, 0])],
        horizontalPixelPositionsByScreenLineId := [0 \<mapsto> [3 \<mapsto> 24]],
        lineNodesByScreenLineId :=
          [0 \<mapsto> Element ''div'' ''line''
                  [Element ''span'' []
                     [Text \<lparr>owner_line = 0, node_index = 0, textContent = ''abc''\<rparr>,
                      Text \<lparr>owner_line = 0, node_index = 1, textContent = ''def''\<rparr>]]],
        textNodesByScreenLineId :=
          [0 \<mapsto> [\<lparr>owner_line = 0, node_index = 0, textContent = ''abc''\<rparr>,
                \<lparr>owner_line = 0, node_index = 1, textContent = ''def''\<rparr>]]\<rparr>"

subsection \<open>Notions used to state the properties of the update cycle\<close>

text \<open>
  Two states agree on everything the scheduling of updates and the promise of the next
  update rest on.
\<close>

definition sameScheduling :: "component \<Rightarrow> component \<Rightarrow> bool" where
  "sameScheduling c c' \<longleftrightarrow>
     nextUpdatePromise c' = nextUpdatePromise c \<and> pendingReactions c' = pendingReactions c
     \<and> promisesCreated c' = promisesCreated c \<and> visible c' = visible c
     \<and> updateScheduled c' = updateScheduled c \<and> scheduledCallbacks c' = scheduledCallbacks c"

text \<open>Two states hold the same cache of horizontal positions.\<close>

definition sameCache :: "component \<Rightarrow> component \<Rightarrow> bool" where
  "sameCache c c' \<longleftrightarrow>
     horizontalPixelPositionsByScreenLineId c' = horizontalPixelPositionsByScreenLineId c"

text \<open>
  From \<open>c\<close> to \<open>c'\<close> the cache of horizontal positions has only grown: every line that has
  an entry keeps one, and, on a cache whose column 0 entries are 0, every position that is
  cached keeps its value.
\<close>

definition cacheGrows :: "component \<Rightarrow> component \<Rightarrow> bool" where
  "cacheGrows c c' \<longleftrightarrow>
     (\<forall>lineId. horizontalPixelPositionsByScreenLineId c lineId \<noteq> None \<longrightarrow>
        horizontalPixelPositionsByScreenLineId c' lineId \<noteq> None)
     \<and> (columnZeroAtZero c \<longrightarrow>
          columnZeroAtZero c'
          \<and> (\<forall>lineId column v. cachedPosition c lineId column = Some v \<longrightarrow>
                cachedPosition c' lineId column = Some v))"

text \<open>
  The events of one update cycle after the promise of the next update has been resolved,
  in the order of the steps of \<^verbatim>\<open>updateSync\<close>: the editor dimensions are measured when they
  are stale; the spatial index is populated up to a row bound and the longest screen row
  is asked for; the pending requests are cleared; the first commit; the longest line is
  measured when it has changed; the cursors are queried; the pending positions are
  measured, with these layout queries; the cursors are positioned; the second commit.
\<close>

definition cycleTrace :: "bool \<Rightarrow> int \<Rightarrow> bool \<Rightarrow> query list \<Rightarrow> event list" where
  "cycleTrace stale bound longestChanged qs =
     (if stale then [MeasureEditorDimensions] else [])
     @ [PopulateSpatialIndexIfNeeded bound, GetApproximateLongestScreenRow,
        ClearPositionsToMeasure, EtchUpdateSync]
     @ (if longestChanged then [MeasureLongestLineWidth] else [])
     @ [QueryCursorsToRender, MeasureHorizontalPositions qs, PositionCursorsToRender,
        EtchUpdateSync]"

text \<open>
  A step from \<open>c\<close> to \<open>c'\<close> that leaves the scheduling alone, lets the cache only grow and
  adds the events \<open>evs\<close> to the trace.
\<close>

definition advances :: "component \<Rightarrow> component \<Rightarrow> event list \<Rightarrow> bool" where
  "advances c c' evs \<longleftrightarrow>
     sameScheduling c c' \<and> cacheGrows c c' \<and> events c' = events c @ evs"

subsection \<open>Runs used in the examples\<close>

text \<open>One handler after the other, as long as none throws; and whether a run returned.\<close>

definition thenRun :: "error + 'a \<Rightarrow> ('a \<Rightarrow> error + 'b) \<Rightarrow> error + 'b" where
  "thenRun r f = (case r of Inl e \<Rightarrow> Inl e | Inr x \<Rightarrow> f x)"

definition returns :: "error + 'a \<Rightarrow> bool" where
  "returns r = (case r of Inl e \<Rightarrow> False | Inr x \<Rightarrow> True)"

text \<open>
  What the examples look at in a state: the visibility, the scheduling and the number of
  events so far; the visibility and the events after the first \<open>n\<close>; among the lines
  \<open>0\<close> to \<open>n - 1\<close>, the ones whose text nodes are registered and the ones with an entry
  in the cache of horizontal positions; and, for a column of a line, its cached position
  and the registration of the line, with these two lists.
\<close>

definition schedulingState :: "component \<Rightarrow> bool \<times> bool \<times> nat \<times> nat option \<times> nat" where
  "schedulingState c =
     (visible c, updateScheduled c, scheduledCallbacks c, nextUpdatePromise c,
      length (events c))"

definition visibleAndEventsAfter :: "nat \<Rightarrow> component \<Rightarrow> bool \<times> event list" where
  "visibleAndEventsAfter n c = (visible c, drop n (events c))"

definition registeredLines :: "nat \<Rightarrow> component \<Rightarrow> nat list" where
  "registeredLines n c = filter (\<lambda>i. textNodesByScreenLineId c i \<noteq> None) [0..<n]"

definition cachedLines :: "nat \<Rightarrow> component \<Rightarrow> nat list" where
  "cachedLines n c = filter (\<lambda>i. horizontalPixelPositionsByScreenLineId c i \<noteq> None) [0..<n]"

definition cacheAndRegistration ::
  "nat \<Rightarrow> nat \<Rightarrow> nat \<Rightarrow> component
     \<Rightarrow> real option \<times> text_node list option \<times> dom option \<times> nat list \<times> nat list" where
  "cacheAndRegistration lineId column n c =
     (cachedPosition c lineId column, textNodesByScreenLineId c lineId,
      lineNodesByScreenLineId c lineId, registeredLines n c, cachedLines n c)"

text \<open>
  A freshly constructed component on a document of two lines, one row per tile, with one
  cursor at row 0, column 3; and the same component after a caller has asked for the
  promise of the next update and the initial measurements have been made.
\<close>

definition cursor_component :: component where
  "cursor_component =
     new_component (Some 1) 2 (plain_layer 2)
       [\<lparr>marker_id = 0, headScreenPosition = (0, 3), tailScreenPosition = (0, 3)\<rparr>] 0
       (\<lambda>indexed. 0) fixed_pitch_surface keyedPatch"


text \<open>
  The component is shown, which runs its first update, and then hidden; while it is hidden
  the model moves the cursor to row 1, column 1 and notifies the component
  (\<^verbatim>\<open>selectionsMarkerLayer.onDidUpdate\<close> calls \<^verbatim>\<open>scheduleUpdate\<close>), which schedules an update.
\<close>

definition hidden_component :: "error + component" where
  "hidden_component =
     thenRun (didShow cursor_component)
       (\<lambda>c. scheduleUpdate
          ((didHide c)\<lparr>selectionsMarkerLayer :=
              [\<lparr>marker_id = 0, headScreenPosition = (1, 1), tailScreenPosition = (1, 1)\<rparr>]\<rparr>))"

text \<open>
  A component on a document of 30 lines with a cursor at row 0, column 3, is shown, which
  renders the rows 0 to 17 and measures the cursor; then the view is scrolled by 180
  pixels, to row 18, so that the tiles of the rows 0 to 17 scroll away.
\<close>

definition scrolling_component :: component where
  "scrolling_component =
     new_component None 30 (plain_layer 30)
       [\<lparr>marker_id = 0, headScreenPosition = (0, 3), tailScreenPosition = (0, 3)\<rparr>] 0
       (\<lambda>indexed. 0) fixed_pitch_surface keyedPatch"

definition scrolled_away :: "error + component" where
  "scrolled_away =
     thenRun (didShow scrolling_component)
       (\<lambda>c. didScroll (c\<lparr>surface := (surface c)\<lparr>scroller_scrollTop := 180\<rparr>\<rparr>))"

subsection \<open>Notions used to state the geometry of the cursors\<close>








section \<open>Properties of the viewport and tile planner\<close>

lemma getRowsPerTile_pos: "0 < getRowsPerTile c"
  by (simp add: getRowsPerTile_def DEFAULT_ROWS_PER_TILE_def split: option.splits)

lemma js_rem_nonneg: "0 \<le> a \<Longrightarrow> 0 < b \<Longrightarrow> js_rem a b = a mod b"
  by (cases "a = 0") (simp_all add: js_rem_def)

lemma getTileStartRow_nonneg:
  "0 \<le> row \<Longrightarrow> getTileStartRow c row = row - row mod getRowsPerTile c"
  by (simp add: getTileStartRow_def js_rem_nonneg getRowsPerTile_pos)

lemma getFirstVisibleRow_nonneg:
  "0 \<le> scrollTop m \<Longrightarrow> 0 < lineHeight m \<Longrightarrow> 0 \<le> getFirstVisibleRow m"
  by (simp add: getFirstVisibleRow_def)

lemma tileStartRows_map:
  "tileStartRows c a (a + (int n - 1) * getRowsPerTile c) =
     map (\<lambda>k. a + int k * getRowsPerTile c) [0..<n]"
proof (induction n arbitrary: a)
  case 0
  have "\<not> a \<le> a + (int 0 - 1) * getRowsPerTile c"
    using getRowsPerTile_pos [of c] by simp
  then show ?case by (subst tileStartRows.simps) simp
next
  case (Suc n)
  let ?r = "getRowsPerTile c"
  have le: "a \<le> a + (int (Suc n) - 1) * ?r"
    using getRowsPerTile_pos [of c] by simp
  have b: "a + (int (Suc n) - 1) * ?r = (a + ?r) + (int n - 1) * ?r"
    by (simp add: algebra_simps)
  have "tileStartRows c a (a + (int (Suc n) - 1) * ?r) =
          a # tileStartRows c (a + ?r) ((a + ?r) + (int n - 1) * ?r)"
    using le by (subst tileStartRows.simps) (simp only: b if_True)
  also have "\<dots> = a # map (\<lambda>k. (a + ?r) + int k * ?r) [0..<n]"
    by (simp only: Suc.IH)
  also have "\<dots> = map (\<lambda>k. a + int k * ?r) [0..<Suc n]"
    by (simp add: upt_rec [of 0 "Suc n"] map_Suc_upt [symmetric] algebra_simps del: upt_Suc)
  finally show ?case .
qed

lemma div_bound:
  fixes r :: int
  assumes r: "0 < r" and Rl: "R \<le> l"
  shows "R div r \<le> f div r + (l - f) div r + 1"
proof -
  have e1: "r * (f div r) + f mod r = f" by (rule mult_div_mod_eq)
  have b1: "f mod r < r" using r by (rule pos_mod_bound)
  have e2: "r * ((l - f) div r) + (l - f) mod r = l - f" by (rule mult_div_mod_eq)
  have b2: "(l - f) mod r < r" using r by (rule pos_mod_bound)
  have e3: "r * (l div r) + l mod r = l" by (rule mult_div_mod_eq)
  have b3: "0 \<le> l mod r" using r by (rule pos_mod_sign)
  have "r * (l div r) < r * (f div r) + r * ((l - f) div r) + r * 2"
    using e1 b1 e2 b2 e3 b3 by linarith
  then have "r * (l div r) < r * (f div r + (l - f) div r + 2)"
    by (simp add: distrib_left)
  then have "l div r < f div r + (l - f) div r + 2"
    using r by (simp only: mult_less_cancel_left_pos)
  moreover have "R div r \<le> l div r"
    using Rl r by (rule zdiv_mono1)
  ultimately show ?thesis by linarith
qed


lemma tileStartRows_empty: "b < a \<Longrightarrow> tileStartRows c a b = []"
  by (subst tileStartRows.simps) simp

lemma renderedTileStartRows_map:
  "renderedTileStartRows c m =
     map (\<lambda>k. getFirstTileStartRow c m + int k * getRowsPerTile c)
       [0..<nat (getVisibleTileCount c m)]"
proof (cases "0 \<le> getVisibleTileCount c m")
  case True
  then have "int (nat (getVisibleTileCount c m)) = getVisibleTileCount c m" by simp
  then show ?thesis
    using tileStartRows_map [of c "getFirstTileStartRow c m" "nat (getVisibleTileCount c m)"]
    by (simp add: renderedTileStartRows_def getLastTileStartRow_def)
next
  case False
  then have "(getVisibleTileCount c m - 1) * getRowsPerTile c < 0"
    using getRowsPerTile_pos [of c] by (simp add: mult_less_0_iff)
  then have "getLastTileStartRow c m < getFirstTileStartRow c m"
    by (simp add: getLastTileStartRow_def)
  then show ?thesis
    using False by (simp add: renderedTileStartRows_def tileStartRows_empty)
qed

lemma tile_of_row_unique:
  fixes r :: int
  assumes "0 < r" "r * q \<le> R" "R < r * q + r"
  shows "q = R div r"
proof -
  have "R = r * q + (R - r * q)" by simp
  moreover have "0 \<le> R - r * q" using assms by simp
  moreover have "R - r * q < r" using assms by simp
  ultimately show ?thesis using int_div_pos_eq by metis
qed

text \<open>
  Claim C1. Let the view be scrolled to a non-negative offset with a positive line height.
  Every row \<open>R\<close> between the first and the last visible row lies in exactly one rendered
  tile: there is exactly one start row \<open>T\<close> visited by the tile loop with
  \<open>T \<le> R < T + rowsPerTile\<close>, it is \<open>getTileStartRow R\<close>, and \<open>R\<close> lies in the rendered
  range from \<open>getRenderedStartRow\<close> (inclusive) to \<open>getRenderedEndRow\<close> (exclusive).
\<close>

theorem visible_row_in_exactly_one_tile:
  assumes top: "0 \<le> scrollTop m" and lh: "0 < lineHeight m"
    and fR: "getFirstVisibleRow m \<le> R" and Rl: "R \<le> getLastVisibleRow c m"
  shows "(\<exists>!T. T \<in> set (renderedTileStartRows c m) \<and> T \<le> R \<and> R < T + getRowsPerTile c)
         \<and> getTileStartRow c R \<in> set (renderedTileStartRows c m)
         \<and> getRenderedStartRow c m \<le> R \<and> R < getRenderedEndRow c m"
proof -
  let ?r = "getRowsPerTile c"
  let ?f = "getFirstVisibleRow m"
  let ?l = "getLastVisibleRow c m"
  let ?n = "getVisibleTileCount c m"
  let ?F = "getFirstTileStartRow c m"
  let ?T = "getTileStartRow c R"
  have r: "0 < ?r" by (rule getRowsPerTile_pos)
  have f0: "0 \<le> ?f" using top lh by (rule getFirstVisibleRow_nonneg)
  have R0: "0 \<le> R" using f0 fR by simp
  have F: "?F = ?r * (?f div ?r)"
    using f0 by (simp add: getFirstTileStartRow_def getTileStartRow_nonneg minus_mod_eq_mult_div)
  have T: "?T = ?r * (R div ?r)"
    using R0 by (simp add: getTileStartRow_nonneg minus_mod_eq_mult_div)
  have n: "?n = (?l - ?f) div ?r + 2" by (simp add: getVisibleTileCount_def)
  have lo: "?f div ?r \<le> R div ?r" using fR r by (rule zdiv_mono1)
  have hi: "R div ?r \<le> ?f div ?r + (?l - ?f) div ?r + 1" using r Rl by (rule div_bound)
  define k where "k = nat (R div ?r - ?f div ?r)"
  have k: "int k = R div ?r - ?f div ?r" using lo by (simp add: k_def)
  have kn: "k < nat ?n" using hi lo n by (simp add: k_def)
  have Tk: "?T = ?F + int k * ?r" by (simp add: T F k algebra_simps)
  have mem: "?T \<in> set (renderedTileStartRows c m)"
    unfolding renderedTileStartRows_map using kn Tk by auto
  have TR: "?T \<le> R" using R0 r by (simp add: getTileStartRow_nonneg)
  have RT: "R < ?T + ?r" using R0 r by (simp add: getTileStartRow_nonneg)
  have uniq: "T' = ?T"
    if "T' \<in> set (renderedTileStartRows c m)" "T' \<le> R" "R < T' + ?r" for T'
  proof -
    from that(1) obtain j where j: "T' = ?F + int j * ?r"
      unfolding renderedTileStartRows_map by auto
    then have T': "T' = ?r * (?f div ?r + int j)" by (simp add: F algebra_simps)
    have "?f div ?r + int j = R div ?r"
      using r that(2,3) unfolding T' by (rule tile_of_row_unique)
    then show ?thesis using T T' by simp
  qed
  have ex1: "\<exists>!T. T \<in> set (renderedTileStartRows c m) \<and> T \<le> R \<and> R < T + ?r"
    using mem TR RT uniq by blast
  have start: "getRenderedStartRow c m \<le> R"
  proof -
    have "?F \<le> ?T" using Tk r by simp
    then show ?thesis using TR by (simp add: getRenderedStartRow_def)
  qed
  have "?T + ?r \<le> ?F + ?n * ?r"
  proof -
    have "int k + 1 \<le> ?n" using kn by simp
    then have "(int k + 1) * ?r \<le> ?n * ?r" using r by (simp only: mult_right_mono less_imp_le)
    then show ?thesis by (simp add: Tk algebra_simps)
  qed
  then have "R < getRenderedEndRow c m" using RT by (simp add: getRenderedEndRow_def)
  with ex1 mem start show ?thesis by simp
qed


theorem visible_row_in_exactly_one_tile_witness:
  "0 \<le> scrollTop (measurements_at 70) \<and> 0 < lineHeight (measurements_at 70)
   \<and> getFirstVisibleRow (measurements_at 70) \<le> 13
   \<and> 13 \<le> getLastVisibleRow (document_of 100) (measurements_at 70)
   \<and> (\<exists>!T. T \<in> set (renderedTileStartRows (document_of 100) (measurements_at 70))
          \<and> T \<le> 13 \<and> 13 < T + getRowsPerTile (document_of 100))
   \<and> getTileStartRow (document_of 100) 13
        \<in> set (renderedTileStartRows (document_of 100) (measurements_at 70))
   \<and> getRenderedStartRow (document_of 100) (measurements_at 70) \<le> 13
   \<and> 13 < getRenderedEndRow (document_of 100) (measurements_at 70)"
  using visible_row_in_exactly_one_tile [of "measurements_at 70" 13 "document_of 100"]
  by (simp add: getFirstVisibleRow_def getLastVisibleRow_def measurements_at_def document_of_def)

section \<open>The spatial index and the longest line\<close>

lemma js_rem_less: "0 < b \<Longrightarrow> js_rem a b < b"
proof -
  assume b: "0 < b"
  have m: "0 \<le> \<bar>a\<bar> mod b" "\<bar>a\<bar> mod b < b" using b by simp_all
  consider "a < 0" | "a = 0" | "0 < a" by linarith
  then show ?thesis
  proof cases
    case 1
    then have "js_rem a b = - (\<bar>a\<bar> mod b)" using b by (simp add: js_rem_def)
    then show ?thesis using m b by linarith
  next
    case 2 then show ?thesis using b by (simp add: js_rem_def)
  next
    case 3
    then have "js_rem a b = \<bar>a\<bar> mod b" using b by (simp add: js_rem_def)
    then show ?thesis using m by linarith
  qed
qed

lemma row_before_next_tile: "row < getTileStartRow c row + getRowsPerTile c"
  using js_rem_less [OF getRowsPerTile_pos, of row c] by (simp add: getTileStartRow_def)

lemma longestLine_renderedEndRow_le:
  assumes top: "0 \<le> scrollTop m" and lh: "0 < lineHeight m"
    and l0: "0 \<le> getLastVisibleRow c m"
  shows "longestLine_renderedEndRow c m \<le> getRenderedEndRow c m"
proof -
  let ?r = "getRowsPerTile c"
  let ?f = "getFirstVisibleRow m"
  let ?l = "getLastVisibleRow c m"
  have r: "0 < ?r" by (rule getRowsPerTile_pos)
  have f0: "0 \<le> ?f" using top lh by (rule getFirstVisibleRow_nonneg)
  have F: "getFirstTileStartRow c m = ?r * (?f div ?r)"
    using f0 by (simp add: getFirstTileStartRow_def getTileStartRow_nonneg minus_mod_eq_mult_div)
  have L: "getTileStartRow c ?l = ?r * (?l div ?r)"
    using l0 by (simp add: getTileStartRow_nonneg minus_mod_eq_mult_div)
  have "?l div ?r \<le> ?f div ?r + (?l - ?f) div ?r + 1"
    using r order_refl by (rule div_bound)
  then have "?r * (?l div ?r + 1) \<le> ?r * (?f div ?r + (?l - ?f) div ?r + 2)"
    using r by simp
  then show ?thesis
    by (simp add: longestLine_renderedEndRow_def getRenderedEndRow_def getVisibleTileCount_def
        F L algebra_simps)
qed

text \<open>
  Claim C6, as amended. \<^verbatim>\<open>getLongestScreenLine\<close> first asks the display layer to populate
  its spatial index up to a row bound that lies beyond the last visible row, and only then
  asks the model for its approximate longest screen row: the two calls appear in this order
  in the trace, the index covers the rows before the bound when the model answers, so at
  least the visible rows, as the comment in the source says, and the line returned is the
  one of the row the model answers from that index. The bound is at most
  \<open>getRenderedEndRow\<close>, not at least: the rows of the tile rendered below the one of the
  last visible row need not be covered.
\<close>

theorem longest_line_index_covers_visible_rows:
  assumes "0 \<le> scrollTop m" and "0 < lineHeight m" and "0 \<le> getLastVisibleRow c m"
  shows "events (snd (getLongestScreenLine c m)) =
           events c @ [PopulateSpatialIndexIfNeeded (longestLine_renderedEndRow c m),
                       GetApproximateLongestScreenRow]
         \<and> getLastVisibleRow c m < longestLine_renderedEndRow c m
         \<and> longestLine_renderedEndRow c m \<le> getRenderedEndRow c m
         \<and> longestLine_renderedEndRow c m \<le> indexedScreenRows (snd (getLongestScreenLine c m))
         \<and> fst (getLongestScreenLine c m) =
             getScreenLine (displayLayer c)
               (approximateLongestScreenRow c
                  (indexedScreenRows (snd (getLongestScreenLine c m))))"
  using assms longestLine_renderedEndRow_le [of m c]
  by (simp add: getLongestScreenLine_def populateSpatialIndexIfNeeded_def
      getApproximateLongestScreenRow_def emit_def Let_def longestLine_renderedEndRow_def
      row_before_next_tile)

theorem longest_line_index_covers_visible_rows_witness:
  "0 \<le> scrollTop (measurements_at 0) \<and> 0 < lineHeight (measurements_at 0)
   \<and> 0 \<le> getLastVisibleRow last_indexed_component (measurements_at 0)
   \<and> events (snd (getLongestScreenLine last_indexed_component (measurements_at 0))) =
        events last_indexed_component
        @ [PopulateSpatialIndexIfNeeded 12, GetApproximateLongestScreenRow]
   \<and> getLastVisibleRow last_indexed_component (measurements_at 0) = 10
   \<and> longestLine_renderedEndRow last_indexed_component (measurements_at 0) = 12
   \<and> getRenderedEndRow last_indexed_component (measurements_at 0) = 18
   \<and> indexedScreenRows last_indexed_component = 0
   \<and> indexedScreenRows (snd (getLongestScreenLine last_indexed_component (measurements_at 0)))
        = 12
   \<and> fst (getLongestScreenLine last_indexed_component (measurements_at 0))
        = Some (plain_line 11)"
proof -
  let ?c = last_indexed_component
  let ?m = "measurements_at 0"
  have vp: "props_rowsPerTile ?c = None" "approximateScreenLineCount ?c = 100"
    by (simp_all add: last_indexed_component_def plain_component_def new_component_def)
  have f: "getFirstVisibleRow ?m = 0"
    by (simp add: getFirstVisibleRow_def measurements_at_def)
  have l: "getLastVisibleRow ?c ?m = 10"
    by (simp add: getLastVisibleRow_def f vp) (simp add: measurements_at_def)
  have b: "longestLine_renderedEndRow ?c ?m = 12"
    by (simp add: longestLine_renderedEndRow_def l getTileStartRow_def getRowsPerTile_def
        js_rem_def DEFAULT_ROWS_PER_TILE_def vp)
  have e: "getRenderedEndRow ?c ?m = 18"
    by (simp add: getRenderedEndRow_def getFirstTileStartRow_def getVisibleTileCount_def l f
        getTileStartRow_def getRowsPerTile_def js_rem_def DEFAULT_ROWS_PER_TILE_def vp)
  have i0: "indexedScreenRows ?c = 0"
    by (simp add: last_indexed_component_def plain_component_def new_component_def)
  have i: "indexedScreenRows (snd (getLongestScreenLine ?c ?m)) = 12"
    by (simp add: getLongestScreenLine_def populateSpatialIndexIfNeeded_def
        getApproximateLongestScreenRow_def emit_def Let_def b i0)
  have r: "getScreenLine (displayLayer ?c) (approximateLongestScreenRow ?c 12)
             = Some (plain_line 11)"
    by (simp add: last_indexed_component_def plain_component_def new_component_def
        plain_layer_def getScreenLine_def js_index_def)
  have h: "0 \<le> scrollTop ?m" "0 < lineHeight ?m" by (simp_all add: measurements_at_def)
  have h3: "0 \<le> getLastVisibleRow ?c ?m" by (simp add: l)
  note t = longest_line_index_covers_visible_rows [OF h h3]
  from t have ev: "events (snd (getLongestScreenLine ?c ?m)) =
        events ?c @ [PopulateSpatialIndexIfNeeded 12, GetApproximateLongestScreenRow]"
    by (simp add: b)
  from t have f: "fst (getLongestScreenLine ?c ?m) = Some (plain_line 11)"
    by (simp add: i r)
  from h h3 ev l b e i0 i f show ?thesis by (simp only: simp_thms)
qed

text \<open>
  With ten visible rows from row 0 and six rows per tile, the bound passed is 12 while
  the rendered range ends at row 18.
\<close>

theorem populated_bound_below_rendered_end:
  "longestLine_renderedEndRow (document_of 100) (measurements_at 0) = 12
   \<and> getRenderedEndRow (document_of 100) (measurements_at 0) = 18
   \<and> \<not> getRenderedEndRow (document_of 100) (measurements_at 0)
         \<le> longestLine_renderedEndRow (document_of 100) (measurements_at 0)"
  by (simp add: longestLine_renderedEndRow_def getRenderedEndRow_def getFirstTileStartRow_def
      getTileStartRow_def getVisibleTileCount_def getLastVisibleRow_def getFirstVisibleRow_def
      getRowsPerTile_def js_rem_def document_of_def measurements_at_def DEFAULT_ROWS_PER_TILE_def)


section \<open>Tile slots\<close>

lemma slots_complete:
  fixes q :: int
  shows "distinct (map (\<lambda>k. (q + int k) mod int N) [0..<N])
         \<and> set (map (\<lambda>k. (q + int k) mod int N) [0..<N]) = {0..<int N}"
proof (cases "N = 0")
  case True then show ?thesis by simp
next
  case False
  then have N: "0 < int N" by simp
  let ?f = "\<lambda>k. (q + int k) mod int N"
  have inj: "inj_on ?f {0..<N}"
  proof (rule inj_onI)
    fix a b assume a: "a \<in> {0..<N}" and b: "b \<in> {0..<N}" and eq: "?f a = ?f b"
    from eq have "int N dvd (q + int a) - (q + int b)" by (simp only: mod_eq_dvd_iff)
    then have d: "int N dvd int a - int b" by simp
    show "a = b"
    proof (rule ccontr)
      assume ne: "a \<noteq> b"
      then consider "a < b" | "b < a" by linarith
      then show False
      proof cases
        case 1
        then have "0 < int b - int a" "int b - int a < int N" using b by auto
        then have "\<not> int N dvd int b - int a" by (rule zdvd_not_zless)
        moreover have "int N dvd int b - int a" using d by (simp add: dvd_diff_commute)
        ultimately show False by simp
      next
        case 2
        then have "0 < int a - int b" "int a - int b < int N" using a by auto
        then have "\<not> int N dvd int a - int b" by (rule zdvd_not_zless)
        then show False using d by simp
      qed
    qed
  qed
  have dist: "distinct (map ?f [0..<N])"
    using inj by (simp add: distinct_map)
  have sub: "set (map ?f [0..<N]) \<subseteq> {0..<int N}"
    using N by auto
  have "card (set (map ?f [0..<N])) = N"
    using distinct_card [OF dist] by simp
  then have "card (set (map ?f [0..<N])) = card {0..<int N}" by simp
  with sub have "set (map ?f [0..<N]) = {0..<int N}"
    by (simp only: card_subset_eq finite_atLeastLessThan_int)
  with dist show ?thesis by simp
qed

lemma tileIndex_rendered:
  assumes top: "0 \<le> scrollTop m" and lh: "0 < lineHeight m"
  shows "map (tileIndex c m) (renderedTileStartRows c m) =
         map (\<lambda>k. (getFirstVisibleRow m div getRowsPerTile c + int k)
                   mod int (nat (getVisibleTileCount c m)))
           [0..<nat (getVisibleTileCount c m)]"
proof -
  let ?r = "getRowsPerTile c"
  let ?f = "getFirstVisibleRow m"
  let ?n = "getVisibleTileCount c m"
  have r: "0 < ?r" by (rule getRowsPerTile_pos)
  have f0: "0 \<le> ?f" using top lh by (rule getFirstVisibleRow_nonneg)
  have F: "getFirstTileStartRow c m = ?r * (?f div ?r)"
    using f0 by (simp add: getFirstTileStartRow_def getTileStartRow_nonneg minus_mod_eq_mult_div)
  have "tileIndex c m (getFirstTileStartRow c m + int k * ?r) =
          (?f div ?r + int k) mod int (nat ?n)" if "k < nat ?n" for k
  proof -
    have n: "0 < ?n" "int (nat ?n) = ?n" using that by simp_all
    have "(getFirstTileStartRow c m + int k * ?r) div ?r = ?f div ?r + int k"
      using r by (simp add: F)
    moreover have "0 \<le> ?f div ?r + int k" using f0 r by (simp add: pos_imp_zdiv_nonneg_iff)
    ultimately show ?thesis using n by (simp add: tileIndex_def js_rem_nonneg)
  qed
  then show ?thesis by (simp add: renderedTileStartRows_map)
qed

lemma getVisibleTileCount_unclamped:
  assumes "getFirstVisibleRow m + \<lceil>scrollerHeight m / lineHeight m\<rceil>
             \<le> approximateScreenLineCount c - 1"
  shows "getVisibleTileCount c m = \<lceil>scrollerHeight m / lineHeight m\<rceil> div getRowsPerTile c + 2"
  using assms by (simp add: getVisibleTileCount_def getLastVisibleRow_def min_absorb2)

lemma planner_at_top:
  assumes L: "0 < lineHeight m" and h: "scrollerHeight m = 10 * lineHeight m"
    and r: "getRowsPerTile c = 6" and n: "18 \<le> approximateScreenLineCount c"
    and top: "scrollTop m = 0"
  shows "getFirstVisibleRow m = 0" "getLastVisibleRow c m = 10" "getVisibleTileCount c m = 3"
    "getFirstTileStartRow c m = 0" "renderedTileStartRows c m = [0, 6, 12]"
proof -
  show f: "getFirstVisibleRow m = 0" using top by (simp add: getFirstVisibleRow_def)
  have "scrollerHeight m / lineHeight m = 10" using L h by simp
  then show l: "getLastVisibleRow c m = 10" using n f by (simp add: getLastVisibleRow_def)
  show v: "getVisibleTileCount c m = 3" using f l r by (simp add: getVisibleTileCount_def)
  show F: "getFirstTileStartRow c m = 0"
    using f by (simp add: getFirstTileStartRow_def getTileStartRow_def js_rem_def)
  have "[0..<nat 3] = [0, 1, 2]" by (simp add: upt_rec)
  then show "renderedTileStartRows c m = [0, 6, 12]"
    using v F r by (simp add: renderedTileStartRows_map)
qed

lemma planner_at_row_7:
  assumes L: "0 < lineHeight m" and h: "scrollerHeight m = 10 * lineHeight m"
    and r: "getRowsPerTile c = 6" and n: "18 \<le> approximateScreenLineCount c"
    and f: "getFirstVisibleRow m = 7"
  shows "getLastVisibleRow c m = 17" "getVisibleTileCount c m = 3"
    "getFirstTileStartRow c m = 6" "renderedTileStartRows c m = [6, 12, 18]"
proof -
  have "scrollerHeight m / lineHeight m = 10" using L h by simp
  then show l: "getLastVisibleRow c m = 17" using n f by (simp add: getLastVisibleRow_def)
  show v: "getVisibleTileCount c m = 3" using f l r by (simp add: getVisibleTileCount_def)
  show F: "getFirstTileStartRow c m = 6"
    using f r by (simp add: getFirstTileStartRow_def getTileStartRow_def js_rem_def)
  have "[0..<nat 3] = [0, 1, 2]" by (simp add: upt_rec)
  then show "renderedTileStartRows c m = [6, 12, 18]"
    using v F r by (simp add: renderedTileStartRows_map)
qed

lemma js_array_set_in_range:
  "0 \<le> i \<Longrightarrow> i < int (length xs) \<Longrightarrow> js_array_set xs i v = xs[nat i := v]"
  by (simp add: js_array_set_def nat_less_iff)

lemma renderTiles_length:
  "\<forall>t\<in>set ts. 0 \<le> tileIndex c m t \<and> tileIndex c m t < int (length tileNodes) \<Longrightarrow>
   length (fst (renderTiles c m sls ts tileNodes longest)) = length tileNodes"
  by (induction ts arbitrary: tileNodes longest)
     (simp_all add: case_prod_beta Let_def js_array_set_in_range)

lemma renderTiles_other:
  "\<forall>t\<in>set ts. 0 \<le> tileIndex c m t \<and> tileIndex c m t < int (length tileNodes) \<Longrightarrow>
   int i \<notin> tileIndex c m ` set ts \<Longrightarrow>
   fst (renderTiles c m sls ts tileNodes longest) ! i = tileNodes ! i"
proof (induction ts arbitrary: tileNodes longest)
  case Nil
  then show ?case by simp
next
  case (Cons t ts)
  from Cons.prems have ne: "nat (tileIndex c m t) \<noteq> i" and rest: "int i \<notin> tileIndex c m ` set ts"
    by auto
  have t: "0 \<le> tileIndex c m t" "tileIndex c m t < int (length tileNodes)"
    using Cons.prems(1) by simp_all
  have len: "\<forall>u\<in>set ts. 0 \<le> tileIndex c m u \<and>
      tileIndex c m u < int (length (js_array_set tileNodes (tileIndex c m t) v))" for v
    using Cons.prems(1) by (simp add: js_array_set_in_range)
  show ?case
    using Cons.IH [OF len rest] ne
    by (simp add: case_prod_beta Let_def) (simp add: js_array_set_in_range t)
qed

lemma renderTiles_slot:
  "\<forall>t\<in>set ts. 0 \<le> tileIndex c m t \<and> tileIndex c m t < int (length tileNodes) \<Longrightarrow>
   distinct (map (tileIndex c m) ts) \<Longrightarrow> t \<in> set ts \<Longrightarrow>
   \<exists>ls. fst (renderTiles c m sls ts tileNodes longest) ! nat (tileIndex c m t) =
     TileNode (tileIndex c m t) (real_of_int (getRowsPerTile c) * lineHeight m)
       (topPixelPositionForRow m t) ls"
proof (induction ts arbitrary: tileNodes longest)
  case Nil
  then show ?case by simp
next
  case (Cons u ts)
  have u: "0 \<le> tileIndex c m u" "tileIndex c m u < int (length tileNodes)"
    using Cons.prems(1) by simp_all
  have len: "\<forall>w\<in>set ts. 0 \<le> tileIndex c m w \<and>
      tileIndex c m w < int (length (js_array_set tileNodes (tileIndex c m u) v))" for v
    using Cons.prems(1) by (simp add: js_array_set_in_range)
  have d: "distinct (map (tileIndex c m) ts)" using Cons.prems(2) by simp
  show ?case
  proof (cases "t \<in> set ts")
    case True
    show ?thesis
      using Cons.IH [OF len d True] by (simp add: case_prod_beta Let_def)
  next
    case False
    then have t: "t = u" using Cons.prems(3) by simp
    have notin: "int (nat (tileIndex c m u)) \<notin> tileIndex c m ` set ts"
      using Cons.prems(2) u by auto
    have lt: "nat (tileIndex c m u) < length tileNodes" using u by (simp add: nat_less_iff)
    show ?thesis
      unfolding t using renderTiles_other [OF len notin] lt
      by (simp add: case_prod_beta Let_def) (simp add: js_array_set_in_range u)
  qed
qed


lemma rendered_slots:
  assumes top: "0 \<le> scrollTop m" and lh: "0 < lineHeight m"
  shows "distinct (map (tileIndex c m) (renderedTileStartRows c m))"
    and "set (map (tileIndex c m) (renderedTileStartRows c m)) = {0..<getVisibleTileCount c m}"
proof -
  let ?N = "nat (getVisibleTileCount c m)"
  note s = slots_complete [of "getFirstVisibleRow m div getRowsPerTile c" ?N]
  show "distinct (map (tileIndex c m) (renderedTileStartRows c m))"
    using s by (simp only: tileIndex_rendered [OF top lh])
  have "{0..<int ?N} = {0..<getVisibleTileCount c m}" by auto
  then show "set (map (tileIndex c m) (renderedTileStartRows c m)) = {0..<getVisibleTileCount c m}"
    using s by (simp only: tileIndex_rendered [OF top lh])
qed

lemma renderLineTiles_Inr:
  assumes meas: "measurements c = Some m" and frame: "renderLineTiles c = Inr (nodes, c')"
  shows "0 \<le> getVisibleTileCount c m"
    and "\<exists>extra. nodes =
           fst (renderTiles c m
                 (getScreenLines (displayLayer c) (getFirstTileStartRow c m)
                    (getLastTileStartRow c m + getRowsPerTile c))
                 (renderedTileStartRows c m)
                 (replicate (nat (getVisibleTileCount c m)) Hole) (longestLineToMeasure c))
           @ extra"
  using assms
  by (auto simp: renderLineTiles_def Let_def renderedTileStartRows_def case_prod_beta
      split: if_splits option.splits)

lemma renderLineTiles_slots:
  assumes top: "0 \<le> scrollTop m" and lh: "0 < lineHeight m"
    and meas: "measurements c = Some m" and frame: "renderLineTiles c = Inr (nodes, c')"
    and i: "i < nat (getVisibleTileCount c m)"
  shows "\<exists>t\<in>set (renderedTileStartRows c m). \<exists>ls. tileIndex c m t = int i \<and>
           nodes ! i = TileNode (int i) (real_of_int (getRowsPerTile c) * lineHeight m)
             (topPixelPositionForRow m t) ls"
proof -
  let ?ts = "renderedTileStartRows c m"
  let ?n = "getVisibleTileCount c m"
  let ?holes = "replicate (nat ?n) Hole"
  let ?sls = "getScreenLines (displayLayer c) (getFirstTileStartRow c m)
                (getLastTileStartRow c m + getRowsPerTile c)"
  let ?res = "fst (renderTiles c m ?sls ?ts ?holes (longestLineToMeasure c))"
  note d = rendered_slots(1) [OF top lh, of c]
  note e = rendered_slots(2) [OF top lh, of c]
  from renderLineTiles_Inr(2) [OF meas frame] obtain extra where nodes: "nodes = ?res @ extra"
    by blast
  have rng: "\<forall>t\<in>set ?ts. 0 \<le> tileIndex c m t \<and> tileIndex c m t < int (length ?holes)"
  proof
    fix t assume "t \<in> set ?ts"
    then have "tileIndex c m t \<in> set (map (tileIndex c m) ?ts)" by simp
    then have "tileIndex c m t \<in> {0..<?n}" by (simp only: e)
    then show "0 \<le> tileIndex c m t \<and> tileIndex c m t < int (length ?holes)" by simp
  qed
  have "int i \<in> {0..<?n}" using i by simp
  then have "int i \<in> set (map (tileIndex c m) ?ts)" by (simp only: e)
  then obtain t where t: "t \<in> set ?ts" "tileIndex c m t = int i" by auto
  from renderTiles_slot [OF rng d t(1)] obtain ls where
    ls: "?res ! nat (tileIndex c m t) =
           TileNode (tileIndex c m t) (real_of_int (getRowsPerTile c) * lineHeight m)
             (topPixelPositionForRow m t) ls"
    by blast
  have "length ?res = nat ?n" using renderTiles_length [OF rng] by simp
  then have "nodes ! i = ?res ! i" using i by (simp add: nodes nth_append)
  with ls t show ?thesis by auto
qed

text \<open>
  Claim C8, as amended. In a frame that \<^verbatim>\<open>renderLineTiles\<close> renders (scroll offset not
  negative, line height positive): as long as the last visible row is not clamped to the
  last row of the document, the visible tile count is
  \<open>\<lceil>scrollerHeight / lineHeight\<rceil> div rowsPerTile + 2\<close>, which does not depend on the scroll
  offset; the slot indices of the rendered tiles are pairwise different and are exactly
  the numbers from 0 up to the tile count; and every one of these slots of the array of
  rendered nodes holds the tile whose slot index it is.
\<close>

theorem tile_slots_are_all_occupied:
  assumes top: "0 \<le> scrollTop m" and lh: "0 < lineHeight m"
    and meas: "measurements c = Some m" and frame: "renderLineTiles c = Inr (nodes, c')"
  shows "(getFirstVisibleRow m + \<lceil>scrollerHeight m / lineHeight m\<rceil>
            \<le> approximateScreenLineCount c - 1 \<longrightarrow>
          getVisibleTileCount c m =
            \<lceil>scrollerHeight m / lineHeight m\<rceil> div getRowsPerTile c + 2)
       \<and> distinct (map (tileIndex c m) (renderedTileStartRows c m))
       \<and> set (map (tileIndex c m) (renderedTileStartRows c m)) = {0..<getVisibleTileCount c m}
       \<and> (\<forall>i<nat (getVisibleTileCount c m).
            \<exists>t\<in>set (renderedTileStartRows c m). \<exists>ls. tileIndex c m t = int i \<and>
              nodes ! i = TileNode (int i) (real_of_int (getRowsPerTile c) * lineHeight m)
                (topPixelPositionForRow m t) ls)"
  using getVisibleTileCount_unclamped [of m c] rendered_slots [OF top lh, of c]
    renderLineTiles_slots [OF top lh meas frame]
  by blast

lemma renderLineTiles_returns:
  "measurements c = Some m \<Longrightarrow> 0 \<le> getVisibleTileCount c m \<Longrightarrow>
   \<exists>nodes c'. renderLineTiles c = Inr (nodes, c')"
  by (simp add: renderLineTiles_def Let_def case_prod_beta split: option.splits)

theorem tile_slots_are_all_occupied_witness:
  "0 \<le> scrollTop (measurements_at 70) \<and> 0 < lineHeight (measurements_at 70)
   \<and> measurements (scrolled_component 30 70) = Some (measurements_at 70)
   \<and> getFirstVisibleRow (measurements_at 70)
         + \<lceil>scrollerHeight (measurements_at 70) / lineHeight (measurements_at 70)\<rceil>
        \<le> approximateScreenLineCount (scrolled_component 30 70) - 1
   \<and> getVisibleTileCount (scrolled_component 30 70) (measurements_at 70) = 3
   \<and> (\<exists>nodes c'.
        renderLineTiles (scrolled_component 30 70) = Inr (nodes, c')
        \<and> distinct (map (tileIndex (scrolled_component 30 70) (measurements_at 70))
             (renderedTileStartRows (scrolled_component 30 70) (measurements_at 70)))
        \<and> set (map (tileIndex (scrolled_component 30 70) (measurements_at 70))
             (renderedTileStartRows (scrolled_component 30 70) (measurements_at 70)))
           = {0..<getVisibleTileCount (scrolled_component 30 70) (measurements_at 70)}
        \<and> (\<forall>i<nat (getVisibleTileCount (scrolled_component 30 70) (measurements_at 70)).
              \<exists>t\<in>set (renderedTileStartRows (scrolled_component 30 70) (measurements_at 70)).
              \<exists>ls. tileIndex (scrolled_component 30 70) (measurements_at 70) t = int i \<and>
                nodes ! i = TileNode (int i)
                  (real_of_int (getRowsPerTile (scrolled_component 30 70))
                     * lineHeight (measurements_at 70))
                  (topPixelPositionForRow (measurements_at 70) t) ls))"
proof -
  let ?m = "measurements_at 70"
  let ?c = "scrolled_component 30 70"
  have top: "0 \<le> scrollTop ?m" and lh: "0 < lineHeight ?m"
    by (simp_all add: measurements_at_def)
  have meas: "measurements ?c = Some ?m" by (simp add: scrolled_component_def)
  have unclamped: "getFirstVisibleRow ?m + \<lceil>scrollerHeight ?m / lineHeight ?m\<rceil>
        \<le> approximateScreenLineCount ?c - 1"
    by (simp add: getFirstVisibleRow_def scrolled_component_def plain_component_def
        new_component_def measurements_at_def)
  have three: "getVisibleTileCount ?c ?m = 3"
    by (simp add: getVisibleTileCount_def getLastVisibleRow_def getFirstVisibleRow_def
        getRowsPerTile_def scrolled_component_def plain_component_def new_component_def
        measurements_at_def DEFAULT_ROWS_PER_TILE_def)
  then have "0 \<le> getVisibleTileCount ?c ?m" by simp
  with meas obtain nodes c' where frame: "renderLineTiles ?c = Inr (nodes, c')"
    using renderLineTiles_returns by blast
  show ?thesis
    using tile_slots_are_all_occupied [OF top lh meas frame] top lh meas frame unclamped three
    by blast
qed

text \<open>
  A document of 20 lines in a scroller twelve rows high: scrolled to the top, four tiles
  are rendered; scrolled to the bottom (80 pixels), three.
\<close>

theorem visible_tile_count_varies_with_scrollTop:
  "getVisibleTileCount (document_of 20) ((measurements_at 0)\<lparr>scrollerHeight := 120\<rparr>) = 4
   \<and> getVisibleTileCount (document_of 20) ((measurements_at 80)\<lparr>scrollerHeight := 120\<rparr>) = 3"
  by (simp add: getVisibleTileCount_def getLastVisibleRow_def getFirstVisibleRow_def
      getRowsPerTile_def document_of_def measurements_at_def DEFAULT_ROWS_PER_TILE_def)

section \<open>The scenario of ten visible rows\<close>

lemma tileIndex_values:
  assumes r: "getRowsPerTile c = 6" and v: "getVisibleTileCount c m = 3"
  shows "tileIndex c m 0 = 0" "tileIndex c m 6 = 1" "tileIndex c m 12 = 2" "tileIndex c m 18 = 0"
  using r v by (simp_all add: tileIndex_def js_rem_def)

lemma renderTiles_three:
  "\<exists>la lb ld lg.
     renderTiles c m sls [a, b, d] tileNodes longest =
       (js_array_set (js_array_set (js_array_set tileNodes (tileIndex c m a)
            (TileNode (tileIndex c m a) (real_of_int (getRowsPerTile c) * lineHeight m)
               (topPixelPositionForRow m a) la))
          (tileIndex c m b)
            (TileNode (tileIndex c m b) (real_of_int (getRowsPerTile c) * lineHeight m)
               (topPixelPositionForRow m b) lb))
          (tileIndex c m d)
            (TileNode (tileIndex c m d) (real_of_int (getRowsPerTile c) * lineHeight m)
               (topPixelPositionForRow m d) ld), lg)"
  by (simp only: renderTiles.simps Let_def case_prod_beta) (intro exI, rule refl)

lemma renderLineTiles_three:
  assumes meas: "measurements c = Some m" and v: "getVisibleTileCount c m = 3"
    and ts: "renderedTileStartRows c m = [a, b, d]"
    and ia: "tileIndex c m a = ia" and ib: "tileIndex c m b = ib" and id: "tileIndex c m d = ic"
  shows "\<exists>la lb ld extra c'.
           renderLineTiles c =
             Inr (js_array_set (js_array_set (js_array_set [Hole, Hole, Hole] ia
                      (TileNode ia (real_of_int (getRowsPerTile c) * lineHeight m)
                         (topPixelPositionForRow m a) la))
                    ib (TileNode ib (real_of_int (getRowsPerTile c) * lineHeight m)
                         (topPixelPositionForRow m b) lb))
                    ic (TileNode ic (real_of_int (getRowsPerTile c) * lineHeight m)
                         (topPixelPositionForRow m d) ld) @ extra, c')"
proof -
  have h: "replicate 3 Hole = [Hole, Hole, Hole]" by (simp add: numeral_3_eq_3)
  let ?sls = "getScreenLines (displayLayer c) (getFirstTileStartRow c m)
                 (getLastTileStartRow c m + getRowsPerTile c)"
  let ?T = "\<lambda>la lb ld.
         js_array_set (js_array_set (js_array_set [Hole, Hole, Hole] ia
            (TileNode ia (real_of_int (getRowsPerTile c) * lineHeight m)
               (topPixelPositionForRow m a) la))
          ib (TileNode ib (real_of_int (getRowsPerTile c) * lineHeight m)
               (topPixelPositionForRow m b) lb))
          ic (TileNode ic (real_of_int (getRowsPerTile c) * lineHeight m)
               (topPixelPositionForRow m d) ld)"
  from renderTiles_three [of c m ?sls a b d "[Hole, Hole, Hole]" "longestLineToMeasure c"]
  obtain la lb ld lg where
    rt: "renderTiles c m ?sls [a, b, d] [Hole, Hole, Hole] (longestLineToMeasure c) =
           (?T la lb ld, lg)"
    unfolding ia ib id by blast
  have eq: "renderLineTiles c =
          (case lg of
             None \<Rightarrow> Inr (?T la lb ld, c\<lparr>longestLineToMeasure := None\<rparr>)
           | Some l \<Rightarrow> Inr (?T la lb ld @ [LineNode l], c\<lparr>longestLineToMeasure := None\<rparr>))"
    using ts [unfolded renderedTileStartRows_def]
    by (simp add: renderLineTiles_def meas v h Let_def rt del: renderTiles.simps)
  show ?thesis
  proof (cases lg)
    case None
    from eq None have "renderLineTiles c = Inr (?T la lb ld @ [], c\<lparr>longestLineToMeasure := None\<rparr>)"
      by simp
    then show ?thesis
      apply -
      apply (rule exI [of _ la], rule exI [of _ lb], rule exI [of _ ld], rule exI [of _ "[]"])
      apply (rule exI, assumption)
      done
  next
    case (Some l)
    from eq Some have "renderLineTiles c =
        Inr (?T la lb ld @ [LineNode l], c\<lparr>longestLineToMeasure := None\<rparr>)"
      by simp
    then show ?thesis
      apply -
      apply (rule exI [of _ la], rule exI [of _ lb], rule exI [of _ ld])
      apply (rule exI [of _ "[LineNode l]"], rule exI, assumption)
      done
  qed
qed

text \<open>
  Claim C3, as amended. With line height \<open>L\<close>, a scroller \<open>10 * L\<close> high, six rows per tile
  and a document of at least 18 rows: scrolled to the top, the visible tile count is 3 and
  the rendered tiles start at rows 0, 6 and 12, in slots 0, 1 and 2. After scrolling so that
  the first visible row is 7, the first tile starts at row 6, the rendered tiles start at
  rows 6, 12 and 18, and the slot that held the tile of row 0 holds the tile of row 18,
  while the tiles of rows 6 and 12 keep their slots.
\<close>

theorem ten_rows_six_per_tile_scenario:
  assumes L: "0 < L"
    and m: "lineHeight m = L" "scrollerHeight m = 10 * L" "scrollTop m = 0"
    and m': "lineHeight m' = L" "scrollerHeight m' = 10 * L" "getFirstVisibleRow m' = 7"
    and r: "getRowsPerTile c = 6" and n: "18 \<le> approximateScreenLineCount c"
    and meas: "measurements c = Some m"
  shows "getVisibleTileCount c m = 3
       \<and> renderedTileStartRows c m = [0, 6, 12]
       \<and> (\<exists>l0 l1 l2 extra c1.
            renderLineTiles c =
              Inr ([TileNode 0 (6 * L) 0 l0, TileNode 1 (6 * L) (6 * L) l1,
                    TileNode 2 (6 * L) (12 * L) l2] @ extra, c1))
       \<and> getFirstTileStartRow c m' = 6
       \<and> renderedTileStartRows c m' = [6, 12, 18]
       \<and> (\<exists>l0 l1 l2 extra c2.
            renderLineTiles (c\<lparr>measurements := Some m'\<rparr>) =
              Inr ([TileNode 0 (6 * L) (18 * L) l0, TileNode 1 (6 * L) (6 * L) l1,
                    TileNode 2 (6 * L) (12 * L) l2] @ extra, c2))"
proof -
  let ?c' = "c\<lparr>measurements := Some m'\<rparr>"
  have Lm: "0 < lineHeight m" and Lm': "0 < lineHeight m'" using L m(1) m'(1) by simp_all
  have hm: "scrollerHeight m = 10 * lineHeight m" using m by simp
  have hm': "scrollerHeight m' = 10 * lineHeight m'" using m' by simp
  note p = planner_at_top [OF Lm hm r n m(3)]
  have r': "getRowsPerTile ?c' = 6" using r by (simp add: getRowsPerTile_def)
  have n': "18 \<le> approximateScreenLineCount ?c'" using n by simp
  note q0 = planner_at_row_7 [OF Lm' hm' r n m'(3)]
  note q = planner_at_row_7 [OF Lm' hm' r' n' m'(3)]
  note i = tileIndex_values [OF r p(3)]
  note j = tileIndex_values [OF r' q(2)]
  have 1: "\<exists>l0 l1 l2 extra c1.
            renderLineTiles c =
              Inr ([TileNode 0 (6 * L) 0 l0, TileNode 1 (6 * L) (6 * L) l1,
                    TileNode 2 (6 * L) (12 * L) l2] @ extra, c1)"
    using renderLineTiles_three [OF meas p(3) p(5) i(1) i(2) i(3)]
    by (simp add: js_array_set_def topPixelPositionForRow_def r m)
  have meas': "measurements ?c' = Some m'" by simp
  have 2: "\<exists>l0 l1 l2 extra c2.
            renderLineTiles ?c' =
              Inr ([TileNode 0 (6 * L) (18 * L) l0, TileNode 1 (6 * L) (6 * L) l1,
                    TileNode 2 (6 * L) (12 * L) l2] @ extra, c2)"
    using renderLineTiles_three [OF meas' q(2) q(4) j(2) j(3) j(4)]
    by (simp add: js_array_set_def topPixelPositionForRow_def r' m') blast
  show ?thesis using p(3) p(5) q0(3) q0(4) 1 2 by simp
qed

theorem ten_rows_six_per_tile_scenario_witness:
  "(0::real) < 10
   \<and> lineHeight (measurements_at 0) = 10 \<and> scrollerHeight (measurements_at 0) = 10 * 10
   \<and> scrollTop (measurements_at 0) = 0
   \<and> lineHeight (measurements_at 70) = 10 \<and> scrollerHeight (measurements_at 70) = 10 * 10
   \<and> getFirstVisibleRow (measurements_at 70) = 7
   \<and> getRowsPerTile (scrolled_component 30 0) = 6
   \<and> 18 \<le> approximateScreenLineCount (scrolled_component 30 0)
   \<and> measurements (scrolled_component 30 0) = Some (measurements_at 0)
   \<and> getVisibleTileCount (scrolled_component 30 0) (measurements_at 0) = 3
   \<and> renderedTileStartRows (scrolled_component 30 0) (measurements_at 0) = [0, 6, 12]
   \<and> (\<exists>l0 l1 l2 extra c1.
        renderLineTiles (scrolled_component 30 0) =
          Inr ([TileNode 0 (6 * 10) 0 l0, TileNode 1 (6 * 10) (6 * 10) l1,
                TileNode 2 (6 * 10) (12 * 10) l2] @ extra, c1))
   \<and> getFirstTileStartRow (scrolled_component 30 0) (measurements_at 70) = 6
   \<and> renderedTileStartRows (scrolled_component 30 0) (measurements_at 70) = [6, 12, 18]
   \<and> (\<exists>l0 l1 l2 extra c2.
        renderLineTiles ((scrolled_component 30 0)\<lparr>measurements := Some (measurements_at 70)\<rparr>) =
          Inr ([TileNode 0 (6 * 10) (18 * 10) l0, TileNode 1 (6 * 10) (6 * 10) l1,
                TileNode 2 (6 * 10) (12 * 10) l2] @ extra, c2))"
proof -
  have h: "(0::real) < 10"
    "lineHeight (measurements_at 0) = 10" "scrollerHeight (measurements_at 0) = 10 * 10"
    "scrollTop (measurements_at 0) = 0"
    "lineHeight (measurements_at 70) = 10" "scrollerHeight (measurements_at 70) = 10 * 10"
    "getFirstVisibleRow (measurements_at 70) = 7"
    "getRowsPerTile (scrolled_component 30 0) = 6"
    "18 \<le> approximateScreenLineCount (scrolled_component 30 0)"
    "measurements (scrolled_component 30 0) = Some (measurements_at 0)"
    by (simp_all add: measurements_at_def getFirstVisibleRow_def getRowsPerTile_def
        DEFAULT_ROWS_PER_TILE_def scrolled_component_def plain_component_def new_component_def)
  from ten_rows_six_per_tile_scenario [OF h] h show ?thesis by blast
qed

text \<open>
  In this scenario, on a document of 100 rows, the visible tile count is 3, not 2; the
  tiles start at rows 0, 6 and 12; and after scrolling to row 7 the slot of the tile of
  row 0 is taken by the tile of row 18, the tile of row 12 staying in slot 2.
\<close>

theorem ten_rows_scenario_has_three_tiles:
  "getVisibleTileCount (document_of 100) (measurements_at 0) = 3
   \<and> getVisibleTileCount (document_of 100) (measurements_at 0) \<noteq> 2
   \<and> renderedTileStartRows (document_of 100) (measurements_at 0) = [0, 6, 12]
   \<and> getFirstVisibleRow (measurements_at 70) = 7
   \<and> renderedTileStartRows (document_of 100) (measurements_at 70) = [6, 12, 18]
   \<and> tileIndex (document_of 100) (measurements_at 0) 0 = 0
   \<and> tileIndex (document_of 100) (measurements_at 70) 18 = 0
   \<and> tileIndex (document_of 100) (measurements_at 70) 12 = 2"
proof -
  have h: "0 < lineHeight (measurements_at 0)"
    "scrollerHeight (measurements_at 0) = 10 * lineHeight (measurements_at 0)"
    "getRowsPerTile (document_of 100) = 6"
    "18 \<le> approximateScreenLineCount (document_of 100)"
    "scrollTop (measurements_at 0) = 0"
    "0 < lineHeight (measurements_at 70)"
    "scrollerHeight (measurements_at 70) = 10 * lineHeight (measurements_at 70)"
    "getFirstVisibleRow (measurements_at 70) = 7"
    by (simp_all add: measurements_at_def getFirstVisibleRow_def getRowsPerTile_def
        DEFAULT_ROWS_PER_TILE_def document_of_def)
  note p = planner_at_top [OF h(1,2,3,4,5)]
  note q = planner_at_row_7 [OF h(6,7,3,4,8)]
  note i = tileIndex_values [OF h(3) p(3)]
  note j = tileIndex_values [OF h(3) q(2)]
  show ?thesis using p(3) p(5) h(8) q(4) i(1) j(4) j(3) by simp
qed

section \<open>Line components and their text nodes\<close>

lemma tagCodeStep_invariant:
  "tagCodeStep dl sl t b = Inr b' \<Longrightarrow>
   (startIndex b \<noteq> 0 \<longrightarrow> textNodes b \<noteq> []) \<Longrightarrow>
   (startIndex b' \<noteq> 0 \<longrightarrow> textNodes b' \<noteq> [])"
  by (auto simp: tagCodeStep_def Let_def split: if_splits list.splits prod.splits)

lemma tagCodeLoop_invariant:
  "tagCodeLoop dl sl ts b = Inr b' \<Longrightarrow>
   (startIndex b \<noteq> 0 \<longrightarrow> textNodes b \<noteq> []) \<Longrightarrow>
   (startIndex b' \<noteq> 0 \<longrightarrow> textNodes b' \<noteq> [])"
proof (induction ts arbitrary: b)
  case Nil
  then show ?case by simp
next
  case (Cons t ts)
  from Cons.prems(1) obtain b1 where s: "tagCodeStep dl sl t b = Inr b1"
    and l: "tagCodeLoop dl sl ts b1 = Inr b'"
    by (auto split: sum.splits)
  from tagCodeStep_invariant [OF s Cons.prems(2)] Cons.IH [OF l] show ?case by blast
qed

lemma tagCodeStep_no_text:
  "tagCodeStep dl sl t b = Inr b' \<Longrightarrow>
   t = 0 \<or> isCloseTagCode dl t \<or> isOpenTagCode dl t \<Longrightarrow>
   startIndex b' = startIndex b \<and> textNodes b' = textNodes b"
  by (auto simp: tagCodeStep_def Let_def split: if_splits list.splits prod.splits)

lemma tagCodeLoop_no_text:
  "tagCodeLoop dl sl ts b = Inr b' \<Longrightarrow>
   \<forall>t\<in>set ts. t = 0 \<or> isCloseTagCode dl t \<or> isOpenTagCode dl t \<Longrightarrow>
   startIndex b' = startIndex b \<and> textNodes b' = textNodes b"
proof (induction ts arbitrary: b)
  case Nil
  then show ?case by simp
next
  case (Cons t ts)
  from Cons.prems(1) obtain b1 where s: "tagCodeStep dl sl t b = Inr b1"
    and l: "tagCodeLoop dl sl ts b1 = Inr b'"
    by (auto split: sum.splits)
  from Cons.prems(2) have t: "t = 0 \<or> isCloseTagCode dl t \<or> isOpenTagCode dl t"
    and ts: "\<forall>t\<in>set ts. t = 0 \<or> isCloseTagCode dl t \<or> isOpenTagCode dl t"
    by simp_all
  from tagCodeStep_no_text [OF s t] Cons.IH [OF l ts] show ?case by simp
qed

lemma LineComponent_textNodes:
  assumes "LineComponent sl c = Inr c'"
  obtains b where
    "tagCodeLoop (displayLayer c) sl (tagCodes sl)
       \<lparr>startIndex = 0, openElements = [(''span'', [], []), (''div'', ''line'', [])],
        openScopeNodeIsNull = False, textNodes = []\<rparr> = Inr b"
    "textNodesByScreenLineId c' (line_id sl) =
       Some (textNodes b
         @ (if startIndex b = 0
            then [\<lparr>owner_line = line_id sl, node_index = length (textNodes b),
                   textContent = '' ''\<rparr>]
            else []))"
    "\<not> endsWith (lineText sl) (foldCharacter (displayLayer c))"
  using assms
  by (auto simp: LineComponent_def Let_def appendToElement_def
      split: sum.splits option.splits if_splits)

text \<open>
  Whenever the constructor of \<^verbatim>\<open>LineComponent\<close> returns, the list of text nodes it has
  registered for the screen line is not empty, and if no tag code of the line is a text
  run, the list starts with a single space text node. It returns only for lines that do
  not end with the fold character.
\<close>

lemma LineComponent_registers_text_nodes:
  assumes "LineComponent sl c = Inr c'"
  shows "\<exists>ns. textNodesByScreenLineId c' (line_id sl) = Some ns \<and> ns \<noteq> []
          \<and> ((\<forall>t\<in>set (tagCodes sl).
                 t = 0 \<or> isCloseTagCode (displayLayer c) t \<or> isOpenTagCode (displayLayer c) t)
               \<longrightarrow> (\<exists>rest. ns = \<lparr>owner_line = line_id sl, node_index = 0,
                                  textContent = '' ''\<rparr> # rest))"
    and "\<not> endsWith (lineText sl) (foldCharacter (displayLayer c))"
proof -
  let ?b0 = "\<lparr>startIndex = 0, openElements = [(''span'', [], []), (''div'', ''line'', [])],
        openScopeNodeIsNull = False, textNodes = []\<rparr>"
  from assms obtain b where
    loop: "tagCodeLoop (displayLayer c) sl (tagCodes sl) ?b0 = Inr b"
    and ns: "textNodesByScreenLineId c' (line_id sl) =
       Some (textNodes b
         @ (if startIndex b = 0
            then [\<lparr>owner_line = line_id sl, node_index = length (textNodes b),
                   textContent = '' ''\<rparr>]
            else []))"
    and nf: "\<not> endsWith (lineText sl) (foldCharacter (displayLayer c))"
    by (rule LineComponent_textNodes)
  have inv: "startIndex b \<noteq> 0 \<longrightarrow> textNodes b \<noteq> []"
    using tagCodeLoop_invariant [OF loop] by simp
  have none: "startIndex b = 0 \<and> textNodes b = []"
    if "\<forall>t\<in>set (tagCodes sl).
          t = 0 \<or> isCloseTagCode (displayLayer c) t \<or> isOpenTagCode (displayLayer c) t"
    using tagCodeLoop_no_text [OF loop that] by simp
  show "\<exists>ns. textNodesByScreenLineId c' (line_id sl) = Some ns \<and> ns \<noteq> []
          \<and> ((\<forall>t\<in>set (tagCodes sl).
                 t = 0 \<or> isCloseTagCode (displayLayer c) t \<or> isOpenTagCode (displayLayer c) t)
               \<longrightarrow> (\<exists>rest. ns = \<lparr>owner_line = line_id sl, node_index = 0,
                                  textContent = '' ''\<rparr> # rest))"
    unfolding ns using inv none by (cases "startIndex b = 0") auto
  show "\<not> endsWith (lineText sl) (foldCharacter (displayLayer c))" by (rule nf)
qed

text \<open>
  On a line that ends with the fold character the constructor always throws: whatever the
  loop over the tag codes did, the text node for the fold marker is never created.
\<close>

lemma LineComponent_throws_on_fold_marker:
  "endsWith (lineText sl) (foldCharacter (displayLayer c)) \<Longrightarrow> \<exists>e. LineComponent sl c = Inl e"
  using LineComponent_registers_text_nodes(2) [of sl c] by (cases "LineComponent sl c") auto

text \<open>
  Claim C10 says that every screen line rendered by \<^verbatim>\<open>LineComponent\<close> has a non-empty
  registered list of text nodes, and that a line ending with the fold marker gets one more
  text node, holding a zero-width no-break space. The constructor does so for the lines
  that do not end with the fold character (the lemma
  \<open>LineComponent_registers_text_nodes\<close>), but for a line that ends with it, it throws
  instead of registering any node: the line \<open>ab~\<close> of one text run, with \<open>~\<close> the fold
  character, ends in a \<^verbatim>\<open>ReferenceError\<close>, while the line \<open>ab\<close> with the same tag codes is
  registered with its text node.
\<close>

theorem fold_line_throws_ReferenceError:
  "endsWith ''ab~'' (foldCharacter (displayLayer (plain_component 5)))
   \<and> LineComponent \<lparr>line_id = 8, lineText = ''ab~'', tagCodes = [-1, 3, -2]\<rparr>
         (plain_component 5) = Inl ReferenceError
   \<and> map_sum id (\<lambda>c'. textNodesByScreenLineId c' 8)
         (LineComponent \<lparr>line_id = 8, lineText = ''ab'', tagCodes = [-1, 2, -2]\<rparr>
            (plain_component 5))
       = Inr (Some [\<lparr>owner_line = 8, node_index = 0, textContent = ''ab''\<rparr>])"
  by (simp add: LineComponent_def Let_def tagCodeStep_def plain_component_def new_component_def
      plain_layer_def appendChild_def endsWith_def js_substr_def)

section \<open>Horizontal measurement\<close>


lemma measureLoop_step:
  "measureLoop sf lineNode (t # ts) start (c # cs) st =
     (if c = 0 then
        measureLoop sf lineNode (t # ts) start cs (st\<lparr>positions := (positions st)(0 \<mapsto> 0)\<rparr>)
      else if positions st c \<noteq> None then measureLoop sf lineNode (t # ts) start cs st
      else if c \<le> start + length (textContent t) then
        (case measureHere sf lineNode t start c st of
           Inl e \<Rightarrow> Inl e
         | Inr st1 \<Rightarrow> measureLoop sf lineNode (t # ts) start cs st1)
      else measureLoop sf lineNode ts (start + length (textContent t)) (c # cs) st)"
  by (simp add: measureHere_def Let_def split: option.splits)

lemma measureHere_positions:
  "measureHere sf lineNode t start c st = Inr st1 \<Longrightarrow>
   \<exists>v. positions st1 = (positions st)(c \<mapsto> v)"
  by (auto simp: measureHere_def Let_def split: if_splits option.splits)

lemma measureHere_queries:
  "measureHere sf lineNode t start c st = Inr st1 \<Longrightarrow>
   \<exists>q qs. queries st1 = queries st @ q # qs"
  by (auto simp: measureHere_def Let_def split: if_splits option.splits)

lemma measureLoop_keeps:
  "measureLoop sf lineNode tns start cols st = Inr st' \<Longrightarrow> positions st x = Some v \<Longrightarrow>
   (x = 0 \<longrightarrow> v = 0) \<Longrightarrow> positions st' x = Some v"
proof (induction tns arbitrary: start cols st)
  case Nil
  then show ?case by simp
next
  case (Cons t ts)
  note outer = Cons.IH
  from Cons.prems show ?case
  proof (induction cols arbitrary: st)
    case Nil
    then show ?case by simp
  next
    case (Cons c cs)
    note run = Cons.prems(1) [unfolded measureLoop_step]
    consider (zero) "c = 0"
      | (cached) "c \<noteq> 0" "positions st c \<noteq> None"
      | (here) "c \<noteq> 0" "positions st c = None" "c \<le> start + length (textContent t)"
      | (later) "c \<noteq> 0" "positions st c = None" "start + length (textContent t) < c"
      by linarith
    then show ?case
    proof cases
      case zero
      with run have "measureLoop sf lineNode (t # ts) start cs
          (st\<lparr>positions := (positions st)(0 \<mapsto> 0)\<rparr>) = Inr st'" by simp
      moreover have "positions (st\<lparr>positions := (positions st)(0 \<mapsto> 0)\<rparr>) x = Some v"
        using Cons.prems(2,3) by simp
      ultimately show ?thesis using Cons.IH Cons.prems(3) by blast
    next
      case cached
      with run have "measureLoop sf lineNode (t # ts) start cs st = Inr st'" by simp
      then show ?thesis using Cons.IH Cons.prems(2,3) by blast
    next
      case here
      with run obtain st1 where h: "measureHere sf lineNode t start c st = Inr st1"
        and r: "measureLoop sf lineNode (t # ts) start cs st1 = Inr st'"
        by (auto split: sum.splits)
      have "x \<noteq> c" using here(2) Cons.prems(2) by auto
      with measureHere_positions [OF h] Cons.prems(2) have "positions st1 x = Some v" by auto
      with r show ?thesis using Cons.IH Cons.prems(3) by blast
    next
      case later
      with run have "measureLoop sf lineNode ts (start + length (textContent t)) (c # cs) st
          = Inr st'" by simp
      then show ?thesis using outer Cons.prems(2,3) by blast
    qed
  qed
qed

lemma measureLoop_cached:
  "\<forall>c\<in>set cols. c = 0 \<or> positions st c \<noteq> None \<Longrightarrow>
   \<exists>st'. measureLoop sf lineNode tns start cols st = Inr st'
      \<and> queries st' = queries st
      \<and> (\<forall>x. x \<noteq> 0 \<longrightarrow> positions st' x = positions st x)
      \<and> (positions st' 0 = positions st 0 \<or> positions st' 0 = Some 0)"
proof (cases tns)
  case Nil
  then show ?thesis by simp
next
  case (Cons t ts)
  assume "\<forall>c\<in>set cols. c = 0 \<or> positions st c \<noteq> None"
  then have "\<exists>st'. measureLoop sf lineNode (t # ts) start cols st = Inr st'
      \<and> queries st' = queries st
      \<and> (\<forall>x. x \<noteq> 0 \<longrightarrow> positions st' x = positions st x)
      \<and> (positions st' 0 = positions st 0 \<or> positions st' 0 = Some 0)"
  proof (induction cols arbitrary: st)
    case Nil
    then show ?case by simp
  next
    case (Cons c cs)
    show ?case
    proof (cases "c = 0")
      case True
      let ?st = "st\<lparr>positions := (positions st)(0 \<mapsto> 0)\<rparr>"
      have "\<forall>c\<in>set cs. c = 0 \<or> positions ?st c \<noteq> None" using Cons.prems by auto
      from Cons.IH [OF this] obtain st' where
        "measureLoop sf lineNode (t # ts) start cs ?st = Inr st'" "queries st' = queries ?st"
        "\<forall>x. x \<noteq> 0 \<longrightarrow> positions st' x = positions ?st x"
        "positions st' 0 = positions ?st 0 \<or> positions st' 0 = Some 0"
        by blast
      then show ?thesis using True by (simp add: measureLoop_step del: measureLoop.simps)
    next
      case False
      then have "positions st c \<noteq> None" using Cons.prems by simp
      moreover have "\<forall>c\<in>set cs. c = 0 \<or> positions st c \<noteq> None" using Cons.prems by simp
      ultimately show ?thesis
        using Cons.IH [of st] False by (simp add: measureLoop_step del: measureLoop.simps)
    qed
  qed
  with Cons show ?thesis by simp
qed

lemma measureLoop_duplicate:
  "measureLoop sf lineNode tns start (c # c # cs) st = measureLoop sf lineNode tns start (c # cs) st"
proof (induction tns arbitrary: start)
  case Nil
  then show ?case by simp
next
  case (Cons t ts)
  consider (zero) "c = 0"
    | (cached) "c \<noteq> 0" "positions st c \<noteq> None"
    | (here) "c \<noteq> 0" "positions st c = None" "c \<le> start + length (textContent t)"
    | (later) "c \<noteq> 0" "positions st c = None" "start + length (textContent t) < c"
    by linarith
  then show ?case
  proof cases
    case zero
    then show ?thesis by (simp add: measureLoop_step del: measureLoop.simps)
  next
    case cached
    then show ?thesis by (simp add: measureLoop_step del: measureLoop.simps)
  next
    case here
    show ?thesis
    proof (cases "measureHere sf lineNode t start c st")
      case (Inl e)
      with here show ?thesis by (simp add: measureLoop_step del: measureLoop.simps)
    next
      case (Inr st1)
      from measureHere_positions [OF Inr] have "positions st1 c \<noteq> None" by auto
      with here Inr show ?thesis
        by (simp add: measureLoop_step [of _ _ _ _ _ c] del: measureLoop.simps)
    qed
  next
    case later
    with Cons.IH show ?thesis by (simp add: measureLoop_step del: measureLoop.simps)
  qed
qed

declare measureLoop.simps [simp del]

lemma measureLoop_Nil [simp]: "measureLoop sf lineNode tns start [] st = Inr st"
  by (cases tns) (simp_all add: measureLoop.simps)

lemma measureLoop_no_nodes [simp]: "measureLoop sf lineNode [] start cols st = Inr st"
  by (simp add: measureLoop.simps)

lemma measureLoop_cong_Cons:
  assumes "\<And>tns start st. measureLoop sf lineNode tns start ys st
                           = measureLoop sf lineNode tns start ys' st"
  shows "measureLoop sf lineNode tns start (x # ys) st = measureLoop sf lineNode tns start (x # ys') st"
proof (induction tns arbitrary: start)
  case Nil
  show ?case by simp
next
  case (Cons t ts)
  show ?case unfolding measureLoop_step using assms Cons.IH by (simp split: sum.splits)
qed

lemma measureLoop_remdups_adj:
  "measureLoop sf lineNode tns start cols st = measureLoop sf lineNode tns start (remdups_adj cols) st"
proof (induction cols arbitrary: tns start st rule: remdups_adj.induct)
  case 1
  show ?case by simp
next
  case (2 x)
  show ?case by simp
next
  case (3 x y xs)
  show ?case
  proof (cases "x = y")
    case True
    then show ?thesis using "3.IH"(1) [OF True] by (simp add: measureLoop_duplicate)
  next
    case False
    have "measureLoop sf lineNode tns start (x # y # xs) st =
          measureLoop sf lineNode tns start (x # remdups_adj (y # xs)) st"
      by (rule measureLoop_cong_Cons) (rule "3.IH"(2) [OF False])
    then show ?thesis using False by simp
  qed
qed

lemma distinct_remdups_adj_sorted: "sorted xs \<Longrightarrow> distinct (remdups_adj xs)"
proof (induction xs rule: remdups_adj.induct)
  case 1
  show ?case by simp
next
  case (2 x)
  show ?case by simp
next
  case (3 x y xs)
  show ?case
  proof (cases "x = y")
    case True
    then show ?thesis using 3 by simp
  next
    case False
    with "3.prems" have "x < y" "\<forall>z\<in>set xs. y \<le> z" by auto
    then have "x \<notin> set (y # xs)" by auto
    then have "x \<notin> set (remdups_adj (y # xs))"
      using remdups_adj_set [of "y # xs"] by blast
    moreover have "distinct (remdups_adj (y # xs))" using "3.IH"(2) [OF False] "3.prems" by simp
    ultimately show ?thesis using False by simp
  qed
qed

lemma remdups_adj_sort_set:
  "set xs = set ys \<Longrightarrow> remdups_adj (sort xs) = remdups_adj (sort ys)"
proof (rule sorted_distinct_set_unique)
  assume s: "set xs = set ys"
  show "sorted (remdups_adj (sort xs))" by (simp add: sorted_remdups_adj)
  show "sorted (remdups_adj (sort ys))" by (simp add: sorted_remdups_adj)
  show "distinct (remdups_adj (sort xs))" by (simp add: distinct_remdups_adj_sorted)
  show "distinct (remdups_adj (sort ys))" by (simp add: distinct_remdups_adj_sorted)
  show "set (remdups_adj (sort xs)) = set (remdups_adj (sort ys))" using s by simp
qed

lemma measureOnLine_set:
  assumes "set xs = set ys"
  shows "measureHorizontalPositionsOnLine sf lineNode tns (sort xs) ps =
         measureHorizontalPositionsOnLine sf lineNode tns (sort ys) ps"
  unfolding measureHorizontalPositionsOnLine_def
  by (subst measureLoop_remdups_adj, subst (2) measureLoop_remdups_adj)
     (simp only: remdups_adj_sort_set [OF assms])

lemma measureRows_sameRequests:
  "sameRequests xs ys \<Longrightarrow> measureRows xs c = measureRows ys c"
  unfolding sameRequests_def
proof (induction xs ys arbitrary: c rule: list_all2_induct)
  case Nil
  show ?case by simp
next
  case (Cons x xs y ys)
  obtain r cs where x: "x = (r, cs)" by (cases x)
  obtain r' cs' where y: "y = (r', cs')" by (cases y)
  from Cons.hyps(1) x y have r: "r' = r" and s: "set cs = set cs'" by simp_all
  show ?case
    unfolding x y r
    by (simp add: measureOnLine_set [OF s] Cons.IH Let_def split: option.splits sum.splits)
qed

lemma requestColumn_twice:
  "sameRequests (requestColumn (requestColumn p row col) row col) (requestColumn p row col)"
  unfolding sameRequests_def
  by (induction p row col rule: requestColumn.induct) (simp_all add: list.rel_refl)

lemma measureLoop_zero:
  "measureLoop sf lineNode tns start cols st = Inr st' \<Longrightarrow>
   positions st' 0 = positions st 0 \<or> positions st' 0 = Some 0"
proof (induction tns arbitrary: start cols st)
  case Nil
  then show ?case by simp
next
  case (Cons t ts)
  note outer = Cons.IH
  from Cons.prems show ?case
  proof (induction cols arbitrary: st)
    case Nil
    then show ?case by simp
  next
    case (Cons c cs)
    note run = Cons.prems(1) [unfolded measureLoop_step]
    consider (zero) "c = 0"
      | (cached) "c \<noteq> 0" "positions st c \<noteq> None"
      | (here) "c \<noteq> 0" "positions st c = None" "c \<le> start + length (textContent t)"
      | (later) "c \<noteq> 0" "positions st c = None" "start + length (textContent t) < c"
      by linarith
    then show ?case
    proof cases
      case zero
      with run have "measureLoop sf lineNode (t # ts) start cs
          (st\<lparr>positions := (positions st)(0 \<mapsto> 0)\<rparr>) = Inr st'" by simp
      from Cons.IH [OF this] show ?thesis by simp
    next
      case cached
      with run have "measureLoop sf lineNode (t # ts) start cs st = Inr st'" by simp
      from Cons.IH [OF this] show ?thesis .
    next
      case here
      with run obtain st1 where h: "measureHere sf lineNode t start c st = Inr st1"
        and r: "measureLoop sf lineNode (t # ts) start cs st1 = Inr st'"
        by (auto split: sum.splits)
      from measureHere_positions [OF h] here(1) have "positions st1 0 = positions st 0" by auto
      with Cons.IH [OF r] show ?thesis by simp
    next
      case later
      with run have "measureLoop sf lineNode ts (start + length (textContent t)) (c # cs) st
          = Inr st'" by simp
      from outer [OF this] show ?thesis .
    qed
  qed
qed

lemma measureRows_Cons_Inr:
  assumes "measureRows ((row, cols) # rest) c = Inr (c', qs)"
  obtains sl tns st qs' where
    "getScreenLine (displayLayer c) row = Some sl"
    "textNodesByScreenLineId c (line_id sl) = Some tns"
    "measureHorizontalPositionsOnLine (surface c) (lineNodesByScreenLineId c (line_id sl)) tns
       (sort cols)
       (case horizontalPixelPositionsByScreenLineId c (line_id sl) of
          None \<Rightarrow> Map.empty | Some ps \<Rightarrow> ps) = Inr st"
    "measureRows rest
       (c\<lparr>horizontalPixelPositionsByScreenLineId :=
            (horizontalPixelPositionsByScreenLineId c)(line_id sl \<mapsto> positions st)\<rparr>)
       = Inr (c', qs')"
    "qs = queries st @ qs'"
  using assms by (auto simp: Let_def split: option.splits sum.splits prod.splits)

lemma cachedPosition_update:
  "cachedPosition (c\<lparr>horizontalPixelPositionsByScreenLineId :=
       (horizontalPixelPositionsByScreenLineId c)(lineId \<mapsto> ps)\<rparr>) i col =
     (if i = lineId then ps col else cachedPosition c i col)"
  by (simp add: cachedPosition_def)

lemma positionsForLine_cached:
  "(case horizontalPixelPositionsByScreenLineId c lineId of
      None \<Rightarrow> Map.empty | Some ps \<Rightarrow> ps) col = cachedPosition c lineId col"
  by (simp add: cachedPosition_def split: option.splits)

lemma measureRows_only_cache:
  "measureRows rows c = Inr (c', qs) \<Longrightarrow>
   c' = c\<lparr>horizontalPixelPositionsByScreenLineId := horizontalPixelPositionsByScreenLineId c'\<rparr>"
proof (induction rows arbitrary: c qs)
  case Nil
  then show ?case by simp
next
  case (Cons rc rest)
  obtain row cols where rc: "rc = (row, cols)" by (cases rc)
  from Cons.prems [unfolded rc] obtain sl :: screen_line and tns :: "text_node list"
    and st :: line_measurement and qs' where
    r: "measureRows rest
       (c\<lparr>horizontalPixelPositionsByScreenLineId :=
            (horizontalPixelPositionsByScreenLineId c)(line_id sl \<mapsto> positions st)\<rparr>)
       = Inr (c', qs')"
    by (rule measureRows_Cons_Inr)
  from Cons.IH [OF r] show ?case by simp
qed

lemma measureRows_keeps:
  "measureRows rows c = Inr (c', qs) \<Longrightarrow> columnZeroAtZero c \<Longrightarrow>
   columnZeroAtZero c'
   \<and> (\<forall>lineId col v. cachedPosition c lineId col = Some v \<longrightarrow>
         cachedPosition c' lineId col = Some v)"
proof (induction rows arbitrary: c qs)
  case Nil
  then show ?case by simp
next
  case (Cons rc rest)
  obtain row cols where rc: "rc = (row, cols)" by (cases rc)
  let ?ps = "\<lambda>i. case horizontalPixelPositionsByScreenLineId c i of
          None \<Rightarrow> Map.empty | Some ps \<Rightarrow> ps"
  from Cons.prems(1) [unfolded rc] obtain sl :: screen_line and tns st qs' where
    m: "measureHorizontalPositionsOnLine (surface c) (lineNodesByScreenLineId c (line_id sl)) tns
       (sort cols) (?ps (line_id sl)) = Inr st"
    and r: "measureRows rest
       (c\<lparr>horizontalPixelPositionsByScreenLineId :=
            (horizontalPixelPositionsByScreenLineId c)(line_id sl \<mapsto> positions st)\<rparr>)
       = Inr (c', qs')"
    by (rule measureRows_Cons_Inr)
  let ?c1 = "c\<lparr>horizontalPixelPositionsByScreenLineId :=
            (horizontalPixelPositionsByScreenLineId c)(line_id sl \<mapsto> positions st)\<rparr>"
  note ml = m [unfolded measureHorizontalPositionsOnLine_def]
  have z0: "cachedPosition c i 0 = None \<or> cachedPosition c i 0 = Some 0" for i
    using Cons.prems(2) by (simp add: columnZeroAtZero_def)
  have zero: "positions st 0 = None \<or> positions st 0 = Some 0"
    using measureLoop_zero [OF ml] z0 [of "line_id sl"]
    by (simp add: positionsForLine_cached) metis
  have z1: "columnZeroAtZero ?c1"
    unfolding columnZeroAtZero_def cachedPosition_update using zero z0 by simp
  have keep1: "cachedPosition ?c1 i col = Some v" if "cachedPosition c i col = Some v" for i col v
  proof (cases "i = line_id sl")
    case True
    have "col = 0 \<longrightarrow> v = 0" using z0 [of i] that by auto
    with measureLoop_keeps [OF ml, of col v] that True
    show ?thesis by (simp add: positionsForLine_cached cachedPosition_update)
  next
    case False
    with that show ?thesis by (simp add: cachedPosition_update)
  qed
  from Cons.IH [OF r z1] keep1 show ?case by blast
qed

lemma measureRows_cached:
  assumes "\<forall>rc\<in>set rows.
        \<exists>sl tns. getScreenLine (displayLayer c) (fst rc) = Some sl
          \<and> textNodesByScreenLineId c (line_id sl) = Some tns
          \<and> (\<forall>col\<in>set (snd rc). col = 0 \<or> cachedPosition c (line_id sl) col \<noteq> None)"
  shows "\<exists>c'. measureRows rows c = Inr (c', [])
          \<and> (\<forall>i col. col \<noteq> 0 \<longrightarrow> cachedPosition c' i col = cachedPosition c i col)
          \<and> (\<forall>i. horizontalPixelPositionsByScreenLineId c i \<noteq> None \<longrightarrow>
                 horizontalPixelPositionsByScreenLineId c' i \<noteq> None)"
  using assms
proof (induction rows arbitrary: c)
  case Nil
  show ?case by simp
next
  case (Cons rc rest)
  obtain row cols where rc: "rc = (row, cols)" by (cases rc)
  from Cons.prems rc obtain sl :: screen_line and tns where
    sl: "getScreenLine (displayLayer c) row = Some sl"
    and tns: "textNodesByScreenLineId c (line_id sl) = Some tns"
    and cached: "\<forall>col\<in>set cols. col = 0 \<or> cachedPosition c (line_id sl) col \<noteq> None"
    by auto
  let ?ps = "case horizontalPixelPositionsByScreenLineId c (line_id sl) of
          None \<Rightarrow> Map.empty | Some ps \<Rightarrow> ps"
  let ?st0 = "\<lparr>lineNodeClientLeft = - 1, positions = ?ps, queries = []\<rparr>"
  have "\<forall>col\<in>set (sort cols). col = 0 \<or> positions ?st0 col \<noteq> None"
    using cached by (simp add: positionsForLine_cached)
  from measureLoop_cached [OF this, of "surface c" "lineNodesByScreenLineId c (line_id sl)" tns 0]
  obtain st where
    m: "measureHorizontalPositionsOnLine (surface c) (lineNodesByScreenLineId c (line_id sl)) tns
          (sort cols) ?ps = Inr st"
    and q: "queries st = []"
    and p: "\<forall>x. x \<noteq> 0 \<longrightarrow> positions st x = ?ps x"
    unfolding measureHorizontalPositionsOnLine_def by auto
  let ?c1 = "c\<lparr>horizontalPixelPositionsByScreenLineId :=
            (horizontalPixelPositionsByScreenLineId c)(line_id sl \<mapsto> positions st)\<rparr>"
  have same: "cachedPosition ?c1 i col = cachedPosition c i col" if "col \<noteq> 0" for i col
    using that p by (simp add: cachedPosition_update positionsForLine_cached)
  have "\<forall>rc\<in>set rest.
        \<exists>sl tns. getScreenLine (displayLayer ?c1) (fst rc) = Some sl
          \<and> textNodesByScreenLineId ?c1 (line_id sl) = Some tns
          \<and> (\<forall>col\<in>set (snd rc). col = 0 \<or> cachedPosition ?c1 (line_id sl) col \<noteq> None)"
  proof
    fix rc' assume "rc' \<in> set rest"
    with Cons.prems obtain sl' :: screen_line and tns' where
      a: "getScreenLine (displayLayer c) (fst rc') = Some sl'"
      and b: "textNodesByScreenLineId c (line_id sl') = Some tns'"
      and d: "\<forall>col\<in>set (snd rc'). col = 0 \<or> cachedPosition c (line_id sl') col \<noteq> None"
      by fastforce
    have "\<forall>col\<in>set (snd rc'). col = 0 \<or> cachedPosition ?c1 (line_id sl') col \<noteq> None"
    proof
      fix col assume col: "col \<in> set (snd rc')"
      show "col = 0 \<or> cachedPosition ?c1 (line_id sl') col \<noteq> None"
      proof (cases "col = 0")
        case True
        then show ?thesis by simp
      next
        case False
        from bspec [OF d col] False have "cachedPosition c (line_id sl') col \<noteq> None" by simp
        then have "cachedPosition ?c1 (line_id sl') col \<noteq> None"
          by (simp only: same [OF False] simp_thms)
        then show ?thesis ..
      qed
    qed
    moreover have "getScreenLine (displayLayer ?c1) (fst rc') = Some sl'" using a by simp
    moreover have "textNodesByScreenLineId ?c1 (line_id sl') = Some tns'" using b by simp
    ultimately show "\<exists>sl tns. getScreenLine (displayLayer ?c1) (fst rc') = Some sl
          \<and> textNodesByScreenLineId ?c1 (line_id sl) = Some tns
          \<and> (\<forall>col\<in>set (snd rc'). col = 0 \<or> cachedPosition ?c1 (line_id sl) col \<noteq> None)"
      by (intro exI [of _ sl'] exI [of _ tns'] conjI)
  qed
  from Cons.IH [OF this] obtain c' where
    r: "measureRows rest ?c1 = Inr (c', [])"
    and rp: "\<forall>i col. col \<noteq> 0 \<longrightarrow> cachedPosition c' i col = cachedPosition ?c1 i col"
    and rd: "\<forall>i. horizontalPixelPositionsByScreenLineId ?c1 i \<noteq> None \<longrightarrow>
                 horizontalPixelPositionsByScreenLineId c' i \<noteq> None"
    by blast
  have "measureRows (rc # rest) c = Inr (c', [])"
    unfolding rc using sl tns m r q by (simp add: Let_def)
  moreover have "\<forall>i col. col \<noteq> 0 \<longrightarrow> cachedPosition c' i col = cachedPosition c i col"
  proof (intro allI impI)
    fix i col assume nz: "col \<noteq> (0::nat)"
    from rp nz have "cachedPosition c' i col = cachedPosition ?c1 i col" by blast
    then show "cachedPosition c' i col = cachedPosition c i col" by (simp only: same [OF nz])
  qed
  moreover have "\<forall>i. horizontalPixelPositionsByScreenLineId c i \<noteq> None \<longrightarrow>
                 horizontalPixelPositionsByScreenLineId c' i \<noteq> None"
  proof (intro allI impI)
    fix i assume "horizontalPixelPositionsByScreenLineId c i \<noteq> None"
    then have "horizontalPixelPositionsByScreenLineId ?c1 i \<noteq> None" by simp
    with rd show "horizontalPixelPositionsByScreenLineId c' i \<noteq> None" by blast
  qed
  ultimately show ?case by blast
qed

lemma pixelLeft_cached:
  "getScreenLine (displayLayer c) row = Some sl \<Longrightarrow>
   horizontalPixelPositionsByScreenLineId c (line_id sl) \<noteq> None \<Longrightarrow> col \<noteq> 0 \<Longrightarrow>
   pixelLeftForScreenRowAndColumn c row col = Inr (cachedPosition c (line_id sl) col)"
  by (auto simp: pixelLeftForScreenRowAndColumn_def cachedPosition_def)

lemma measureHorizontalPositions_Inr:
  assumes "measureHorizontalPositions c = Inr c'"
  obtains c1 qs where "measureRows (horizontalPositionsToMeasure c) c = Inr (c1, qs)"
    "c' = emit (MeasureHorizontalPositions qs)
            (c1\<lparr>horizontalPositionsToMeasure :=
                  map (\<lambda>(row, columns). (row, sort columns)) (horizontalPositionsToMeasure c1)\<rparr>)"
  using assms by (auto simp: measureHorizontalPositions_def split: sum.splits prod.splits)

lemma cachedPosition_emit [simp]:
  "cachedPosition (emit e (c\<lparr>horizontalPositionsToMeasure := p\<rparr>)) = cachedPosition c"
  by (simp add: cachedPosition_def emit_def fun_eq_iff)

lemma measureRows_pending:
  "measureRows rows (c\<lparr>horizontalPositionsToMeasure := p\<rparr>) =
     (case measureRows rows c of
        Inl e \<Rightarrow> Inl e
      | Inr (c', qs) \<Rightarrow> Inr (c'\<lparr>horizontalPositionsToMeasure := p\<rparr>, qs))"
proof (induction rows arbitrary: c)
  case Nil
  show ?case by simp
next
  case (Cons rc rest)
  obtain row cols where rc: "rc = (row, cols)" by (cases rc)
  have upd: "c\<lparr>horizontalPositionsToMeasure := p, horizontalPixelPositionsByScreenLineId := h\<rparr>
      = c\<lparr>horizontalPixelPositionsByScreenLineId := h, horizontalPositionsToMeasure := p\<rparr>" for h
    by simp
  show ?case
    unfolding rc
    by (simp add: Let_def upd Cons.IH split: option.splits sum.splits prod.splits)
qed

lemma request_twice_measured:
  "measured (measureHorizontalPositions
      (requestHorizontalMeasurement row col (requestHorizontalMeasurement row col c)))
   = measured (measureHorizontalPositions (requestHorizontalMeasurement row col c))"
proof -
  let ?p1 = "requestColumn (horizontalPositionsToMeasure c) row col"
  let ?p2 = "requestColumn ?p1 row col"
  have rows: "measureRows ?p2 c = measureRows ?p1 c"
    by (rule measureRows_sameRequests) (rule requestColumn_twice)
  show ?thesis
    by (simp add: measured_def measureHorizontalPositions_def requestHorizontalMeasurement_def
        measureRows_pending rows emit_def split: sum.splits prod.splits)
qed

lemma measure_keeps:
  assumes "measureHorizontalPositions c = Inr c'" and "columnZeroAtZero c"
  shows "columnZeroAtZero c'"
    and "cachedPosition c lineId col = Some v \<Longrightarrow> cachedPosition c' lineId col = Some v"
proof -
  from assms(1) obtain c1 qs where
    r: "measureRows (horizontalPositionsToMeasure c) c = Inr (c1, qs)"
    and c': "c' = emit (MeasureHorizontalPositions qs)
            (c1\<lparr>horizontalPositionsToMeasure :=
                  map (\<lambda>(row, columns). (row, sort columns)) (horizontalPositionsToMeasure c1)\<rparr>)"
    by (rule measureHorizontalPositions_Inr)
  note k = measureRows_keeps [OF r assms(2)]
  show "columnZeroAtZero c'" using k unfolding c' columnZeroAtZero_def by simp
  show "cachedPosition c lineId col = Some v \<Longrightarrow> cachedPosition c' lineId col = Some v"
    using k unfolding c' by simp
qed

lemma measure_cached:
  assumes "requestsCached c"
  shows "\<exists>c'. measureHorizontalPositions c = Inr c'
           \<and> events c' = events c @ [MeasureHorizontalPositions []]
           \<and> (\<forall>rc\<in>set (horizontalPositionsToMeasure c). \<forall>col\<in>set (snd rc).
                pixelLeftForScreenRowAndColumn c' (fst rc) col
                  = pixelLeftForScreenRowAndColumn c (fst rc) col)"
proof -
  from measureRows_cached [OF assms [unfolded requestsCached_def]] obtain c1 where
    r: "measureRows (horizontalPositionsToMeasure c) c = Inr (c1, [])"
    and p: "\<forall>i col. col \<noteq> 0 \<longrightarrow> cachedPosition c1 i col = cachedPosition c i col"
    and d: "\<forall>i. horizontalPixelPositionsByScreenLineId c i \<noteq> None \<longrightarrow>
                 horizontalPixelPositionsByScreenLineId c1 i \<noteq> None"
    by blast
  note only = measureRows_only_cache [OF r]
  let ?c' = "emit (MeasureHorizontalPositions [])
            (c1\<lparr>horizontalPositionsToMeasure :=
                  map (\<lambda>(row, columns). (row, sort columns)) (horizontalPositionsToMeasure c1)\<rparr>)"
  have m: "measureHorizontalPositions c = Inr ?c'"
    using r by (simp add: measureHorizontalPositions_def)
  have ev: "events ?c' = events c @ [MeasureHorizontalPositions []]"
    by (subst only) (simp add: emit_def)
  have dl: "displayLayer ?c' = displayLayer c"
    by (subst only) (simp add: emit_def)
  have cache: "horizontalPixelPositionsByScreenLineId ?c' = horizontalPixelPositionsByScreenLineId c1"
    by (simp add: emit_def)
  have same: "pixelLeftForScreenRowAndColumn ?c' (fst rc) col
                  = pixelLeftForScreenRowAndColumn c (fst rc) col"
    if rc: "rc \<in> set (horizontalPositionsToMeasure c)" and col: "col \<in> set (snd rc)" for rc col
  proof (cases "col = 0")
    case True
    then show ?thesis by (simp add: pixelLeftForScreenRowAndColumn_def)
  next
    case False
    from assms rc obtain sl :: screen_line and tns where
      sl: "getScreenLine (displayLayer c) (fst rc) = Some sl"
      and cached: "\<forall>col\<in>set (snd rc). col = 0 \<or> cachedPosition c (line_id sl) col \<noteq> None"
      unfolding requestsCached_def by blast
    from bspec [OF cached col] False have cp: "cachedPosition c (line_id sl) col \<noteq> None" by simp
    then have e: "horizontalPixelPositionsByScreenLineId c (line_id sl) \<noteq> None"
      by (auto simp: cachedPosition_def split: option.splits)
    with d have e': "horizontalPixelPositionsByScreenLineId ?c' (line_id sl) \<noteq> None"
      by (simp only: cache) simp
    have sl': "getScreenLine (displayLayer ?c') (fst rc) = Some sl" using sl by (simp only: dl)
    have "cachedPosition ?c' (line_id sl) col = cachedPosition c (line_id sl) col"
      using p False by simp
    then show ?thesis
      by (simp only: pixelLeft_cached [OF sl e False] pixelLeft_cached [OF sl' e' False])
  qed
  from m ev same show ?thesis by blast
qed

lemma columnZeroAtZero_new:
  "columnZeroAtZero
     (new_component rowsPerTile lineCount dl markers lastCursor longestRow sf patch)"
  by (simp add: columnZeroAtZero_def cachedPosition_def new_component_def)

lemma measureLoop_one_new:
  assumes "\<forall>x\<in>set cols. x = 0 \<or> x = col \<or> positions st x \<noteq> None"
    and "col \<in> set cols" and "positions st col = None" and "start < col"
    and "col \<le> start + length (concat (map textContent tns))"
    and "lineNodeClientLeft st = - 1"
  shows "\<exists>st' q. measureLoop sf (Some node) tns start cols st = Inr st'
           \<and> rangeQueryFor tns start col = Some q
           \<and> queries st' = queries st @ [q, ClientRectQuery node]
           \<and> positions st' col
               = map_option (\<lambda>x. x - clientLeft sf node) (offsetInRuns sf tns start col)
           \<and> offsetInRuns sf tns start col \<noteq> None
           \<and> (\<forall>x. x \<noteq> 0 \<longrightarrow> x \<noteq> col \<longrightarrow> positions st' x = positions st x)"
  using assms
proof (induction tns arbitrary: start cols st)
  case Nil
  then show ?case by simp
next
  case (Cons t ts)
  let ?e = "start + length (textContent t)"
  note outer = Cons.IH
  from Cons.prems show ?case
  proof (induction cols arbitrary: st)
    case Nil
    then show ?case by simp
  next
    case (Cons c cs)
    note all = Cons.prems(1) and mem = Cons.prems(2) and new = Cons.prems(3)
      and lt = Cons.prems(4) and le = Cons.prems(5) and left = Cons.prems(6)
    have col0: "col \<noteq> 0" using lt by simp
    consider (zero) "c = 0"
      | (cached) "c \<noteq> 0" "positions st c \<noteq> None"
      | (here) "c \<noteq> 0" "positions st c = None" "c \<le> ?e"
      | (later) "c \<noteq> 0" "positions st c = None" "?e < c"
      by linarith
    then show ?case
    proof cases
      case zero
      let ?st0 = "st\<lparr>positions := (positions st)(0 \<mapsto> 0)\<rparr>"
      have step: "measureLoop sf (Some node) (t # ts) start (c # cs) st
                    = measureLoop sf (Some node) (t # ts) start cs ?st0"
        using zero by (simp add: measureLoop_step)
      have a: "\<forall>x\<in>set cs. x = 0 \<or> x = col \<or> positions ?st0 x \<noteq> None" using all by auto
      have m: "col \<in> set cs" using mem zero col0 by simp
      have n: "positions ?st0 col = None" using new col0 by simp
      have l: "lineNodeClientLeft ?st0 = - 1" using left by simp
      from Cons.IH [OF a m n lt le l] obtain st' q where
        r: "measureLoop sf (Some node) (t # ts) start cs ?st0 = Inr st'"
        and q: "rangeQueryFor (t # ts) start col = Some q"
        and qs: "queries st' = queries ?st0 @ [q, ClientRectQuery node]"
        and p: "positions st' col
               = map_option (\<lambda>x. x - clientLeft sf node) (offsetInRuns sf (t # ts) start col)"
        and o: "offsetInRuns sf (t # ts) start col \<noteq> None"
        and k: "\<forall>x. x \<noteq> 0 \<longrightarrow> x \<noteq> col \<longrightarrow> positions st' x = positions ?st0 x"
        by blast
      have k': "\<forall>x. x \<noteq> 0 \<longrightarrow> x \<noteq> col \<longrightarrow> positions st' x = positions st x"
        using k by simp
      have qs': "queries st' = queries st @ [q, ClientRectQuery node]" using qs by simp
      from r q qs' p o k' show ?thesis
        unfolding step by (intro exI [of _ st'] exI [of _ q] conjI)
    next
      case cached
      have step: "measureLoop sf (Some node) (t # ts) start (c # cs) st
                    = measureLoop sf (Some node) (t # ts) start cs st"
        using cached by (simp add: measureLoop_step)
      have ne: "c \<noteq> col" using cached(2) new by auto
      have a: "\<forall>x\<in>set cs. x = 0 \<or> x = col \<or> positions st x \<noteq> None" using all by auto
      have m: "col \<in> set cs" using mem ne by simp
      from Cons.IH [OF a m new lt le left] show ?thesis unfolding step .
    next
      case here
      have ccol: "c = col" using all here(1,2) by simp
      let ?q = "RangeQuery t 0 (col - start)"
      let ?v = "rangeRight sf t 0 (col - start) - clientLeft sf node"
      let ?st1 = "st\<lparr>lineNodeClientLeft := clientLeft sf node,
                       queries := queries st @ [?q, ClientRectQuery node],
                       positions := (positions st)(col \<mapsto> ?v)\<rparr>"
      have mh: "measureHere sf (Some node) t start col st = Inr ?st1"
        using lt left by (simp add: measureHere_def Let_def)
      have step: "measureLoop sf (Some node) (t # ts) start (c # cs) st
                    = measureLoop sf (Some node) (t # ts) start cs ?st1"
        using here new col0 mh unfolding ccol by (simp add: measureLoop_step)
      have a: "\<forall>x\<in>set cs. x = 0 \<or> positions ?st1 x \<noteq> None" using all by auto
      from measureLoop_cached [OF a, of sf "Some node" "t # ts" start] obtain st' where
        r: "measureLoop sf (Some node) (t # ts) start cs ?st1 = Inr st'"
        and qs: "queries st' = queries ?st1"
        and k: "\<forall>x. x \<noteq> 0 \<longrightarrow> positions st' x = positions ?st1 x"
        by blast
      have q: "rangeQueryFor (t # ts) start col = Some ?q"
        using here(3) lt unfolding ccol by simp
      have o: "offsetInRuns sf (t # ts) start col = Some (rangeRight sf t 0 (col - start))"
        using here(3) lt unfolding ccol by simp
      have p: "positions st' col
               = map_option (\<lambda>x. x - clientLeft sf node) (offsetInRuns sf (t # ts) start col)"
        unfolding o using k col0 by simp
      have k': "\<forall>x. x \<noteq> 0 \<longrightarrow> x \<noteq> col \<longrightarrow> positions st' x = positions st x"
        using k by simp
      have qs': "queries st' = queries st @ [?q, ClientRectQuery node]" using qs by simp
      have o': "offsetInRuns sf (t # ts) start col \<noteq> None" using o by simp
      from r q qs' p o' k' show ?thesis
        unfolding step by (intro exI [of _ st'] exI [of _ ?q] conjI)
    next
      case later
      have ccol: "c = col" using all later(1,2) by simp
      have step: "measureLoop sf (Some node) (t # ts) start (c # cs) st
                    = measureLoop sf (Some node) ts ?e (c # cs) st"
        using later by (simp add: measureLoop_step)
      have lt': "?e < col" using later(3) ccol by simp
      have le': "col \<le> ?e + length (concat (map textContent ts))" using le by simp
      have q: "rangeQueryFor (t # ts) start col = rangeQueryFor ts ?e col"
        using lt' by simp
      have o: "offsetInRuns sf (t # ts) start col = offsetInRuns sf ts ?e col"
        using lt' by simp
      from outer [OF all mem new lt' le' left] show ?thesis unfolding step q o .
    qed
  qed
qed

lemma requestsCached_rows: "requestsCached c = rowsCached c (horizontalPositionsToMeasure c)"
  by (simp add: requestsCached_def rowsCached_def)

lemma rowsCached_Cons:
  "rowsCached c (rc # rest) \<longleftrightarrow> rowsCached c [rc] \<and> rowsCached c rest"
  by (simp add: rowsCached_def)

lemma rowsCached_mono:
  assumes "rowsCached c rows" and "displayLayer c1 = displayLayer c"
    and "textNodesByScreenLineId c1 = textNodesByScreenLineId c"
    and "\<And>i k. k \<noteq> 0 \<Longrightarrow> cachedPosition c i k \<noteq> None \<Longrightarrow> cachedPosition c1 i k \<noteq> None"
  shows "rowsCached c1 rows"
  unfolding rowsCached_def
proof
  fix rc assume "rc \<in> set rows"
  with assms(1) obtain sl :: screen_line and tns where
    a: "getScreenLine (displayLayer c) (fst rc) = Some sl"
    and b: "textNodesByScreenLineId c (line_id sl) = Some tns"
    and d: "\<forall>col\<in>set (snd rc). col = 0 \<or> cachedPosition c (line_id sl) col \<noteq> None"
    unfolding rowsCached_def by blast
  have "\<forall>col\<in>set (snd rc). col = 0 \<or> cachedPosition c1 (line_id sl) col \<noteq> None"
  proof
    fix col assume col: "col \<in> set (snd rc)"
    show "col = 0 \<or> cachedPosition c1 (line_id sl) col \<noteq> None"
    proof (cases "col = 0")
      case True
      then show ?thesis by simp
    next
      case False
      from bspec [OF d col] False have "cachedPosition c (line_id sl) col \<noteq> None" by simp
      from assms(4) [OF False this] show ?thesis ..
    qed
  qed
  moreover have "getScreenLine (displayLayer c1) (fst rc) = Some sl" using a assms(2) by simp
  moreover have "textNodesByScreenLineId c1 (line_id sl) = Some tns" using b assms(3) by simp
  ultimately show "\<exists>sl tns. getScreenLine (displayLayer c1) (fst rc) = Some sl
          \<and> textNodesByScreenLineId c1 (line_id sl) = Some tns
          \<and> (\<forall>col\<in>set (snd rc). col = 0 \<or> cachedPosition c1 (line_id sl) col \<noteq> None)"
    by (intro exI [of _ sl] exI [of _ tns] conjI)
qed

lemma measureRows_rowsCached:
  assumes "rowsCached c rows"
  shows "\<exists>c'. measureRows rows c = Inr (c', [])
          \<and> (\<forall>i col. col \<noteq> 0 \<longrightarrow> cachedPosition c' i col = cachedPosition c i col)"
  using measureRows_cached [OF assms [unfolded rowsCached_def]] by blast

lemma measuredOffset_cache_update [simp]:
  "measuredOffset (c\<lparr>horizontalPixelPositionsByScreenLineId := h\<rparr>) = measuredOffset c"
  by (auto simp: measuredOffset_def fun_eq_iff split: option.splits)

lemma measureOnLine_one_new:
  assumes node: "lineNodesByScreenLineId c lineId = Some node"
    and tns: "textNodesByScreenLineId c lineId = Some tns"
    and others: "\<forall>x\<in>set cols. x = 0 \<or> x = col \<or> cachedPosition c lineId x \<noteq> None"
    and mem: "col \<in> set cols" and new: "cachedPosition c lineId col = None"
    and pos: "0 < col" and le: "col \<le> length (concat (map textContent tns))"
  shows "\<exists>st q. measureHorizontalPositionsOnLine (surface c) (Some node) tns (sort cols)
                   (case horizontalPixelPositionsByScreenLineId c lineId of
                      None \<Rightarrow> Map.empty | Some ps \<Rightarrow> ps) = Inr st
           \<and> rangeQueryFor tns 0 col = Some q
           \<and> queries st = [q, ClientRectQuery node]
           \<and> positions st col = measuredOffset c lineId col
           \<and> measuredOffset c lineId col \<noteq> None
           \<and> (\<forall>x. x \<noteq> 0 \<longrightarrow> x \<noteq> col \<longrightarrow> positions st x = cachedPosition c lineId x)"
proof -
  let ?ps = "case horizontalPixelPositionsByScreenLineId c lineId of
          None \<Rightarrow> Map.empty | Some ps \<Rightarrow> ps"
  let ?st0 = "\<lparr>lineNodeClientLeft = - 1, positions = ?ps, queries = []\<rparr>"
  have a: "\<forall>x\<in>set (sort cols). x = 0 \<or> x = col \<or> positions ?st0 x \<noteq> None"
    using others by (simp add: positionsForLine_cached)
  have m: "col \<in> set (sort cols)" using mem by simp
  have n: "positions ?st0 col = None" using new by (simp add: positionsForLine_cached)
  have le': "col \<le> 0 + length (concat (map textContent tns))" using le by simp
  have l: "lineNodeClientLeft ?st0 = - 1" by simp
  from measureLoop_one_new [OF a m n pos le' l, of "surface c" node] obtain st q where
    r: "measureLoop (surface c) (Some node) tns 0 (sort cols) ?st0 = Inr st"
    and q: "rangeQueryFor tns 0 col = Some q"
    and qs: "queries st = queries ?st0 @ [q, ClientRectQuery node]"
    and p: "positions st col
               = map_option (\<lambda>x. x - clientLeft (surface c) node)
                   (offsetInRuns (surface c) tns 0 col)"
    and o: "offsetInRuns (surface c) tns 0 col \<noteq> None"
    and k: "\<forall>x. x \<noteq> 0 \<longrightarrow> x \<noteq> col \<longrightarrow> positions st x = positions ?st0 x"
    by blast
  have mo: "measuredOffset c lineId col
              = map_option (\<lambda>x. x - clientLeft (surface c) node)
                  (offsetInRuns (surface c) tns 0 col)"
    by (simp add: measuredOffset_def node tns)
  have 1: "measureHorizontalPositionsOnLine (surface c) (Some node) tns (sort cols) ?ps = Inr st"
    using r by (simp add: measureHorizontalPositionsOnLine_def)
  have 2: "queries st = [q, ClientRectQuery node]" using qs by simp
  have 3: "positions st col = measuredOffset c lineId col" using p mo by simp
  have 4: "measuredOffset c lineId col \<noteq> None" using o mo by simp
  have 5: "\<forall>x. x \<noteq> 0 \<longrightarrow> x \<noteq> col \<longrightarrow> positions st x = cachedPosition c lineId x"
    using k by (simp add: positionsForLine_cached)
  from 1 q 2 3 4 5 show ?thesis by (intro exI [of _ st] exI [of _ q] conjI)
qed

lemma measureRows_append:
  "measureRows (xs @ ys) c =
     (case measureRows xs c of
        Inl e \<Rightarrow> Inl e
      | Inr (c1, q1) \<Rightarrow>
          (case measureRows ys c1 of
             Inl e \<Rightarrow> Inl e
           | Inr (c2, q2) \<Rightarrow> Inr (c2, q1 @ q2)))"
proof (induction xs arbitrary: c)
  case Nil
  show ?case by (simp split: sum.splits prod.splits)
next
  case (Cons rc rest)
  obtain row cols where rc: "rc = (row, cols)" by (cases rc)
  show ?case
    unfolding rc by (simp add: Let_def Cons.IH split: option.splits sum.splits prod.splits)
qed

lemma measureRows_frame:
  assumes "measureRows rows c = Inr (c', qs)"
  shows "displayLayer c' = displayLayer c" "surface c' = surface c"
    "lineNodesByScreenLineId c' = lineNodesByScreenLineId c"
    "textNodesByScreenLineId c' = textNodesByScreenLineId c"
    "events c' = events c" "measuredOffset c' = measuredOffset c"
proof -
  note only = measureRows_only_cache [OF assms]
  show "displayLayer c' = displayLayer c" by (subst only) simp
  show "surface c' = surface c" by (subst only) simp
  show "lineNodesByScreenLineId c' = lineNodesByScreenLineId c" by (subst only) simp
  show "textNodesByScreenLineId c' = textNodesByScreenLineId c" by (subst only) simp
  show "events c' = events c" by (subst only) simp
  show "measuredOffset c' = measuredOffset c" by (subst only) simp
qed

lemma measureRows_single_new:
  assumes sl: "getScreenLine (displayLayer c) row = Some sl"
    and node: "lineNodesByScreenLineId c (line_id sl) = Some node"
    and tns: "textNodesByScreenLineId c (line_id sl) = Some tns"
    and others: "\<forall>x\<in>set cols. x = 0 \<or> x = col \<or> cachedPosition c (line_id sl) x \<noteq> None"
    and mem: "col \<in> set cols" and new: "cachedPosition c (line_id sl) col = None"
    and pos: "0 < col" and le: "col \<le> length (concat (map textContent tns))"
  shows "\<exists>c' q. measureRows [(row, cols)] c = Inr (c', [q, ClientRectQuery node])
           \<and> rangeQueryFor tns 0 col = Some q
           \<and> cachedPosition c' (line_id sl) col = measuredOffset c (line_id sl) col
           \<and> measuredOffset c (line_id sl) col \<noteq> None
           \<and> (\<forall>i k. k \<noteq> 0 \<longrightarrow> (i, k) \<noteq> (line_id sl, col) \<longrightarrow>
                 cachedPosition c' i k = cachedPosition c i k)"
proof -
  let ?ps = "case horizontalPixelPositionsByScreenLineId c (line_id sl) of
          None \<Rightarrow> Map.empty | Some ps \<Rightarrow> ps"
  from measureOnLine_one_new [OF node tns others mem new pos le] obtain st q where
    m: "measureHorizontalPositionsOnLine (surface c) (Some node) tns (sort cols) ?ps = Inr st"
    and q: "rangeQueryFor tns 0 col = Some q"
    and qs: "queries st = [q, ClientRectQuery node]"
    and p: "positions st col = measuredOffset c (line_id sl) col"
    and o: "measuredOffset c (line_id sl) col \<noteq> None"
    and k: "\<forall>x. x \<noteq> 0 \<longrightarrow> x \<noteq> col \<longrightarrow> positions st x = cachedPosition c (line_id sl) x"
    by blast
  let ?c1 = "c\<lparr>horizontalPixelPositionsByScreenLineId :=
            (horizontalPixelPositionsByScreenLineId c)(line_id sl \<mapsto> positions st)\<rparr>"
  have r: "measureRows [(row, cols)] c = Inr (?c1, [q, ClientRectQuery node])"
    using sl tns node m qs by (simp add: Let_def)
  have 3: "cachedPosition ?c1 (line_id sl) col = measuredOffset c (line_id sl) col"
    using p by (simp add: cachedPosition_update)
  have 5: "\<forall>i k. k \<noteq> 0 \<longrightarrow> (i, k) \<noteq> (line_id sl, col) \<longrightarrow>
                 cachedPosition ?c1 i k = cachedPosition c i k"
    using k by (simp add: cachedPosition_update)
  from r q 3 o 5 show ?thesis by (intro exI [of _ ?c1] exI [of _ q] conjI)
qed

lemma getScreenLine_cached_row:
  assumes "rowsCached c ((row, cols) # rest)" and "getScreenLine (displayLayer c) row = Some sl"
  shows "\<forall>x\<in>set cols. x = 0 \<or> cachedPosition c (line_id sl) x \<noteq> None"
  using assms by (auto simp: rowsCached_def)

lemma measureRows_request_new:
  assumes cached: "rowsCached c p"
    and sl: "getScreenLine (displayLayer c) row = Some sl"
    and node: "lineNodesByScreenLineId c (line_id sl) = Some node"
    and tns: "textNodesByScreenLineId c (line_id sl) = Some tns"
    and new: "cachedPosition c (line_id sl) col = None"
    and pos: "0 < col" and le: "col \<le> length (concat (map textContent tns))"
  shows "\<exists>c' q. measureRows (requestColumn p row col) c = Inr (c', [q, ClientRectQuery node])
           \<and> rangeQueryFor tns 0 col = Some q
           \<and> cachedPosition c' (line_id sl) col = measuredOffset c (line_id sl) col
           \<and> measuredOffset c (line_id sl) col \<noteq> None
           \<and> (\<forall>i k. k \<noteq> 0 \<longrightarrow> (i, k) \<noteq> (line_id sl, col) \<longrightarrow>
                 cachedPosition c' i k = cachedPosition c i k)"
  using cached sl node tns new
proof (induction p arbitrary: c)
  case Nil
  have "\<forall>x\<in>set [col]. x = 0 \<or> x = col \<or> cachedPosition c (line_id sl) x \<noteq> None" by simp
  from measureRows_single_new [OF Nil.prems(2,3,4) this _ Nil.prems(5) pos le]
  show ?case by simp
next
  case (Cons rc rest)
  obtain r cols where rc: "rc = (r, cols)" by (cases rc)
  note csl = Cons.prems(2) and cnode = Cons.prems(3) and ctns = Cons.prems(4)
    and cnew = Cons.prems(5)
  have restc: "rowsCached c rest" using Cons.prems(1) by (simp add: rowsCached_def)
  have col0: "col \<noteq> 0" using pos by simp
  show ?case
  proof (cases "r = row")
    case True
    have shape: "requestColumn (rc # rest) row col = [(row, cols @ [col])] @ rest"
      using True rc by simp
    have "\<forall>x\<in>set cols. x = 0 \<or> cachedPosition c (line_id sl) x \<noteq> None"
      using Cons.prems(1) csl unfolding rc True by (rule getScreenLine_cached_row)
    then have others: "\<forall>x\<in>set (cols @ [col]). x = 0 \<or> x = col
                          \<or> cachedPosition c (line_id sl) x \<noteq> None"
      by auto
    have mem: "col \<in> set (cols @ [col])" by simp
    from measureRows_single_new [OF csl cnode ctns others mem cnew pos le] obtain c1 q where
      h: "measureRows [(row, cols @ [col])] c = Inr (c1, [q, ClientRectQuery node])"
      and q: "rangeQueryFor tns 0 col = Some q"
      and e: "cachedPosition c1 (line_id sl) col = measuredOffset c (line_id sl) col"
      and o: "measuredOffset c (line_id sl) col \<noteq> None"
      and k: "\<forall>i k. k \<noteq> 0 \<longrightarrow> (i, k) \<noteq> (line_id sl, col) \<longrightarrow>
                 cachedPosition c1 i k = cachedPosition c i k"
      by blast
    note f = measureRows_frame [OF h]
    have mono: "cachedPosition c1 i k \<noteq> None" if "k \<noteq> 0" "cachedPosition c i k \<noteq> None" for i k
    proof (cases "(i, k) = (line_id sl, col)")
      case True
      then show ?thesis using e o by simp
    next
      case False
      with k that show ?thesis by simp
    qed
    have "rowsCached c1 rest" using restc f(1) f(4) mono by (rule rowsCached_mono)
    from measureRows_rowsCached [OF this] obtain c' where
      t: "measureRows rest c1 = Inr (c', [])"
      and same: "\<forall>i col. col \<noteq> 0 \<longrightarrow> cachedPosition c' i col = cachedPosition c1 i col"
      by blast
    have 1: "measureRows (requestColumn (rc # rest) row col) c
               = Inr (c', [q, ClientRectQuery node])"
      unfolding shape measureRows_append using h t by simp
    have 3: "cachedPosition c' (line_id sl) col = measuredOffset c (line_id sl) col"
      using same col0 e by simp
    have 5: "\<forall>i k. k \<noteq> 0 \<longrightarrow> (i, k) \<noteq> (line_id sl, col) \<longrightarrow>
                 cachedPosition c' i k = cachedPosition c i k"
      using same k by simp
    from 1 q 3 o 5 show ?thesis by (intro exI [of _ c'] exI [of _ q] conjI)
  next
    case False
    have shape: "requestColumn (rc # rest) row col = [rc] @ requestColumn rest row col"
      using False rc by simp
    have "rowsCached c [rc]" using Cons.prems(1) by (simp add: rowsCached_def)
    from measureRows_rowsCached [OF this] obtain c1 where
      h: "measureRows [rc] c = Inr (c1, [])"
      and same: "\<forall>i col. col \<noteq> 0 \<longrightarrow> cachedPosition c1 i col = cachedPosition c i col"
      by blast
    note f = measureRows_frame [OF h]
    have mono: "cachedPosition c1 i k \<noteq> None" if "k \<noteq> 0" "cachedPosition c i k \<noteq> None" for i k
      using same that by simp
    have rc1: "rowsCached c1 rest" using restc f(1) f(4) mono by (rule rowsCached_mono)
    have sl1: "getScreenLine (displayLayer c1) row = Some sl" using csl f(1) by simp
    have node1: "lineNodesByScreenLineId c1 (line_id sl) = Some node" using cnode f(3) by simp
    have tns1: "textNodesByScreenLineId c1 (line_id sl) = Some tns" using ctns f(4) by simp
    have new1: "cachedPosition c1 (line_id sl) col = None" using cnew same col0 by simp
    from Cons.IH [OF rc1 sl1 node1 tns1 new1] obtain c' q where
      t: "measureRows (requestColumn rest row col) c1 = Inr (c', [q, ClientRectQuery node])"
      and q: "rangeQueryFor tns 0 col = Some q"
      and e: "cachedPosition c' (line_id sl) col = measuredOffset c1 (line_id sl) col"
      and o: "measuredOffset c1 (line_id sl) col \<noteq> None"
      and k: "\<forall>i k. k \<noteq> 0 \<longrightarrow> (i, k) \<noteq> (line_id sl, col) \<longrightarrow>
                 cachedPosition c' i k = cachedPosition c1 i k"
      by blast
    have 1: "measureRows (requestColumn (rc # rest) row col) c
               = Inr (c', [q, ClientRectQuery node])"
      unfolding shape measureRows_append using h t by simp
    have 3: "cachedPosition c' (line_id sl) col = measuredOffset c (line_id sl) col"
      using e by (simp only: f(6))
    have 4: "measuredOffset c (line_id sl) col \<noteq> None" using o by (simp add: f(6))
    have 5: "\<forall>i k. k \<noteq> 0 \<longrightarrow> (i, k) \<noteq> (line_id sl, col) \<longrightarrow>
                 cachedPosition c' i k = cachedPosition c i k"
      using same k by simp
    from 1 q 3 4 5 show ?thesis by (intro exI [of _ c'] exI [of _ q] conjI)
  qed
qed

lemma request_twice_new:
  assumes cached: "requestsCached c"
    and sl: "getScreenLine (displayLayer c) row = Some sl"
    and node: "lineNodesByScreenLineId c (line_id sl) = Some node"
    and tns: "textNodesByScreenLineId c (line_id sl) = Some tns"
    and new: "cachedPosition c (line_id sl) col = None"
    and pos: "0 < col" and le: "col \<le> length (concat (map textContent tns))"
  shows "\<exists>c' q. measureHorizontalPositions
                  (requestHorizontalMeasurement row col (requestHorizontalMeasurement row col c))
                = Inr c'
           \<and> rangeQueryFor tns 0 col = Some q
           \<and> events c' = events c @ [MeasureHorizontalPositions [q, ClientRectQuery node]]
           \<and> cachedPosition c' (line_id sl) col = measuredOffset c (line_id sl) col
           \<and> measuredOffset c (line_id sl) col \<noteq> None
           \<and> (\<forall>i k. k \<noteq> 0 \<longrightarrow> (i, k) \<noteq> (line_id sl, col) \<longrightarrow>
                 cachedPosition c' i k = cachedPosition c i k)"
proof -
  let ?p = "horizontalPositionsToMeasure c"
  let ?p1 = "requestColumn ?p row col"
  let ?p2 = "requestColumn ?p1 row col"
  let ?c2 = "requestHorizontalMeasurement row col (requestHorizontalMeasurement row col c)"
  have rows: "measureRows ?p2 c = measureRows ?p1 c"
    by (rule measureRows_sameRequests) (rule requestColumn_twice)
  from cached have "rowsCached c ?p" by (simp add: requestsCached_rows)
  from measureRows_request_new [OF this sl node tns new pos le] obtain c1 q where
    m: "measureRows ?p1 c = Inr (c1, [q, ClientRectQuery node])"
    and q: "rangeQueryFor tns 0 col = Some q"
    and e: "cachedPosition c1 (line_id sl) col = measuredOffset c (line_id sl) col"
    and o: "measuredOffset c (line_id sl) col \<noteq> None"
    and k: "\<forall>i k. k \<noteq> 0 \<longrightarrow> (i, k) \<noteq> (line_id sl, col) \<longrightarrow>
                 cachedPosition c1 i k = cachedPosition c i k"
    by blast
  note f = measureRows_frame [OF m]
  let ?c' = "emit (MeasureHorizontalPositions [q, ClientRectQuery node])
               (c1\<lparr>horizontalPositionsToMeasure :=
                     map (\<lambda>(row, columns). (row, sort columns)) ?p2\<rparr>)"
  have 1: "measureHorizontalPositions ?c2 = Inr ?c'"
    by (simp add: measureHorizontalPositions_def requestHorizontalMeasurement_def
        measureRows_pending rows m)
  have 2: "events ?c' = events c @ [MeasureHorizontalPositions [q, ClientRectQuery node]]"
    using f(5) by (simp add: emit_def)
  have 3: "cachedPosition ?c' (line_id sl) col = measuredOffset c (line_id sl) col"
    using e by simp
  have 5: "\<forall>i k. k \<noteq> 0 \<longrightarrow> (i, k) \<noteq> (line_id sl, col) \<longrightarrow>
                 cachedPosition ?c' i k = cachedPosition c i k"
    using k by simp
  from 1 q 2 3 o 5 show ?thesis by (intro exI [of _ ?c'] exI [of _ q] conjI)
qed

text \<open>
  Claim C5. Horizontal measurement is idempotent. A column requested twice for a row in
  one cycle is measured as if it had been requested once: the pass ends with the same
  cache and the same layout queries. When the column is a new one of a rendered line, and
  the other pending requests are for cached columns, the pass issues exactly one range
  query, the one of that column (with the one reading of the left edge of the line), and
  leaves exactly one new entry in the cache, the measured offset of the column; no other
  entry of a column other than 0 changes. A pass never changes a position that is in the
  cache (on a cache whose column 0 entries are 0, as they always are). And when every
  pending request is for a cached column, or column 0, of a line that is still rendered,
  the pass issues no layout query at all and reading the positions gives the same values
  as before.
\<close>

theorem horizontal_measurement_is_idempotent:
  "measured (measureHorizontalPositions
      (requestHorizontalMeasurement row col (requestHorizontalMeasurement row col c)))
     = measured (measureHorizontalPositions (requestHorizontalMeasurement row col c))
   \<and> (requestsCached c \<longrightarrow> getScreenLine (displayLayer c) row = Some sl \<longrightarrow>
        lineNodesByScreenLineId c (line_id sl) = Some node \<longrightarrow>
        textNodesByScreenLineId c (line_id sl) = Some tns \<longrightarrow>
        cachedPosition c (line_id sl) col = None \<longrightarrow>
        0 < col \<longrightarrow> col \<le> length (concat (map textContent tns)) \<longrightarrow>
        (\<exists>c' q. measureHorizontalPositions
                   (requestHorizontalMeasurement row col
                      (requestHorizontalMeasurement row col c)) = Inr c'
           \<and> rangeQueryFor tns 0 col = Some q
           \<and> events c' = events c @ [MeasureHorizontalPositions [q, ClientRectQuery node]]
           \<and> cachedPosition c' (line_id sl) col = measuredOffset c (line_id sl) col
           \<and> measuredOffset c (line_id sl) col \<noteq> None
           \<and> (\<forall>lineId column. column \<noteq> 0 \<longrightarrow> (lineId, column) \<noteq> (line_id sl, col) \<longrightarrow>
                 cachedPosition c' lineId column = cachedPosition c lineId column)))
   \<and> (\<forall>c'. measureHorizontalPositions c = Inr c' \<longrightarrow> columnZeroAtZero c \<longrightarrow>
         columnZeroAtZero c'
         \<and> (\<forall>lineId column v. cachedPosition c lineId column = Some v \<longrightarrow>
               cachedPosition c' lineId column = Some v))
   \<and> (requestsCached c \<longrightarrow>
         (\<exists>c'. measureHorizontalPositions c = Inr c'
            \<and> events c' = events c @ [MeasureHorizontalPositions []]
            \<and> (\<forall>rc\<in>set (horizontalPositionsToMeasure c). \<forall>column\<in>set (snd rc).
                 pixelLeftForScreenRowAndColumn c' (fst rc) column
                   = pixelLeftForScreenRowAndColumn c (fst rc) column)))"
proof (intro conjI impI)
  show "measured (measureHorizontalPositions
      (requestHorizontalMeasurement row col (requestHorizontalMeasurement row col c)))
     = measured (measureHorizontalPositions (requestHorizontalMeasurement row col c))"
    by (rule request_twice_measured)
next
  assume "requestsCached c" "getScreenLine (displayLayer c) row = Some sl"
    "lineNodesByScreenLineId c (line_id sl) = Some node"
    "textNodesByScreenLineId c (line_id sl) = Some tns"
    "cachedPosition c (line_id sl) col = None"
    "0 < col" "col \<le> length (concat (map textContent tns))"
  then show "\<exists>c' q. measureHorizontalPositions
                   (requestHorizontalMeasurement row col
                      (requestHorizontalMeasurement row col c)) = Inr c'
           \<and> rangeQueryFor tns 0 col = Some q
           \<and> events c' = events c @ [MeasureHorizontalPositions [q, ClientRectQuery node]]
           \<and> cachedPosition c' (line_id sl) col = measuredOffset c (line_id sl) col
           \<and> measuredOffset c (line_id sl) col \<noteq> None
           \<and> (\<forall>lineId column. column \<noteq> 0 \<longrightarrow> (lineId, column) \<noteq> (line_id sl, col) \<longrightarrow>
                 cachedPosition c' lineId column = cachedPosition c lineId column)"
    by (rule request_twice_new)
next
  show "\<forall>c'. measureHorizontalPositions c = Inr c' \<longrightarrow> columnZeroAtZero c \<longrightarrow>
         columnZeroAtZero c'
         \<and> (\<forall>lineId column v. cachedPosition c lineId column = Some v \<longrightarrow>
               cachedPosition c' lineId column = Some v)"
    using measure_keeps [of c] by blast
next
  assume "requestsCached c"
  then show "\<exists>c'. measureHorizontalPositions c = Inr c'
            \<and> events c' = events c @ [MeasureHorizontalPositions []]
            \<and> (\<forall>rc\<in>set (horizontalPositionsToMeasure c). \<forall>column\<in>set (snd rc).
                 pixelLeftForScreenRowAndColumn c' (fst rc) column
                   = pixelLeftForScreenRowAndColumn c (fst rc) column)"
    by (rule measure_cached)
qed

lemma rendered_line_0:
  "getScreenLine (displayLayer rendered_component) 0 = Some (plain_line 0)"
  by (simp add: rendered_component_def scrolled_component_def plain_component_def
      new_component_def plain_layer_def getScreenLine_def js_index_def)

theorem horizontal_measurement_is_idempotent_witness:
  "requestsCached rendered_component \<and> columnZeroAtZero rendered_component
   \<and> cachedPosition rendered_component 0 3 = Some 24
   \<and> cachedPosition rendered_component 0 4 = None
   \<and> (\<exists>c'. measureHorizontalPositions
              (requestHorizontalMeasurement 0 4
                 (requestHorizontalMeasurement 0 4 rendered_component)) = Inr c'
         \<and> events c' = events rendered_component
              @ [MeasureHorizontalPositions
                   [RangeQuery \<lparr>owner_line = 0, node_index = 1, textContent = ''def''\<rparr> 0 1,
                    ClientRectQuery
                      (Element ''div'' ''line''
                         [Element ''span'' []
                            [Text \<lparr>owner_line = 0, node_index = 0, textContent = ''abc''\<rparr>,
                             Text \<lparr>owner_line = 0, node_index = 1, textContent = ''def''\<rparr>]])]]
         \<and> cachedPosition c' 0 4 = Some 32 \<and> cachedPosition c' 0 3 = Some 24)
   \<and> (\<exists>c'. measureHorizontalPositions rendered_component = Inr c'
         \<and> columnZeroAtZero c' \<and> cachedPosition c' 0 3 = Some 24
         \<and> events c' = events rendered_component @ [MeasureHorizontalPositions []]
         \<and> pixelLeftForScreenRowAndColumn c' 0 3
             = pixelLeftForScreenRowAndColumn rendered_component 0 3)"
proof -
  let ?c = rendered_component
  let ?abc = "\<lparr>owner_line = 0, node_index = 0, textContent = ''abc''\<rparr>"
  let ?def = "\<lparr>owner_line = 0, node_index = 1, textContent = ''def''\<rparr>"
  let ?node = "Element ''div'' ''line'' [Element ''span'' [] [Text ?abc, Text ?def]]"
  have pend: "horizontalPositionsToMeasure ?c = [(0, [3, 0])]"
    by (simp add: rendered_component_def)
  have cp: "cachedPosition ?c 0 3 = Some 24"
    by (simp add: cachedPosition_def rendered_component_def)
  have new: "cachedPosition ?c (line_id (plain_line 0)) 4 = None"
    by (simp add: cachedPosition_def rendered_component_def plain_line_def)
  have z: "columnZeroAtZero ?c"
    by (simp add: columnZeroAtZero_def cachedPosition_def rendered_component_def)
  have node: "lineNodesByScreenLineId ?c (line_id (plain_line 0)) = Some ?node"
    by (simp add: rendered_component_def plain_line_def)
  have tns: "textNodesByScreenLineId ?c (line_id (plain_line 0)) = Some [?abc, ?def]"
    by (simp add: rendered_component_def plain_line_def)
  have cp': "cachedPosition ?c (line_id (plain_line 0)) 3 \<noteq> None"
    using cp by (simp add: plain_line_def)
  have rq: "requestsCached ?c"
    unfolding requestsCached_def pend using rendered_line_0 tns cp' by auto
  have le: "(4::nat) \<le> length (concat (map textContent [?abc, ?def]))" by simp
  have mo: "measuredOffset ?c (line_id (plain_line 0)) 4 = Some 32"
    by (simp add: measuredOffset_def rendered_component_def plain_line_def
        scrolled_component_def plain_component_def new_component_def fixed_pitch_surface_def)
  have id0: "line_id (plain_line 0) = 0" by (simp add: plain_line_def)
  note t = horizontal_measurement_is_idempotent
             [of 0 4 ?c "plain_line 0" ?node "[?abc, ?def]"]
  from t rq rendered_line_0 node tns new le obtain c1 q where
    m1: "measureHorizontalPositions
           (requestHorizontalMeasurement 0 4 (requestHorizontalMeasurement 0 4 ?c)) = Inr c1"
    and q: "rangeQueryFor [?abc, ?def] 0 4 = Some q"
    and ev1: "events c1 = events ?c @ [MeasureHorizontalPositions [q, ClientRectQuery ?node]]"
    and e1: "cachedPosition c1 (line_id (plain_line 0)) 4
               = measuredOffset ?c (line_id (plain_line 0)) 4"
    and k1: "\<forall>lineId column. column \<noteq> 0 \<longrightarrow> (lineId, column) \<noteq> (line_id (plain_line 0), 4) \<longrightarrow>
                 cachedPosition c1 lineId column = cachedPosition ?c lineId column"
    by auto
  have q': "q = RangeQuery ?def 0 1" using q by simp
  have a1: "cachedPosition c1 0 4 = Some 32" using e1 mo id0 by simp
  have a2: "cachedPosition c1 0 3 = Some 24" using k1 cp id0 by simp
  have ev1': "events c1 = events ?c
      @ [MeasureHorizontalPositions [RangeQuery ?def 0 1, ClientRectQuery ?node]]"
    using ev1 q' by simp
  from t rq obtain c' where
    m: "measureHorizontalPositions ?c = Inr c'"
    and ev: "events c' = events ?c @ [MeasureHorizontalPositions []]"
    and same: "\<forall>rc\<in>set (horizontalPositionsToMeasure ?c). \<forall>column\<in>set (snd rc).
                 pixelLeftForScreenRowAndColumn c' (fst rc) column
                   = pixelLeftForScreenRowAndColumn ?c (fst rc) column"
    by blast
  from t m z cp have z': "columnZeroAtZero c'" and cp2: "cachedPosition c' 0 3 = Some 24"
    by blast+
  from same have s3: "pixelLeftForScreenRowAndColumn c' 0 3
                        = pixelLeftForScreenRowAndColumn ?c 0 3"
    unfolding pend by simp
  have new0: "cachedPosition ?c 0 4 = None" using new id0 by simp
  have A: "\<exists>c'. measureHorizontalPositions
              (requestHorizontalMeasurement 0 4
                 (requestHorizontalMeasurement 0 4 rendered_component)) = Inr c'
         \<and> events c' = events rendered_component
              @ [MeasureHorizontalPositions [RangeQuery ?def 0 1, ClientRectQuery ?node]]
         \<and> cachedPosition c' 0 4 = Some 32 \<and> cachedPosition c' 0 3 = Some 24"
    using m1 ev1' a1 a2 by (intro exI [of _ c1] conjI)
  have B: "\<exists>c'. measureHorizontalPositions rendered_component = Inr c'
         \<and> columnZeroAtZero c' \<and> cachedPosition c' 0 3 = Some 24
         \<and> events c' = events rendered_component @ [MeasureHorizontalPositions []]
         \<and> pixelLeftForScreenRowAndColumn c' 0 3
             = pixelLeftForScreenRowAndColumn rendered_component 0 3"
    using m z' cp2 ev s3 by (intro exI [of _ c'] conjI)
  from rq z cp new0 A B show ?thesis by (intro conjI)
qed

section \<open>The update cycle\<close>

lemma sameScheduling_refl [simp]: "sameScheduling c c"
  by (simp add: sameScheduling_def)

lemma sameScheduling_trans:
  "sameScheduling a b \<Longrightarrow> sameScheduling b c \<Longrightarrow> sameScheduling a c"
  by (simp add: sameScheduling_def)

lemma sameCache_refl [simp]: "sameCache c c"
  by (simp add: sameCache_def)

lemma sameCache_trans: "sameCache a b \<Longrightarrow> sameCache b c \<Longrightarrow> sameCache a c"
  by (simp add: sameCache_def)

lemma cacheGrows_refl [simp]: "cacheGrows c c"
  by (simp add: cacheGrows_def)

lemma cacheGrows_trans: "cacheGrows a b \<Longrightarrow> cacheGrows b c \<Longrightarrow> cacheGrows a c"
  unfolding cacheGrows_def by blast

lemma sameCache_grows: "sameCache c c' \<Longrightarrow> cacheGrows c c'"
  by (simp add: sameCache_def cacheGrows_def columnZeroAtZero_def cachedPosition_def)

lemma advances_trans:
  "advances a b e1 \<Longrightarrow> advances b c e2 \<Longrightarrow> advances a c (e1 @ e2)"
  unfolding advances_def
  by (auto intro: sameScheduling_trans cacheGrows_trans)

lemma advances_refl: "advances c c []"
  by (simp add: advances_def)

lemma advancesI:
  "sameScheduling c c' \<and> sameCache c c' \<and> events c' = events c @ evs \<Longrightarrow> advances c c' evs"
  by (simp add: advances_def sameCache_grows)

lemma LineComponent_frame:
  "LineComponent l c = Inr c' \<Longrightarrow>
   sameScheduling c c' \<and> sameCache c c' \<and> events c' = events c"
  by (auto simp: LineComponent_def Let_def sameScheduling_def sameCache_def
      split: sum.splits option.splits if_splits)

lemma destroy_frame:
  "sameScheduling c (LineComponent_destroy l c) \<and> sameCache c (LineComponent_destroy l c)
   \<and> events (LineComponent_destroy l c) = events c"
  by (simp add: LineComponent_destroy_def sameScheduling_def sameCache_def)

lemma applyLifecycle_frame:
  "applyLifecycle ops c = Inr c' \<Longrightarrow>
   sameScheduling c c' \<and> sameCache c c' \<and> events c' = events c"
proof (induction ops c rule: applyLifecycle.induct)
  case (1 c)
  then show ?case by simp
next
  case (2 l rest c)
  from 2(2) obtain c1 where a: "LineComponent l c = Inr c1"
    and b: "applyLifecycle rest c1 = Inr c'"
    by (auto split: sum.splits)
  from LineComponent_frame [OF a] 2(1) [OF a b] show ?case
    by (auto intro: sameScheduling_trans sameCache_trans)
next
  case (3 l rest c)
  from 3(2) have b: "applyLifecycle rest (LineComponent_destroy l c) = Inr c'" by simp
  from destroy_frame [of c l] 3(1) [OF b] show ?case
    by (auto intro: sameScheduling_trans sameCache_trans)
qed

lemma renderLineTiles_frame:
  "renderLineTiles c = Inr (nodes, c') \<Longrightarrow>
   sameScheduling c c' \<and> sameCache c c' \<and> events c' = events c"
  by (auto simp: renderLineTiles_def Let_def sameScheduling_def sameCache_def
      split: option.splits if_splits prod.splits)

lemma etch_updateSync_frame:
  assumes "etch_updateSync c = Inr c'"
  shows "sameScheduling c c' \<and> sameCache c c' \<and> events c' = events c @ [EtchUpdateSync]"
proof (cases "measurements c")
  case None
  with assms show ?thesis
    by (auto simp: etch_updateSync_def emit_def sameScheduling_def sameCache_def)
next
  case (Some m)
  with assms obtain nodes c1 c2 where
    r: "renderLineTiles c = Inr (nodes, c1)"
    and ops: "applyLifecycle (etchPatch c1 (renderedChildren c1) nodes) c1 = Inr c2"
    and c': "c' = emit EtchUpdateSync (c2\<lparr>renderedChildren := nodes\<rparr>)"
    by (auto simp: etch_updateSync_def Let_def split: sum.splits prod.splits)
  note f1 = renderLineTiles_frame [OF r]
  note f2 = applyLifecycle_frame [OF ops]
  show ?thesis
    using f1 f2 unfolding c'
    by (simp add: sameScheduling_def sameCache_def emit_def)
qed

lemma measureEditorDimensions_frame:
  "measureEditorDimensions c = Inr (changed, c') \<Longrightarrow>
   sameScheduling c c' \<and> sameCache c c' \<and> events c' = events c @ [MeasureEditorDimensions]"
  by (auto simp: measureEditorDimensions_def Let_def emit_def sameScheduling_def sameCache_def
      split: option.splits)

lemma measureScrollPosition_frame:
  "measureScrollPosition c = Inr c' \<Longrightarrow>
   sameScheduling c c' \<and> sameCache c c' \<and> events c' = events c @ [MeasureScrollPosition]"
  by (auto simp: measureScrollPosition_def emit_def sameScheduling_def sameCache_def
      split: option.splits)

lemma getLongestScreenLine_frame:
  "getLongestScreenLine c m = (l, c') \<Longrightarrow>
   c' = emit GetApproximateLongestScreenRow
          (populateSpatialIndexIfNeeded (longestLine_renderedEndRow c m) c)"
  by (auto simp: getLongestScreenLine_def getApproximateLongestScreenRow_def Let_def)

lemma measureLongestLineWidth_frame:
  "measureLongestLineWidth l c = Inr c' \<Longrightarrow>
   sameScheduling c c' \<and> sameCache c c' \<and> events c' = events c @ [MeasureLongestLineWidth]"
  by (auto simp: measureLongestLineWidth_def emit_def sameScheduling_def sameCache_def
      split: option.splits)

lemma queryCursor_frame:
  "sameScheduling c (queryCursor mk c) \<and> sameCache c (queryCursor mk c)
   \<and> events (queryCursor mk c) = events c"
  by (simp add: queryCursor_def Let_def requestHorizontalMeasurement_def sameScheduling_def
      sameCache_def split: prod.splits)

lemma fold_queryCursor_frame:
  "sameScheduling c (fold queryCursor mks c) \<and> sameCache c (fold queryCursor mks c)
   \<and> events (fold queryCursor mks c) = events c"
proof (induction mks arbitrary: c)
  case Nil
  show ?case by simp
next
  case (Cons mk mks)
  from queryCursor_frame [of c mk] Cons.IH [of "queryCursor mk c"] show ?case
    by (auto intro: sameScheduling_trans sameCache_trans)
qed

lemma queryCursorsToRender_frame:
  assumes "queryCursorsToRender c = Inr c'"
  shows "sameScheduling c c' \<and> sameCache c c' \<and> events c' = events c @ [QueryCursorsToRender]"
proof -
  from assms obtain m where m: "measurements c = Some m"
    by (auto simp: queryCursorsToRender_def split: option.splits)
  let ?c0 = "c\<lparr>cursorsToRender := [], inputScreenPosition := None\<rparr>"
  let ?mks = "findMarkers (selectionsMarkerLayer c) (getRenderedStartRow c m)
                   (getRenderedEndRow c m - 1)"
  have c': "c' = emit QueryCursorsToRender (fold queryCursor ?mks ?c0)"
    using assms m by (simp add: queryCursorsToRender_def Let_def)
  from fold_queryCursor_frame [of ?c0 ?mks] show ?thesis
    unfolding c' by (simp add: emit_def sameScheduling_def sameCache_def)
qed

lemma positionCursorsToRender_frame:
  "positionCursorsToRender c = Inr c' \<Longrightarrow>
   sameScheduling c c' \<and> sameCache c c' \<and> events c' = events c @ [PositionCursorsToRender]"
  by (auto simp: positionCursorsToRender_def emit_def sameScheduling_def sameCache_def
      split: option.splits sum.splits)

lemma measureRows_domain:
  "measureRows rows c = Inr (c', qs) \<Longrightarrow>
   horizontalPixelPositionsByScreenLineId c lineId \<noteq> None \<Longrightarrow>
   horizontalPixelPositionsByScreenLineId c' lineId \<noteq> None"
proof (induction rows arbitrary: c qs)
  case Nil
  then show ?case by simp
next
  case (Cons rc rest)
  obtain row cols where rc: "rc = (row, cols)" by (cases rc)
  from Cons.prems(1) [unfolded rc] obtain sl :: screen_line and tns :: "text_node list"
    and st :: line_measurement and qs' where
    r: "measureRows rest
       (c\<lparr>horizontalPixelPositionsByScreenLineId :=
            (horizontalPixelPositionsByScreenLineId c)(line_id sl \<mapsto> positions st)\<rparr>)
       = Inr (c', qs')"
    by (rule measureRows_Cons_Inr)
  from Cons.IH [OF r] Cons.prems(2) show ?case by simp
qed

lemma measureRows_grows:
  assumes "measureRows rows c = Inr (c', qs)"
  shows "cacheGrows c c'"
  unfolding cacheGrows_def
  using measureRows_domain [OF assms] measureRows_keeps [OF assms] by blast

lemma measureHorizontalPositions_frame:
  assumes "measureHorizontalPositions c = Inr c'"
  shows "sameScheduling c c' \<and> cacheGrows c c'
         \<and> (\<exists>qs. events c' = events c @ [MeasureHorizontalPositions qs])"
proof -
  from assms obtain c1 qs where
    r: "measureRows (horizontalPositionsToMeasure c) c = Inr (c1, qs)"
    and c': "c' = emit (MeasureHorizontalPositions qs)
            (c1\<lparr>horizontalPositionsToMeasure :=
                  map (\<lambda>(row, columns). (row, sort columns)) (horizontalPositionsToMeasure c1)\<rparr>)"
    by (rule measureHorizontalPositions_Inr)
  note only = measureRows_only_cache [OF r]
  have s: "sameScheduling c c1" and e: "events c1 = events c"
    by (subst only, simp add: sameScheduling_def)+
  have g: "cacheGrows c1 c'"
    unfolding c' by (rule sameCache_grows) (simp add: sameCache_def emit_def)
  have "sameScheduling c c'" using s unfolding c' by (simp add: emit_def sameScheduling_def)
  moreover have "cacheGrows c c'" using measureRows_grows [OF r] g by (rule cacheGrows_trans)
  moreover have "events c' = events c @ [MeasureHorizontalPositions qs]"
    using e unfolding c' by (simp add: emit_def)
  ultimately show ?thesis by blast
qed

lemma resolve_frame:
  fixes c :: component
  defines "c0 \<equiv> resolveNextUpdatePromise (c\<lparr>updateScheduled := False\<rparr>)"
  shows "events c0 = events c
           @ (case nextUpdatePromise c of None \<Rightarrow> [] | Some p \<Rightarrow> [ResolveNextUpdatePromise p])"
    "nextUpdatePromise c0 = None"
    "pendingReactions c0 =
       pendingReactions c @ (case nextUpdatePromise c of None \<Rightarrow> [] | Some p \<Rightarrow> [p])"
    "promisesCreated c0 = promisesCreated c" "visible c0 = visible c"
    "updateScheduled c0 = False" "scheduledCallbacks c0 = scheduledCallbacks c"
    "sameCache c c0"
  unfolding c0_def
  by (cases "nextUpdatePromise c";
      simp add: resolveNextUpdatePromise_def emit_def sameCache_def)+

lemma map_sum_snd_Inr: "map_sum id snd r = Inr x \<Longrightarrow> \<exists>b. r = Inr (b, x)"
  by (cases r) auto

lemma updateSync_Inr:
  assumes "updateSync c = Inr c'"
  obtains stale c1 m longestLine c2 c5 c6 c7 c8 c9 where
    "staleMeasurements c = Some stale"
    "(if stale
      then map_sum id snd
             (measureEditorDimensions (resolveNextUpdatePromise (c\<lparr>updateScheduled := False\<rparr>)))
      else Inr (resolveNextUpdatePromise (c\<lparr>updateScheduled := False\<rparr>))) = Inr c1"
    "measurements c1 = Some m"
    "getLongestScreenLine c1 m = (longestLine, c2)"
    "etch_updateSync
       (emit ClearPositionsToMeasure
          ((if longestLine \<noteq> previousLongestLine c2
            then c2\<lparr>longestLineToMeasure := longestLine, previousLongestLine := longestLine\<rparr>
            else c2)\<lparr>horizontalPositionsToMeasure := []\<rparr>)) = Inr c5"
    "(if longestLine \<noteq> previousLongestLine c2
      then measureLongestLineWidth longestLine c5 else Inr c5) = Inr c6"
    "queryCursorsToRender c6 = Inr c7"
    "measureHorizontalPositions c7 = Inr c8"
    "positionCursorsToRender c8 = Inr c9"
    "etch_updateSync c9 = Inr c'"
proof -
  let ?c0 = "resolveNextUpdatePromise (c\<lparr>updateScheduled := False\<rparr>)"
  have st: "staleMeasurements ?c0 = staleMeasurements c"
    by (simp add: resolveNextUpdatePromise_def emit_def split: option.splits)
  from assms obtain stale where s: "staleMeasurements c = Some stale"
    by (cases "staleMeasurements c") (simp_all add: updateSync_def Let_def st)
  let ?r1 = "if stale then map_sum id snd (measureEditorDimensions ?c0) else Inr ?c0"
  from assms s obtain c1 where r1: "?r1 = Inr c1"
    by (cases ?r1) (simp_all add: updateSync_def Let_def st)
  from assms s r1 obtain m where m: "measurements c1 = Some m"
    by (cases "measurements c1") (simp_all add: updateSync_def Let_def st)
  obtain longestLine c2 where g: "getLongestScreenLine c1 m = (longestLine, c2)"
    by (cases "getLongestScreenLine c1 m")
  let ?c4 = "emit ClearPositionsToMeasure
          ((if longestLine \<noteq> previousLongestLine c2
            then c2\<lparr>longestLineToMeasure := longestLine, previousLongestLine := longestLine\<rparr>
            else c2)\<lparr>horizontalPositionsToMeasure := []\<rparr>)"
  have u: "updateSync c =
    (case etch_updateSync ?c4 of
       Inl e \<Rightarrow> Inl e
     | Inr c5 \<Rightarrow>
         (case (if longestLine \<noteq> previousLongestLine c2
                then measureLongestLineWidth longestLine c5 else Inr c5) of
            Inl e \<Rightarrow> Inl e
          | Inr c6 \<Rightarrow>
              (case queryCursorsToRender c6 of
                 Inl e \<Rightarrow> Inl e
               | Inr c7 \<Rightarrow>
                   (case measureHorizontalPositions c7 of
                      Inl e \<Rightarrow> Inl e
                    | Inr c8 \<Rightarrow>
                        (case positionCursorsToRender c8 of
                           Inl e \<Rightarrow> Inl e
                         | Inr c9 \<Rightarrow> etch_updateSync c9)))))"
    using s r1 m g by (simp add: updateSync_def Let_def st)
  from assms [unfolded u] obtain c5 where e5: "etch_updateSync ?c4 = Inr c5"
    by (cases "etch_updateSync ?c4") simp_all
  let ?r6 = "if longestLine \<noteq> previousLongestLine c2
                then measureLongestLineWidth longestLine c5 else Inr c5"
  from assms [unfolded u] e5 obtain c6 where e6: "?r6 = Inr c6"
    by (cases ?r6) simp_all
  from assms [unfolded u] e5 e6 obtain c7 where e7: "queryCursorsToRender c6 = Inr c7"
    by (cases "queryCursorsToRender c6") simp_all
  from assms [unfolded u] e5 e6 e7 obtain c8 where e8: "measureHorizontalPositions c7 = Inr c8"
    by (cases "measureHorizontalPositions c7") simp_all
  from assms [unfolded u] e5 e6 e7 e8 obtain c9 where e9: "positionCursorsToRender c8 = Inr c9"
    by (cases "positionCursorsToRender c8") simp_all
  from assms [unfolded u] e5 e6 e7 e8 e9 have e10: "etch_updateSync c9 = Inr c'" by simp
  from s r1 m g e5 e6 e7 e8 e9 e10 show ?thesis by (rule that)
qed

text \<open>
  An update cycle that completes resolves the promise of the next update, if there is one,
  and then goes through the steps of \<open>cycleTrace\<close>; it leaves the visibility, the
  scheduler and the number of promises alone, clears \<^verbatim>\<open>updateScheduled\<close>, and lets the
  cache of horizontal positions only grow.
\<close>

lemma updateSync_cycle:
  assumes "updateSync c = Inr c'"
  shows "\<exists>stale bound longestChanged qs.
           events c' = events c
             @ (case nextUpdatePromise c of None \<Rightarrow> [] | Some p \<Rightarrow> [ResolveNextUpdatePromise p])
             @ cycleTrace stale bound longestChanged qs"
    and "nextUpdatePromise c' = None"
    and "pendingReactions c' =
           pendingReactions c @ (case nextUpdatePromise c of None \<Rightarrow> [] | Some p \<Rightarrow> [p])"
    and "promisesCreated c' = promisesCreated c"
    and "visible c' = visible c"
    and "updateScheduled c' = False"
    and "scheduledCallbacks c' = scheduledCallbacks c"
    and "cacheGrows c c'"
proof -
  let ?c0 = "resolveNextUpdatePromise (c\<lparr>updateScheduled := False\<rparr>)"
  let ?res = "case nextUpdatePromise c of None \<Rightarrow> [] | Some p \<Rightarrow> [ResolveNextUpdatePromise p]"
  from assms obtain stale c1 m longestLine c2 c5 c6 c7 c8 c9 where
    s: "staleMeasurements c = Some stale"
    and r1: "(if stale then map_sum id snd (measureEditorDimensions ?c0) else Inr ?c0) = Inr c1"
    and m: "measurements c1 = Some m"
    and g: "getLongestScreenLine c1 m = (longestLine, c2)"
    and e5: "etch_updateSync
       (emit ClearPositionsToMeasure
          ((if longestLine \<noteq> previousLongestLine c2
            then c2\<lparr>longestLineToMeasure := longestLine, previousLongestLine := longestLine\<rparr>
            else c2)\<lparr>horizontalPositionsToMeasure := []\<rparr>)) = Inr c5"
    and e6: "(if longestLine \<noteq> previousLongestLine c2
      then measureLongestLineWidth longestLine c5 else Inr c5) = Inr c6"
    and e7: "queryCursorsToRender c6 = Inr c7"
    and e8: "measureHorizontalPositions c7 = Inr c8"
    and e9: "positionCursorsToRender c8 = Inr c9"
    and e10: "etch_updateSync c9 = Inr c'"
    by (rule updateSync_Inr)
  let ?c4 = "emit ClearPositionsToMeasure
          ((if longestLine \<noteq> previousLongestLine c2
            then c2\<lparr>longestLineToMeasure := longestLine, previousLongestLine := longestLine\<rparr>
            else c2)\<lparr>horizontalPositionsToMeasure := []\<rparr>)"
  let ?lc = "longestLine \<noteq> previousLongestLine c2"
  note f0 = resolve_frame [of c]
  have a1: "advances ?c0 c1 (if stale then [MeasureEditorDimensions] else [])"
  proof (cases stale)
    case True
    with r1 have "map_sum id snd (measureEditorDimensions ?c0) = Inr c1" by (simp only: if_True)
    from map_sum_snd_Inr [OF this] obtain changed where
      "measureEditorDimensions ?c0 = Inr (changed, c1)" ..
    from measureEditorDimensions_frame [OF this] have "advances ?c0 c1 [MeasureEditorDimensions]"
      by (rule advancesI)
    with True show ?thesis by (simp only: if_True)
  next
    case False
    with r1 have "Inr ?c0 = (Inr c1 :: error + component)" by (simp only: if_False)
    then have "c1 = ?c0" by (simp only: sum.inject)
    then have "advances ?c0 c1 []" by (simp only: advances_refl)
    with False show ?thesis by (simp only: if_False)
  qed
  have c2: "c2 = emit GetApproximateLongestScreenRow
                    (populateSpatialIndexIfNeeded (longestLine_renderedEndRow c1 m) c1)"
    using g by (rule getLongestScreenLine_frame)
  have "sameScheduling c1 ?c4 \<and> sameCache c1 ?c4
        \<and> events ?c4 = events c1
             @ [PopulateSpatialIndexIfNeeded (longestLine_renderedEndRow c1 m),
                GetApproximateLongestScreenRow, ClearPositionsToMeasure]"
    unfolding c2
    by (simp add: populateSpatialIndexIfNeeded_def emit_def sameScheduling_def sameCache_def)
  then have a4: "advances c1 ?c4 [PopulateSpatialIndexIfNeeded (longestLine_renderedEndRow c1 m),
                             GetApproximateLongestScreenRow, ClearPositionsToMeasure]"
    by (rule advancesI)
  have a5: "advances ?c4 c5 [EtchUpdateSync]"
    using etch_updateSync_frame [OF e5] by (rule advancesI)
  have a6: "advances c5 c6 (if ?lc then [MeasureLongestLineWidth] else [])"
  proof (cases ?lc)
    case True
    with e6 have "measureLongestLineWidth longestLine c5 = Inr c6" by simp
    from measureLongestLineWidth_frame [OF this] have "advances c5 c6 [MeasureLongestLineWidth]"
      by (rule advancesI)
    with True show ?thesis by simp
  next
    case False
    with e6 have "c6 = c5" by simp
    then have "advances c5 c6 []" by (simp only: advances_refl)
    with False show ?thesis by simp
  qed
  have a7: "advances c6 c7 [QueryCursorsToRender]"
    using queryCursorsToRender_frame [OF e7] by (rule advancesI)
  from measureHorizontalPositions_frame [OF e8] obtain qs where
    a8: "advances c7 c8 [MeasureHorizontalPositions qs]"
    unfolding advances_def by blast
  have a9: "advances c8 c9 [PositionCursorsToRender]"
    using positionCursorsToRender_frame [OF e9] by (rule advancesI)
  have a10: "advances c9 c' [EtchUpdateSync]"
    using etch_updateSync_frame [OF e10] by (rule advancesI)
  note chain = advances_trans [OF advances_trans [OF advances_trans [OF advances_trans
      [OF advances_trans [OF advances_trans [OF advances_trans [OF a1 a4] a5] a6] a7] a8] a9] a10]
  have tr: "((if stale then [MeasureEditorDimensions] else []) @
       [PopulateSpatialIndexIfNeeded (longestLine_renderedEndRow c1 m),
        GetApproximateLongestScreenRow, ClearPositionsToMeasure]) @
      [EtchUpdateSync] @ (if ?lc then [MeasureLongestLineWidth] else []) @
      [QueryCursorsToRender] @ [MeasureHorizontalPositions qs] @ [PositionCursorsToRender] @
      [EtchUpdateSync] = cycleTrace stale (longestLine_renderedEndRow c1 m) ?lc qs"
    by (simp add: cycleTrace_def)
  have all: "advances ?c0 c' (cycleTrace stale (longestLine_renderedEndRow c1 m) ?lc qs)"
    using chain by (simp only: append_assoc tr [symmetric])
  then have sched: "sameScheduling ?c0 c'" and grows: "cacheGrows ?c0 c'"
    and ev: "events c' = events ?c0 @ cycleTrace stale (longestLine_renderedEndRow c1 m) ?lc qs"
    by (simp_all add: advances_def)
  have "events c' = events c @ ?res
      @ cycleTrace stale (longestLine_renderedEndRow c1 m) ?lc qs"
    by (simp only: ev f0(1) append_assoc)
  then show "\<exists>stale bound longestChanged qs.
           events c' = events c @ ?res @ cycleTrace stale bound longestChanged qs"
    by (intro exI)
  show "nextUpdatePromise c' = None" using sched f0(2) by (simp only: sameScheduling_def)
  show "pendingReactions c' =
           pendingReactions c @ (case nextUpdatePromise c of None \<Rightarrow> [] | Some p \<Rightarrow> [p])"
    using sched f0(3) by (simp only: sameScheduling_def)
  show "promisesCreated c' = promisesCreated c" using sched f0(4) by (simp only: sameScheduling_def)
  show "visible c' = visible c" using sched f0(5) by (simp only: sameScheduling_def)
  show "updateScheduled c' = False" using sched f0(6) by (simp only: sameScheduling_def)
  show "scheduledCallbacks c' = scheduledCallbacks c"
    using sched f0(7) by (simp only: sameScheduling_def)
  show "cacheGrows c c'"
    using sameCache_grows [OF f0(8)] grows by (rule cacheGrows_trans)
qed

lemma returnsE: "returns r \<Longrightarrow> \<exists>x. r = Inr x"
  by (cases r) (simp_all add: returns_def)

lemma map_sum_Inr: "map_sum id f r = Inr y \<Longrightarrow> \<exists>x. r = Inr x \<and> f x = y"
  by (cases r) auto

lemma thenRun_Inr [simp]: "thenRun (Inr x) f = f x"
  by (simp add: thenRun_def)

section \<open>Awaiting the next update\<close>





section \<open>Updates of a hidden view\<close>

lemma didHide_frame:
  "\<not> visible (didHide c)" "updateScheduled (didHide c) = updateScheduled c"
  "scheduledCallbacks (didHide c) = scheduledCallbacks c"
  "nextUpdatePromise (didHide c) = nextUpdatePromise c"
  by (simp_all add: didHide_def emit_def)

text \<open>
  Claim C7, as amended. The visibility does not gate updates. \<^verbatim>\<open>didHide\<close> records that the
  view is hidden and cancels nothing: an update that was scheduled stays scheduled. On a
  hidden view, the scheduled callback and a scroll each run a whole update cycle when they
  complete, with both commits, the query of the cursors, the measurement pass and the
  positioning of the cursors, and the view is still hidden afterwards.
\<close>

theorem hidden_view_still_runs_update_cycles:
  assumes hidden: "\<not> visible h" and scheduled: "updateScheduled h" "0 < scheduledCallbacks h"
    and callback: "runScheduledCallback h = Inr c1" and scroll: "didScroll h = Inr c2"
  shows "(\<not> visible c1 \<and> \<not> updateScheduled c1
          \<and> (\<exists>stale bound longestChanged qs.
                events c1 = events h
                  @ (case nextUpdatePromise h of None \<Rightarrow> []
                     | Some p \<Rightarrow> [ResolveNextUpdatePromise p])
                  @ cycleTrace stale bound longestChanged qs))
       \<and> (\<not> visible c2
          \<and> (\<exists>stale bound longestChanged qs.
                events c2 = events h @ [MeasureScrollPosition]
                  @ (case nextUpdatePromise h of None \<Rightarrow> []
                     | Some p \<Rightarrow> [ResolveNextUpdatePromise p])
                  @ cycleTrace stale bound longestChanged qs))
       \<and> (\<not> visible (didHide c) \<and> updateScheduled (didHide c) = updateScheduled c
          \<and> scheduledCallbacks (didHide c) = scheduledCallbacks c)"
proof -
  let ?h1 = "h\<lparr>scheduledCallbacks := scheduledCallbacks h - 1\<rparr>"
  from callback scheduled have u1: "updateSync ?h1 = Inr c1"
    by (simp add: runScheduledCallback_def Let_def)
  note cy1 = updateSync_cycle [OF u1]
  from cy1(1,5,6) hidden
  have 1: "\<not> visible c1 \<and> \<not> updateScheduled c1
         \<and> (\<exists>stale bound longestChanged qs.
               events c1 = events h
                 @ (case nextUpdatePromise h of None \<Rightarrow> []
                    | Some p \<Rightarrow> [ResolveNextUpdatePromise p])
                 @ cycleTrace stale bound longestChanged qs)"
    by simp
  from scroll obtain h1 where m: "measureScrollPosition h = Inr h1"
    and u2: "updateSync h1 = Inr c2"
    by (auto simp: didScroll_def split: sum.splits)
  note f = measureScrollPosition_frame [OF m]
  note cy2 = updateSync_cycle [OF u2]
  from f have s: "visible h1 = visible h" "nextUpdatePromise h1 = nextUpdatePromise h"
    "events h1 = events h @ [MeasureScrollPosition]"
    by (simp_all add: sameScheduling_def)
  from cy2(1,5) hidden
  have 2: "\<not> visible c2
         \<and> (\<exists>stale bound longestChanged qs.
               events c2 = events h @ [MeasureScrollPosition]
                 @ (case nextUpdatePromise h of None \<Rightarrow> []
                    | Some p \<Rightarrow> [ResolveNextUpdatePromise p])
                 @ cycleTrace stale bound longestChanged qs)"
    by (simp add: s)
  have 3: "\<not> visible (didHide c) \<and> updateScheduled (didHide c) = updateScheduled c
         \<and> scheduledCallbacks (didHide c) = scheduledCallbacks c"
    by (simp add: didHide_frame)
  from 1 2 have "(\<not> visible c1 \<and> \<not> updateScheduled c1
          \<and> (\<exists>stale bound longestChanged qs.
                events c1 = events h
                  @ (case nextUpdatePromise h of None \<Rightarrow> []
                     | Some p \<Rightarrow> [ResolveNextUpdatePromise p])
                  @ cycleTrace stale bound longestChanged qs))
       \<and> (\<not> visible c2
          \<and> (\<exists>stale bound longestChanged qs.
                events c2 = events h @ [MeasureScrollPosition]
                  @ (case nextUpdatePromise h of None \<Rightarrow> []
                     | Some p \<Rightarrow> [ResolveNextUpdatePromise p])
                  @ cycleTrace stale bound longestChanged qs))" ..
  with 3 show ?thesis by (simp only: simp_thms)
qed

lemma hidden_component_state:
  "map_sum id schedulingState hidden_component
   = Inr (False, True, 1, None, 17)"
  by code_simp

lemma hidden_callback_run:
  "map_sum id (visibleAndEventsAfter 17)
     (thenRun hidden_component runScheduledCallback)
   = Inr (False,
       [PopulateSpatialIndexIfNeeded 2, GetApproximateLongestScreenRow,
        ClearPositionsToMeasure, EtchUpdateSync, QueryCursorsToRender,
        MeasureHorizontalPositions
          [RangeQuery \<lparr>owner_line = 1, node_index = 0, textContent = ''abc''\<rparr> 0 1,
           ClientRectQuery
             (Element ''div'' ''line''
                [Element ''span'' []
                   [Text \<lparr>owner_line = 1, node_index = 0, textContent = ''abc''\<rparr>,
                    Text \<lparr>owner_line = 1, node_index = 1, textContent = ''def''\<rparr>]]),
           RangeQuery \<lparr>owner_line = 1, node_index = 0, textContent = ''abc''\<rparr> 0 2],
        PositionCursorsToRender, EtchUpdateSync])"
  by code_simp

lemma hidden_scroll_run:
  "map_sum id (visibleAndEventsAfter 17) (thenRun hidden_component didScroll)
   = Inr (False,
       [MeasureScrollPosition, PopulateSpatialIndexIfNeeded 2, GetApproximateLongestScreenRow,
        ClearPositionsToMeasure, EtchUpdateSync, QueryCursorsToRender,
        MeasureHorizontalPositions
          [RangeQuery \<lparr>owner_line = 1, node_index = 0, textContent = ''abc''\<rparr> 0 1,
           ClientRectQuery
             (Element ''div'' ''line''
                [Element ''span'' []
                   [Text \<lparr>owner_line = 1, node_index = 0, textContent = ''abc''\<rparr>,
                    Text \<lparr>owner_line = 1, node_index = 1, textContent = ''def''\<rparr>]]),
           RangeQuery \<lparr>owner_line = 1, node_index = 0, textContent = ''abc''\<rparr> 0 2],
        PositionCursorsToRender, EtchUpdateSync])"
  by code_simp

theorem hidden_view_still_runs_update_cycles_witness:
  "\<exists>h c1 c2. hidden_component = Inr h
     \<and> \<not> visible h \<and> updateScheduled h \<and> 0 < scheduledCallbacks h
     \<and> runScheduledCallback h = Inr c1 \<and> didScroll h = Inr c2
     \<and> \<not> visible c1 \<and> \<not> updateScheduled c1 \<and> \<not> visible c2
     \<and> (\<exists>stale bound longestChanged qs.
           events c1 = events h @ cycleTrace stale bound longestChanged qs)
     \<and> (\<exists>stale bound longestChanged qs.
           events c2 = events h @ [MeasureScrollPosition]
             @ cycleTrace stale bound longestChanged qs)"
proof -
  from map_sum_Inr [OF hidden_component_state] obtain h where
    h: "hidden_component = Inr h"
    and st: "schedulingState h = (False, True, 1, None, 17)"
    by blast
  from st have v: "\<not> visible h" and s: "updateScheduled h" and n: "0 < scheduledCallbacks h"
    and p: "nextUpdatePromise h = None"
    by (simp_all add: schedulingState_def)
  from map_sum_Inr [OF hidden_callback_run] obtain c1 where
    r1: "runScheduledCallback h = Inr c1" unfolding h by auto
  from map_sum_Inr [OF hidden_scroll_run] obtain c2 where
    r2: "didScroll h = Inr c2" unfolding h by auto
  note t = hidden_view_still_runs_update_cycles [OF v s n r1 r2, of h]
  from t have a: "\<not> visible c1" "\<not> updateScheduled c1" "\<not> visible c2"
    by simp_all
  from t have b: "\<exists>stale bound longestChanged qs.
           events c1 = events h @ cycleTrace stale bound longestChanged qs"
    by (simp add: p)
  from t have c: "\<exists>stale bound longestChanged qs.
           events c2 = events h @ [MeasureScrollPosition]
             @ cycleTrace stale bound longestChanged qs"
    by (simp add: p)
  from h v s n r1 r2 a b c show ?thesis by blast
qed

text \<open>
  The component is hidden with an update scheduled, 17 events after its construction. The
  scheduled callback then renders twice and measures the new position of the cursor with
  two range queries on the text of line 1, and so does a scroll; the view is hidden all
  the while.
\<close>

theorem hidden_view_renders_and_measures:
  "map_sum id schedulingState hidden_component
   = Inr (False, True, 1, None, 17)
   \<and> map_sum id (visibleAndEventsAfter 17)
       (thenRun hidden_component runScheduledCallback)
     = Inr (False,
         [PopulateSpatialIndexIfNeeded 2, GetApproximateLongestScreenRow,
          ClearPositionsToMeasure, EtchUpdateSync, QueryCursorsToRender,
          MeasureHorizontalPositions
            [RangeQuery \<lparr>owner_line = 1, node_index = 0, textContent = ''abc''\<rparr> 0 1,
             ClientRectQuery
               (Element ''div'' ''line''
                  [Element ''span'' []
                     [Text \<lparr>owner_line = 1, node_index = 0, textContent = ''abc''\<rparr>,
                      Text \<lparr>owner_line = 1, node_index = 1, textContent = ''def''\<rparr>]]),
             RangeQuery \<lparr>owner_line = 1, node_index = 0, textContent = ''abc''\<rparr> 0 2],
          PositionCursorsToRender, EtchUpdateSync])
   \<and> map_sum id (visibleAndEventsAfter 17) (thenRun hidden_component didScroll)
     = Inr (False,
         [MeasureScrollPosition, PopulateSpatialIndexIfNeeded 2,
          GetApproximateLongestScreenRow,
          ClearPositionsToMeasure, EtchUpdateSync, QueryCursorsToRender,
          MeasureHorizontalPositions
            [RangeQuery \<lparr>owner_line = 1, node_index = 0, textContent = ''abc''\<rparr> 0 1,
             ClientRectQuery
               (Element ''div'' ''line''
                  [Element ''span'' []
                     [Text \<lparr>owner_line = 1, node_index = 0, textContent = ''abc''\<rparr>,
                      Text \<lparr>owner_line = 1, node_index = 1, textContent = ''def''\<rparr>]]),
             RangeQuery \<lparr>owner_line = 1, node_index = 0, textContent = ''abc''\<rparr> 0 2],
          PositionCursorsToRender, EtchUpdateSync])"
  using hidden_component_state hidden_callback_run hidden_scroll_run
  by (intro conjI)

section \<open>The cache of a line that is not rendered any more\<close>

lemma cachedPosition_destroy [simp]:
  "cachedPosition (LineComponent_destroy sl c) = cachedPosition c"
  by (simp add: cachedPosition_def LineComponent_destroy_def fun_eq_iff)

text \<open>
  Claim C9, as amended. Destroying a line component unregisters the element and the text
  nodes of its screen line and leaves the cache of horizontal positions as it is; and an
  update cycle that completes lets the cache only grow: a line that has an entry keeps it
  and a cached position keeps its value. So the positions of a line that is not rendered
  any more are retained, not discarded.
\<close>

theorem destroyed_line_keeps_its_cached_positions:
  "horizontalPixelPositionsByScreenLineId (LineComponent_destroy sl c)
     = horizontalPixelPositionsByScreenLineId c
   \<and> cachedPosition (LineComponent_destroy sl c) = cachedPosition c
   \<and> lineNodesByScreenLineId (LineComponent_destroy sl c) (line_id sl) = None
   \<and> textNodesByScreenLineId (LineComponent_destroy sl c) (line_id sl) = None
   \<and> (updateSync c = Inr c' \<longrightarrow> cacheGrows c c')"
proof (intro conjI impI)
  show "horizontalPixelPositionsByScreenLineId (LineComponent_destroy sl c)
          = horizontalPixelPositionsByScreenLineId c"
    by (simp add: LineComponent_destroy_def)
  show "cachedPosition (LineComponent_destroy sl c) = cachedPosition c"
    by (rule cachedPosition_destroy)
  show "lineNodesByScreenLineId (LineComponent_destroy sl c) (line_id sl) = None"
    by (simp add: LineComponent_destroy_def)
  show "textNodesByScreenLineId (LineComponent_destroy sl c) (line_id sl) = None"
    by (simp add: LineComponent_destroy_def)
  assume "updateSync c = Inr c'"
  then show "cacheGrows c c'" by (rule updateSync_cycle(8))
qed

lemma rendered_cycle_returns: "returns (updateSync rendered_component)"
  by code_simp

theorem destroyed_line_keeps_its_cached_positions_witness:
  "columnZeroAtZero rendered_component \<and> cachedPosition rendered_component 0 3 = Some 24
   \<and> (\<exists>c'. updateSync rendered_component = Inr c'
         \<and> horizontalPixelPositionsByScreenLineId c' 0 \<noteq> None
         \<and> columnZeroAtZero c' \<and> cachedPosition c' 0 3 = Some 24)"
proof -
  let ?c = rendered_component
  have cp: "cachedPosition ?c 0 3 = Some 24"
    by (simp add: cachedPosition_def rendered_component_def)
  have d: "horizontalPixelPositionsByScreenLineId ?c 0 \<noteq> None"
    by (simp add: rendered_component_def)
  have z: "columnZeroAtZero ?c"
    by (simp add: columnZeroAtZero_def cachedPosition_def rendered_component_def)
  from returnsE [OF rendered_cycle_returns] obtain c' where
    u: "updateSync ?c = Inr c'" ..
  from destroyed_line_keeps_its_cached_positions [of "plain_line 0" ?c c'] u
  have g: "cacheGrows ?c c'" by simp
  from g d have 1: "horizontalPixelPositionsByScreenLineId c' 0 \<noteq> None"
    unfolding cacheGrows_def by blast
  from g z cp have 2: "columnZeroAtZero c'" and 3: "cachedPosition c' 0 3 = Some 24"
    unfolding cacheGrows_def by blast+
  from z cp u 1 2 3 show ?thesis by blast
qed

lemma scrolled_away_run:
  "map_sum id (cacheAndRegistration 0 3 30) scrolled_away
   = Inr (Some 24, None, None, [18..<30], [0])"
  by code_simp

text \<open>
  After the tiles of the rows 0 to 17 have scrolled away, only the lines 18 to 29 are
  registered as rendered, the element and the text nodes of line 0 are gone, and the cache
  still holds the entry of line 0, with the position 24 of its column 3: a line with an
  entry in the cache that is not rendered.
\<close>

theorem evicted_line_keeps_its_cache_entry:
  "map_sum id (cacheAndRegistration 0 3 30) scrolled_away
   = Inr (Some 24, None, None, [18..<30], [0])"
  by (rule scrolled_away_run)

section \<open>The geometry of the cursors\<close>
































end
